theory Spec2Isabelle
  imports Main
begin

section \<open>Data model (src/index.ts, Types)\<close>

datatype TaskStatus = Pending | InProgress | Completed | Blocked

datatype ProjectStatus = Active | Paused | ProjectCompleted

text \<open>
  The field \<open>id\<close> of the source is called \<open>task_id\<close> here (\<open>id\<close> is the identity
  function of HOL), and the \<open>status\<close> of a project is \<open>project_status\<close>, since a
  theory cannot have two record fields of one name.  JavaScript strings are modelled as
  \<open>string\<close>, a list of 8-bit characters read as code points below 256.
\<close>

record Task =
  task_id :: string
  subject :: string
  status :: TaskStatus
  blockedBy :: "string list"
  blocks :: "string list"
  "notes" :: string

record TaskProject =
  project :: string
  project_status :: ProjectStatus
  created :: string
  updated :: string
  tasks :: "Task list"

section \<open>Environment: errors, the two directories, JSON, the clock\<close>

text \<open>
  \<open>NotFound msg\<close> is the \<open>new Error(msg)\<close> that the mutating operations throw for a
  missing project or task; \<open>IOError\<close>, \<open>SyntaxError\<close> and \<open>RangeError\<close> are what
  \<open>fs\<close>, \<open>JSON.parse\<close> and \<open>Array.prototype.push\<close> throw; \<open>TypeError\<close> is what a
  method call on \<open>undefined\<close> throws.
\<close>

datatype error = NotFound string | IOError | SyntaxError | RangeError | TypeError

text \<open>
  A directory is \<open>None\<close> when it is missing or cannot be accessed, and otherwise the
  list of its files, each a name with its text.  The storage object owns two of them.
  \<open>path.join(dir, name)\<close> is the entry \<open>name\<close> of \<open>dir\<close>: project names that contain
  path separators are outside this model.
\<close>

type_synonym directory = "(string \<times> string) list option"

record disk =
  tasksDir :: directory
  plansDir :: directory

definition readdirSync :: "directory \<Rightarrow> error + string list" where
  "readdirSync dir = (case dir of None \<Rightarrow> Inl IOError | Some es \<Rightarrow> Inr (map fst es))"

definition readFileSync :: "directory \<Rightarrow> string \<Rightarrow> error + string" where
  "readFileSync dir f =
     (case dir of
        None \<Rightarrow> Inl IOError
      | Some es \<Rightarrow> (case map_of es f of None \<Rightarrow> Inl IOError | Some c \<Rightarrow> Inr c))"

fun write_entry :: "string \<Rightarrow> string \<Rightarrow> (string \<times> string) list \<Rightarrow> (string \<times> string) list" where
  "write_entry f c [] = [(f, c)]"
| "write_entry f c ((g, c') # es) =
     (if g = f then (f, c) # es else (g, c') # write_entry f c es)"

definition writeFileSync :: "directory \<Rightarrow> string \<Rightarrow> string \<Rightarrow> error + directory" where
  "writeFileSync dir f c =
     (case dir of None \<Rightarrow> Inl IOError | Some es \<Rightarrow> Inr (Some (write_entry f c es)))"

text \<open>
  \<open>getProject\<close> returns \<open>JSON.parse(content) as TaskProject\<close>, and the cast checks
  nothing.  So what it returns is a value of one of these kinds:
  \<^item> \<open>Project data\<close>, a value with the fields of a \<open>TaskProject\<close>;
  \<^item> \<open>Shapeless\<close>, a truthy value of another shape, with neither a property \<open>tasks\<close>
    nor a property \<open>status\<close>, such as the object \<open>{}\<close>.  Every access \<open>data.tasks.find\<close>
    or \<open>data.tasks.reduce\<close> on it throws a \<open>TypeError\<close>.
  Values that have some of the fields only, or fields of other types, are not modelled.
\<close>

datatype loaded = Project TaskProject | Shapeless

text \<open>
  What the code takes from the JavaScript platform without fixing it is a parameter:
  \<^item> \<open>stringify J data\<close> is \<open>JSON.stringify(data, null, 2)\<close>, and \<open>parse J text\<close> is
    the value of \<open>JSON.parse(text)\<close>, or \<open>None\<close> where \<open>JSON.parse(text)\<close> throws or
    yields \<open>null\<close> (or another falsy value, which every caller treats as \<open>null\<close>).
  \<^item> \<open>toString_large J n\<close> is \<open>String(n)\<close> for an integer-valued double \<open>n\<close> above
    \<open>2^53\<close>, where the language leaves the last digits to the implementation.
  \<open>json_roundtrip\<close> is the one property of the platform that the theorems below rely on.
\<close>

record platform =
  stringify :: "TaskProject \<Rightarrow> string"
  parse :: "string \<Rightarrow> loaded option"
  toString_large :: "int \<Rightarrow> string"

definition json_roundtrip :: "platform \<Rightarrow> bool" where
  "json_roundtrip J = (\<forall>data. parse J (stringify J data) = Some (Project data))"

definition JSON_parse :: "platform \<Rightarrow> string \<Rightarrow> error + loaded" where
  "JSON_parse J text = (case parse J text of None \<Rightarrow> Inl SyntaxError | Some v \<Rightarrow> Inr v)"

text \<open>\<open>try { body } catch { return dflt }\<close>\<close>

definition try_catch :: "error + 'a \<Rightarrow> 'a \<Rightarrow> error + 'a" where
  "try_catch body dflt = (case body of Inl e \<Rightarrow> Inr dflt | Inr v \<Rightarrow> Inr v)"

section \<open>JavaScript numbers and strings, as far as \<open>addTask\<close> uses them\<close>

text \<open>
  A Number is a double.  The values that \<open>parseInt\<close>, \<open>Math.max\<close> and \<open>+ 1\<close> produce
  here are \<open>NaN\<close>, the two infinities and the doubles of integer value: \<open>Fin n\<close> is the
  double of value \<open>n\<close> (the two zeros are not told apart).  \<open>round_double n\<close> is the
  double nearest to the integer \<open>n\<close>, ties to the even significand of 53 bits, and an
  infinity from \<open>2^1024\<close> on.
\<close>

datatype number = NaN | NegInf | Fin int | PosInf

fun bit_length :: "nat \<Rightarrow> nat" where
  "bit_length n = (if n = 0 then 0 else Suc (bit_length (n div 2)))"

declare bit_length.simps [simp del]

definition round_double :: "int \<Rightarrow> number" where
  "round_double n =
     (let a = nat \<bar>n\<bar>; e = bit_length a - 53 in
      if e = 0 then Fin n
      else
        (let q = a div 2 ^ e; r = a mod 2 ^ e; half = 2 ^ (e - 1);
             m = (if half < r \<or> (r = half \<and> odd q) then q + 1 else q) * 2 ^ e
         in if 2 ^ 1024 \<le> m then (if n < 0 then NegInf else PosInf)
            else Fin (if n < 0 then - int m else int m)))"

text \<open>
  \<open>parseInt(s)\<close> with no radix: leading white space is skipped, then a sign, then the
  prefix \<open>0x\<close> or \<open>0X\<close> selects radix 16, then the longest run of digits is read; no
  digit gives \<open>NaN\<close>.  Of the white space of the language the code points below 256 are
  modelled.
\<close>

definition is_space :: "char \<Rightarrow> bool" where
  "is_space c = (of_char c \<in> {9, 10, 11, 12, 13, 32, 160 :: nat})"

definition digit_value :: "char \<Rightarrow> nat" where
  "digit_value c =
     (let k = of_char c :: nat in
      if 48 \<le> k \<and> k \<le> 57 then k - 48
      else if 97 \<le> k \<and> k \<le> 122 then k - 87
      else if 65 \<le> k \<and> k \<le> 90 then k - 55
      else 36)"

definition radix_value :: "nat \<Rightarrow> string \<Rightarrow> nat" where
  "radix_value R Z = foldl (\<lambda>acc c. acc * R + digit_value c) 0 Z"

definition parseInt :: "string \<Rightarrow> number" where
  "parseInt s =
     (let S = dropWhile is_space s;
          negative = (take 1 S = ''-'');
          S1 = (if take 1 S = ''+'' \<or> take 1 S = ''-'' then drop 1 S else S);
          hex = (take 2 S1 = ''0x'' \<or> take 2 S1 = ''0X'');
          R = (if hex then 16 else 10);
          S2 = (if hex then drop 2 S1 else S1);
          Z = takeWhile (\<lambda>c. digit_value c < R) S2
      in if Z = [] then NaN
         else round_double (if negative then - int (radix_value R Z) else int (radix_value R Z)))"

text \<open>\<open>x || 0\<close>: \<open>NaN\<close> and zero are falsy.\<close>

definition or0 :: "number \<Rightarrow> number" where
  "or0 x = (case x of NaN \<Rightarrow> Fin 0 | _ \<Rightarrow> x)"

fun Math_max :: "number \<Rightarrow> number \<Rightarrow> number" where
  "Math_max NaN y = NaN"
| "Math_max x NaN = NaN"
| "Math_max PosInf y = PosInf"
| "Math_max x PosInf = PosInf"
| "Math_max NegInf y = y"
| "Math_max x NegInf = x"
| "Math_max (Fin a) (Fin b) = Fin (max a b)"

definition plus1 :: "number \<Rightarrow> number" where
  "plus1 x = (case x of Fin n \<Rightarrow> round_double (n + 1) | _ \<Rightarrow> x)"

definition digit_char :: "nat \<Rightarrow> char" where
  "digit_char k = ''0123456789'' ! k"

fun decimal :: "nat \<Rightarrow> string" where
  "decimal n = (if n < 10 then [digit_char n] else decimal (n div 10) @ [digit_char (n mod 10)])"

declare decimal.simps [simp del]

text \<open>
  \<open>String(x)\<close>: up to \<open>2^53\<close> every integer is a double and the result is its decimal
  numeral; above, the digits are the platform's.
\<close>

definition String_number :: "platform \<Rightarrow> number \<Rightarrow> string" where
  "String_number J x =
     (case x of
        NaN \<Rightarrow> ''NaN''
      | PosInf \<Rightarrow> ''Infinity''
      | NegInf \<Rightarrow> ''-Infinity''
      | Fin n \<Rightarrow>
          if \<bar>n\<bar> \<le> 2 ^ 53 then (if n < 0 then ''-'' else []) @ decimal (nat \<bar>n\<bar>)
          else toString_large J n)"

text \<open>
  \<open>xs.push(x)\<close>: an array holds at most \<open>2^32 - 1\<close> elements, and \<open>push\<close> on a full
  one throws a \<open>RangeError\<close>.
\<close>

definition push :: "'a list \<Rightarrow> 'a \<Rightarrow> error + 'a list" where
  "push xs x = (if 2 ^ 32 - 1 \<le> length xs then Inl RangeError else Inr (xs @ [x]))"

definition endsWith :: "string \<Rightarrow> string \<Rightarrow> bool" where
  "endsWith s suffix = (length suffix \<le> length s \<and> drop (length s - length suffix) s = suffix)"

text \<open>\<open>s.replace(pattern, replacement)\<close> with a string pattern: the first occurrence only.\<close>

fun replace_first :: "string \<Rightarrow> string \<Rightarrow> string \<Rightarrow> string" where
  "replace_first pattern replacement [] = (if pattern = [] then replacement else [])"
| "replace_first pattern replacement (c # cs) =
     (if take (length pattern) (c # cs) = pattern
      then replacement @ drop (length pattern) (c # cs)
      else c # replace_first pattern replacement cs)"

section \<open>Storage layer (class TaskStorage)\<close>

definition projectPath :: "string \<Rightarrow> string" where
  "projectPath p = p @ ''.json''"

definition planPath :: "string \<Rightarrow> string" where
  "planPath p = p @ ''.md''"

text \<open>
  \<open>getProject\<close>: both the read and the parse are inside the \<open>try\<close>; the \<open>catch\<close>
  returns \<open>null\<close>, here \<open>None\<close>.
\<close>

definition getProject :: "platform \<Rightarrow> disk \<Rightarrow> string \<Rightarrow> error + loaded option" where
  "getProject J d p =
     try_catch
       (case readFileSync (tasksDir d) (projectPath p) of
          Inl e \<Rightarrow> Inl e
        | Inr content \<Rightarrow>
            (case JSON_parse J content of Inl e \<Rightarrow> Inl e | Inr v \<Rightarrow> Inr (Some v)))
       None"

text \<open>
  \<open>saveProject\<close> stamps \<open>data.updated\<close> in place with the date of the clock
  (\<open>new Date().toISOString().split("T")[0]\<close>, the parameter \<open>today\<close>) and writes the
  whole record under the name it carries.  The stamped record is returned with the
  disk; when the write throws, the disk is as before.
\<close>

definition saveProject :: "platform \<Rightarrow> string \<Rightarrow> disk \<Rightarrow> TaskProject \<Rightarrow> (error + TaskProject) \<times> disk" where
  "saveProject J today d data =
     (let data' = data\<lparr>updated := today\<rparr> in
      case writeFileSync (tasksDir d) (projectPath (project data')) (stringify J data') of
        Inl e \<Rightarrow> (Inl e, d)
      | Inr dir \<Rightarrow> (Inr data', d\<lparr>tasksDir := dir\<rparr>))"

definition listProjects :: "disk \<Rightarrow> error + string list" where
  "listProjects d =
     try_catch
       (case readdirSync (tasksDir d) of
          Inl e \<Rightarrow> Inl e
        | Inr fs \<Rightarrow> Inr (map (replace_first ''.json'' []) (filter (\<lambda>f. endsWith f ''.json'') fs)))
       []"

text \<open>
  The plan file of \<open>createProject\<close>; \<open>today\<close> is read from the clock once per
  operation.
\<close>

definition planContent :: "string \<Rightarrow> string \<Rightarrow> string" where
  "planContent p today =
     ''# '' @ p @ [CHR 0x0A, CHR 0x0A] @
     ''**Status:** active'' @ [CHR 0x0A] @
     ''**Started:** '' @ today @ [CHR 0x0A] @
     ''**Last Updated:** '' @ today @ [CHR 0x0A, CHR 0x0A] @
     ''## Goal'' @ [CHR 0x0A] @
     ''[Describe the objective]'' @ [CHR 0x0A, CHR 0x0A] @
     ''## Phases'' @ [CHR 0x0A, CHR 0x0A] @
     ''### Phase 1: [Name]'' @ [CHR 0x0A] @
     ''- [ ] Step 1'' @ [CHR 0x0A] @
     ''- [ ] Step 2'' @ [CHR 0x0A, CHR 0x0A] @
     ''## Notes'' @ [CHR 0x0A] @
     ''[Context, decisions, blockers]'' @ [CHR 0x0A]"

definition createProject :: "platform \<Rightarrow> string \<Rightarrow> disk \<Rightarrow> string \<Rightarrow> (error + TaskProject) \<times> disk" where
  "createProject J today d p =
     (case saveProject J today d
             \<lparr>project = p, project_status = Active, created = today, updated = today, tasks = []\<rparr> of
        (Inl e, d') \<Rightarrow> (Inl e, d')
      | (Inr data, d') \<Rightarrow>
          (case writeFileSync (plansDir d') (planPath p) (planContent p today) of
             Inl e \<Rightarrow> (Inl e, d')
           | Inr dir \<Rightarrow> (Inr data, d'\<lparr>plansDir := dir\<rparr>)))"

text \<open>\<open>xs.map(f)\<close> for a callback that may throw.\<close>

fun map_throwing :: "('a \<Rightarrow> error + 'b) \<Rightarrow> 'a list \<Rightarrow> error + 'b list" where
  "map_throwing f [] = Inr []"
| "map_throwing f (x # xs) =
     (case f x of
        Inl e \<Rightarrow> Inl e
      | Inr y \<Rightarrow> (case map_throwing f xs of Inl e \<Rightarrow> Inl e | Inr ys \<Rightarrow> Inr (y # ys)))"

definition getActiveProjects :: "platform \<Rightarrow> disk \<Rightarrow> error + TaskProject list" where
  "getActiveProjects J d =
     (case listProjects d of
        Inl e \<Rightarrow> Inl e
      | Inr ps \<Rightarrow>
          (case map_throwing (getProject J d) ps of
             Inl e \<Rightarrow> Inl e
           | Inr loaded \<Rightarrow>
               Inr (List.map_filter
                      (\<lambda>r. case r of
                              Some (Project data) \<Rightarrow>
                                if project_status data = Active then Some data else None
                            | _ \<Rightarrow> None)
                      loaded)))"

definition maxId_of :: "Task list \<Rightarrow> number" where
  "maxId_of ts = foldl (\<lambda>mx t. Math_max mx (or0 (parseInt (task_id t)))) (Fin 0) ts"

text \<open>
  \<open>addTask\<close> creates the project where \<open>getProject\<close> returns \<open>null\<close>.  On a value without
  \<open>tasks\<close> the call \<open>data.tasks.reduce\<close> throws before anything is written; the three
  mutating operations below throw at \<open>data.tasks.find\<close> in the same way.
\<close>

definition addTask :: "platform \<Rightarrow> string \<Rightarrow> disk \<Rightarrow> string \<Rightarrow> string \<Rightarrow> (error + Task) \<times> disk" where
  "addTask J today d p subj =
     (case getProject J d p of
        Inl e \<Rightarrow> (Inl e, d)
      | Inr loaded \<Rightarrow>
          (case (case loaded of
                   None \<Rightarrow> createProject J today d p
                 | Some (Project data) \<Rightarrow> (Inr data, d)
                 | Some Shapeless \<Rightarrow> (Inl TypeError, d)) of
             (Inl e, d1) \<Rightarrow> (Inl e, d1)
           | (Inr data, d1) \<Rightarrow>
               (let task = \<lparr>task_id = String_number J (plus1 (maxId_of (tasks data))),
                            subject = subj, status = Pending, blockedBy = [], blocks = [],
                            notes = []\<rparr>
                in case push (tasks data) task of
                     Inl e \<Rightarrow> (Inl e, d1)
                   | Inr ts \<Rightarrow>
                       (case saveProject J today d1 (data\<lparr>tasks := ts\<rparr>) of
                          (Inl e, d2) \<Rightarrow> (Inl e, d2)
                        | (Inr saved, d2) \<Rightarrow> (Inr task, d2)))))"

text \<open>
  A variable that holds a task of \<open>data.tasks\<close> is a reference into the array, so it is
  modelled by the index of the object: \<open>find_ref P ts\<close> is the index of the element
  that \<open>ts.find(P)\<close> returns.
\<close>

fun find_ref :: "('a \<Rightarrow> bool) \<Rightarrow> 'a list \<Rightarrow> nat option" where
  "find_ref P [] = None"
| "find_ref P (x # xs) = (if P x then Some 0 else map_option Suc (find_ref P xs))"

text \<open>
  The loop of \<open>updateTaskStatus\<close> over \<open>data.tasks\<close>: the tasks after the loop and the
  ids pushed to \<open>unblocked\<close>, in the order of the loop.
\<close>

fun cascade :: "string \<Rightarrow> Task list \<Rightarrow> Task list \<times> string list" where
  "cascade taskId [] = ([], [])"
| "cascade taskId (t # ts) =
     (let (ts', unblocked) = cascade taskId ts in
      if taskId \<in> set (blockedBy t) then
        (let t1 = t\<lparr>blockedBy := filter (\<lambda>i. i \<noteq> taskId) (blockedBy t)\<rparr> in
         if blockedBy t1 = [] \<and> status t1 = Blocked
         then (t1\<lparr>status := Pending\<rparr> # ts', task_id t1 # unblocked)
         else (t1 # ts', unblocked))
      else (t # ts', unblocked))"

text \<open>
  The body of \<open>updateTaskStatus\<close> between the two lookups and the save, on the array
  \<open>data.tasks\<close>; \<open>i\<close> is the reference \<open>task\<close>.
\<close>

definition updateTaskStatus_tasks ::
  "string \<Rightarrow> TaskStatus \<Rightarrow> nat \<Rightarrow> Task list \<Rightarrow> Task list \<times> string list" where
  "updateTaskStatus_tasks taskId st i ts0 =
     (let ts1 = ts0[i := (ts0 ! i)\<lparr>status := st\<rparr>] in
      if st = Completed then cascade taskId ts1 else (ts1, []))"

definition project_not_found :: "string \<Rightarrow> error" where
  "project_not_found p = NotFound (''Project '' @ [CHR 0x27] @ p @ [CHR 0x27] @ '' not found'')"

definition updateTaskStatus ::
  "platform \<Rightarrow> string \<Rightarrow> disk \<Rightarrow> string \<Rightarrow> string \<Rightarrow> TaskStatus \<Rightarrow> (error + Task \<times> string list) \<times> disk" where
  "updateTaskStatus J today d p taskId st =
     (case getProject J d p of
        Inl e \<Rightarrow> (Inl e, d)
      | Inr None \<Rightarrow> (Inl (project_not_found p), d)
      | Inr (Some Shapeless) \<Rightarrow> (Inl TypeError, d)
      | Inr (Some (Project data)) \<Rightarrow>
          (case find_ref (\<lambda>t. task_id t = taskId) (tasks data) of
             None \<Rightarrow>
               (Inl (NotFound (''Task '' @ [CHR 0x27] @ taskId @ [CHR 0x27] @ '' not found in project ''
                                @ [CHR 0x27] @ p @ [CHR 0x27])), d)
           | Some i \<Rightarrow>
               (case updateTaskStatus_tasks taskId st i (tasks data) of
                  (ts2, unblocked) \<Rightarrow>
                    (case saveProject J today d (data\<lparr>tasks := ts2\<rparr>) of
                       (Inl e, d') \<Rightarrow> (Inl e, d')
                     | (Inr saved, d') \<Rightarrow> (Inr (ts2 ! i, unblocked), d')))))"

text \<open>
  The body of \<open>setBlocker\<close> between the lookups and the save; \<open>i\<close> is the reference
  \<open>task\<close>, \<open>j\<close> the reference \<open>blocker\<close> (the same object when the two ids are equal).
\<close>

definition setBlocker_tasks :: "string \<Rightarrow> string \<Rightarrow> nat \<Rightarrow> nat \<Rightarrow> Task list \<Rightarrow> Task list" where
  "setBlocker_tasks taskId blockerId i j ts0 =
     (let ts1 = (if blockerId \<notin> set (blockedBy (ts0 ! i))
                 then ts0[i := (ts0 ! i)\<lparr>blockedBy := blockedBy (ts0 ! i) @ [blockerId],
                                         status := Blocked\<rparr>]
                 else ts0)
      in if taskId \<notin> set (blocks (ts1 ! j))
         then ts1[j := (ts1 ! j)\<lparr>blocks := blocks (ts1 ! j) @ [taskId]\<rparr>]
         else ts1)"

definition setBlocker ::
  "platform \<Rightarrow> string \<Rightarrow> disk \<Rightarrow> string \<Rightarrow> string \<Rightarrow> string \<Rightarrow> (error + unit) \<times> disk" where
  "setBlocker J today d p taskId blockerId =
     (case getProject J d p of
        Inl e \<Rightarrow> (Inl e, d)
      | Inr None \<Rightarrow> (Inl (project_not_found p), d)
      | Inr (Some Shapeless) \<Rightarrow> (Inl TypeError, d)
      | Inr (Some (Project data)) \<Rightarrow>
          (case (find_ref (\<lambda>t. task_id t = taskId) (tasks data),
                 find_ref (\<lambda>t. task_id t = blockerId) (tasks data)) of
             (Some i, Some j) \<Rightarrow>
               (case saveProject J today d
                       (data\<lparr>tasks := setBlocker_tasks taskId blockerId i j (tasks data)\<rparr>) of
                  (Inl e, d') \<Rightarrow> (Inl e, d')
                | (Inr saved, d') \<Rightarrow> (Inr (), d'))
           | _ \<Rightarrow> (Inl (NotFound ''Task not found''), d)))"

definition updateTaskNotes ::
  "platform \<Rightarrow> string \<Rightarrow> disk \<Rightarrow> string \<Rightarrow> string \<Rightarrow> string \<Rightarrow> (error + unit) \<times> disk" where
  "updateTaskNotes J today d p taskId ns =
     (case getProject J d p of
        Inl e \<Rightarrow> (Inl e, d)
      | Inr None \<Rightarrow> (Inl (project_not_found p), d)
      | Inr (Some Shapeless) \<Rightarrow> (Inl TypeError, d)
      | Inr (Some (Project data)) \<Rightarrow>
          (case find_ref (\<lambda>t. task_id t = taskId) (tasks data) of
             None \<Rightarrow> (Inl (NotFound (''Task '' @ [CHR 0x27] @ taskId @ [CHR 0x27] @ '' not found'')), d)
           | Some i \<Rightarrow>
               (case saveProject J today d
                       (data\<lparr>tasks := (tasks data)[i := (tasks data ! i)\<lparr>notes := ns\<rparr>]\<rparr>) of
                  (Inl e, d') \<Rightarrow> (Inl e, d')
                | (Inr saved, d') \<Rightarrow> (Inr (), d'))))"

section \<open>Notions used to state the properties\<close>

text \<open>\<open>data.tasks.find(t => t.id === x)\<close>, the task that an id resolves to.\<close>

definition task_of :: "TaskProject \<Rightarrow> string \<Rightarrow> Task option" where
  "task_of data x = find (\<lambda>t. task_id t = x) (tasks data)"

text \<open>The project \<open>p\<close> has a record on the disk and \<open>x\<close> resolves to a task of it.\<close>

definition resolves :: "platform \<Rightarrow> disk \<Rightarrow> string \<Rightarrow> string \<Rightarrow> bool" where
  "resolves J d p x =
     (case getProject J d p of Inr (Some (Project data)) \<Rightarrow> task_of data x \<noteq> None | _ \<Rightarrow> False)"

text \<open>
  Completing \<open>x\<close> unblocks \<open>t\<close>: \<open>x\<close> is a blocker of \<open>t\<close>, removing it leaves no
  blocker, and the status of \<open>t\<close> is exactly \<open>blocked\<close>.
\<close>

definition unblocked_by :: "string \<Rightarrow> Task \<Rightarrow> bool" where
  "unblocked_by x t =
     (x \<in> set (blockedBy t) \<and> filter (\<lambda>b. b \<noteq> x) (blockedBy t) = [] \<and> status t = Blocked)"

text \<open>The tasks of the project \<open>p\<close> as \<open>getProject\<close> loads them; none when it loads no project.\<close>

definition tasks_of :: "platform \<Rightarrow> disk \<Rightarrow> string \<Rightarrow> Task list" where
  "tasks_of J d p = (case getProject J d p of Inr (Some (Project data)) \<Rightarrow> tasks data | _ \<Rightarrow> [])"

text \<open>
  A project at its start: it has no record yet, or the record that \<open>createProject\<close>
  writes, stored under its own name and without tasks.
\<close>

definition fresh_project :: "platform \<Rightarrow> disk \<Rightarrow> string \<Rightarrow> bool" where
  "fresh_project J d p =
     (case getProject J d p of
        Inr None \<Rightarrow> True
      | Inr (Some (Project data)) \<Rightarrow> project data = p \<and> tasks data = []
      | _ \<Rightarrow> False)"

text \<open>
  The calls of the engine on one project, each with the date of the clock at the call.
  \<open>run\<close> makes the calls in turn, a failed call leaving the disk that its exception
  leaves, and returns the ids that the successful \<open>addTask\<close> calls assigned, in order,
  with the last disk.
\<close>

datatype call =
    AddTask string
  | UpdateTaskStatus string TaskStatus
  | UpdateTaskNotes string string
  | SetBlocker string string

fun run :: "platform \<Rightarrow> string \<Rightarrow> (string \<times> call) list \<Rightarrow> disk \<Rightarrow> string list \<times> disk" where
  "run J p [] d = ([], d)"
| "run J p ((today, AddTask subj) # cs) d =
     (case addTask J today d p subj of
        (Inl e, d') \<Rightarrow> run J p cs d'
      | (Inr task, d') \<Rightarrow> (case run J p cs d' of (ids, d'') \<Rightarrow> (task_id task # ids, d'')))"
| "run J p ((today, UpdateTaskStatus t st) # cs) d =
     run J p cs (snd (updateTaskStatus J today d p t st))"
| "run J p ((today, UpdateTaskNotes t ns) # cs) d =
     run J p cs (snd (updateTaskNotes J today d p t ns))"
| "run J p ((today, SetBlocker t b) # cs) d =
     run J p cs (snd (setBlocker J today d p t b))"

text \<open>The ids of a list of tasks are \<open>1\<close>, \<open>2\<close>, \<open>3\<close>, ... in decimal, in this order.\<close>

definition numbered :: "Task list \<Rightarrow> bool" where
  "numbered ts = (map task_id ts = map (\<lambda>k. decimal (Suc k)) [0..<length ts])"

text \<open>
  The project \<open>p\<close> holds \<open>n\<close> tasks numbered from 1 under its own name; with \<open>n = 0\<close>
  it may also have no record.
\<close>

definition project_numbered :: "platform \<Rightarrow> disk \<Rightarrow> string \<Rightarrow> nat \<Rightarrow> bool" where
  "project_numbered J d p n =
     (case getProject J d p of
        Inr None \<Rightarrow> n = 0
      | Inr (Some (Project data)) \<Rightarrow> project data = p \<and> numbered (tasks data) \<and> length (tasks data) = n
      | _ \<Rightarrow> False)"

text \<open>
  Every edge of a \<open>blockedBy\<close> is recorded on the other side: a blocker \<open>b\<close> of a task is
  the id of a task that has the id of the blocked task in its \<open>blocks\<close>.
\<close>

definition edges_recorded :: "Task list \<Rightarrow> bool" where
  "edges_recorded ts =
     (\<forall>k<length ts. \<forall>b\<in>set (blockedBy (ts ! k)).
        \<exists>m<length ts. task_id (ts ! m) = b \<and> task_id (ts ! k) \<in> set (blocks (ts ! m)))"

text \<open>
  An id that \<open>parseInt\<close> reads as a number below \<open>2^53\<close>, or as none: up to there
  adding 1 to a double is exact.
\<close>

definition safe_id :: "string \<Rightarrow> bool" where
  "safe_id s = (case parseInt s of Fin v \<Rightarrow> v < 2 ^ 53 | PosInf \<Rightarrow> False | _ \<Rightarrow> True)"

text \<open>An id parsed as an integer, 0 where it does not parse.\<close>

definition id_value :: "string \<Rightarrow> int" where
  "id_value s = (case parseInt s of Fin v \<Rightarrow> v | _ \<Rightarrow> 0)"

text \<open>
  The maximum over the tasks of their id parsed as an integer, 0 where there is no task
  and for an id that does not parse.
\<close>

definition largest_id :: "Task list \<Rightarrow> int" where
  "largest_id ts = Max (insert 0 (id_value ` task_id ` set ts))"

text \<open>
  The project \<open>p\<close> is stored under its own name, all its ids are safe, and the largest
  is \<open>n\<close>; with \<open>n = 0\<close> it may also have no record.
\<close>

definition project_counted :: "platform \<Rightarrow> disk \<Rightarrow> string \<Rightarrow> nat \<Rightarrow> bool" where
  "project_counted J d p n =
     (case getProject J d p of
        Inr None \<Rightarrow> n = 0
      | Inr (Some (Project data)) \<Rightarrow>
          project data = p \<and> (\<forall>t\<in>set (tasks data). safe_id (task_id t)) \<and>
          largest_id (tasks data) = int n
      | _ \<Rightarrow> False)"

definition plain_digit :: "char \<Rightarrow> bool" where
  "plain_digit c = (\<exists>k<10. c = digit_char k)"

section \<open>A sample platform\<close>

text \<open>
  The theorems hold for every platform with \<open>json_roundtrip\<close>.  To run the operations on
  concrete disks one such platform is fixed here.  Its text format is not JSON: a number
  is written in unary, a string after its length, a list after its length.
\<close>

definition enc_nat :: "nat \<Rightarrow> string" where
  "enc_nat n = replicate n CHR ''1'' @ ''0''"

fun dec_nat :: "string \<Rightarrow> (nat \<times> string) option" where
  "dec_nat [] = None"
| "dec_nat (c # cs) =
     (if c = CHR ''1'' then map_option (\<lambda>(n, r). (Suc n, r)) (dec_nat cs)
      else if c = CHR ''0'' then Some (0, cs) else None)"

definition enc_str :: "string \<Rightarrow> string" where
  "enc_str s = enc_nat (length s) @ s"

definition dec_str :: "string \<Rightarrow> (string \<times> string) option" where
  "dec_str cs =
     (case dec_nat cs of
        None \<Rightarrow> None
      | Some (n, r) \<Rightarrow> if n \<le> length r then Some (take n r, drop n r) else None)"

fun dec_many :: "(string \<Rightarrow> ('a \<times> string) option) \<Rightarrow> nat \<Rightarrow> string \<Rightarrow> ('a list \<times> string) option" where
  "dec_many dec 0 cs = Some ([], cs)"
| "dec_many dec (Suc n) cs =
     (case dec cs of
        None \<Rightarrow> None
      | Some (x, r) \<Rightarrow> map_option (\<lambda>(xs, r'). (x # xs, r')) (dec_many dec n r))"

definition enc_list :: "('a \<Rightarrow> string) \<Rightarrow> 'a list \<Rightarrow> string" where
  "enc_list enc xs = enc_nat (length xs) @ concat (map enc xs)"

definition dec_list :: "(string \<Rightarrow> ('a \<times> string) option) \<Rightarrow> string \<Rightarrow> ('a list \<times> string) option" where
  "dec_list dec cs = (case dec_nat cs of None \<Rightarrow> None | Some (n, r) \<Rightarrow> dec_many dec n r)"

definition enc_status :: "TaskStatus \<Rightarrow> string" where
  "enc_status s = (case s of Pending \<Rightarrow> ''p'' | InProgress \<Rightarrow> ''i'' | Completed \<Rightarrow> ''c'' | Blocked \<Rightarrow> ''b'')"

fun dec_status :: "string \<Rightarrow> (TaskStatus \<times> string) option" where
  "dec_status [] = None"
| "dec_status (c # cs) =
     (if c = CHR ''p'' then Some (Pending, cs)
      else if c = CHR ''i'' then Some (InProgress, cs)
      else if c = CHR ''c'' then Some (Completed, cs)
      else if c = CHR ''b'' then Some (Blocked, cs)
      else None)"

definition enc_project_status :: "ProjectStatus \<Rightarrow> string" where
  "enc_project_status s = (case s of Active \<Rightarrow> ''a'' | Paused \<Rightarrow> ''p'' | ProjectCompleted \<Rightarrow> ''c'')"

fun dec_project_status :: "string \<Rightarrow> (ProjectStatus \<times> string) option" where
  "dec_project_status [] = None"
| "dec_project_status (c # cs) =
     (if c = CHR ''a'' then Some (Active, cs)
      else if c = CHR ''p'' then Some (Paused, cs)
      else if c = CHR ''c'' then Some (ProjectCompleted, cs)
      else None)"

definition enc_task :: "Task \<Rightarrow> string" where
  "enc_task t =
     enc_str (task_id t) @ enc_str (subject t) @ enc_status (status t) @
     enc_list enc_str (blockedBy t) @ enc_list enc_str (blocks t) @ enc_str (notes t)"

definition dec_task :: "string \<Rightarrow> (Task \<times> string) option" where
  "dec_task cs =
     (case dec_str cs of None \<Rightarrow> None | Some (i, r1) \<Rightarrow>
      case dec_str r1 of None \<Rightarrow> None | Some (sj, r2) \<Rightarrow>
      case dec_status r2 of None \<Rightarrow> None | Some (st, r3) \<Rightarrow>
      case dec_list dec_str r3 of None \<Rightarrow> None | Some (bb, r4) \<Rightarrow>
      case dec_list dec_str r4 of None \<Rightarrow> None | Some (bl, r5) \<Rightarrow>
      case dec_str r5 of None \<Rightarrow> None | Some (ns, r6) \<Rightarrow>
        Some (\<lparr>task_id = i, subject = sj, status = st, blockedBy = bb, blocks = bl, notes = ns\<rparr>, r6))"

definition sample_stringify :: "TaskProject \<Rightarrow> string" where
  "sample_stringify data =
     enc_str (project data) @ enc_project_status (project_status data) @
     enc_str (created data) @ enc_str (updated data) @ enc_list enc_task (tasks data)"

definition decode_project :: "string \<Rightarrow> TaskProject option" where
  "decode_project cs =
     (case dec_str cs of None \<Rightarrow> None | Some (p, r1) \<Rightarrow>
      case dec_project_status r1 of None \<Rightarrow> None | Some (st, r2) \<Rightarrow>
      case dec_str r2 of None \<Rightarrow> None | Some (cr, r3) \<Rightarrow>
      case dec_str r3 of None \<Rightarrow> None | Some (up, r4) \<Rightarrow>
      case dec_list dec_task r4 of None \<Rightarrow> None | Some (ts, r5) \<Rightarrow>
        if r5 = [] then
          Some \<lparr>project = p, project_status = st, created = cr, updated = up, tasks = ts\<rparr>
        else None)"

text \<open>The one text that the sample platform parses to a value of another shape is \<open>{}\<close>.\<close>

definition sample_parse :: "string \<Rightarrow> loaded option" where
  "sample_parse cs =
     (case decode_project cs of
        Some data \<Rightarrow> Some (Project data)
      | None \<Rightarrow> if cs = ''{}'' then Some Shapeless else None)"

definition sample_platform :: platform where
  "sample_platform =
     \<lparr>stringify = sample_stringify, parse = sample_parse,
      toString_large = (\<lambda>n. decimal (nat \<bar>n\<bar>))\<rparr>"

definition sample_task :: "string \<Rightarrow> TaskStatus \<Rightarrow> string list \<Rightarrow> string list \<Rightarrow> Task" where
  "sample_task i st bb bl =
     \<lparr>task_id = i, subject = ''work'', status = st, blockedBy = bb, blocks = bl, notes = []\<rparr>"

definition sample_project :: "Task list \<Rightarrow> TaskProject" where
  "sample_project ts =
     \<lparr>project = ''p'', project_status = Active, created = ''2026-01-01'',
      updated = ''2026-01-01'', tasks = ts\<rparr>"

definition sample_disk :: "Task list \<Rightarrow> disk" where
  "sample_disk ts =
     \<lparr>tasksDir = Some [(''p.json'', sample_stringify (sample_project ts))], plansDir = Some []\<rparr>"

section \<open>Properties\<close>

subsection \<open>The storage layer\<close>

lemma getProject_total: "\<exists>r. getProject J d p = Inr r"
  by (simp add: getProject_def try_catch_def split: sum.splits)

lemma getProject_Some_dir:
  "getProject J d p = Inr (Some (Project data)) \<Longrightarrow> \<exists>es. tasksDir d = Some es"
  by (auto simp: getProject_def try_catch_def readFileSync_def split: sum.splits option.splits loaded.splits)

lemma map_of_write_entry: "map_of (write_entry f c es) = (map_of es)(f \<mapsto> c)"
  by (induction es) (auto simp: fun_eq_iff)

lemma saveProject_ok:
  assumes "tasksDir d = Some es"
  shows "saveProject J today d data =
           (Inr (data\<lparr>updated := today\<rparr>),
            d\<lparr>tasksDir := Some (write_entry (projectPath (project data)) (stringify J (data\<lparr>updated := today\<rparr>)) es)\<rparr>)"
  using assms by (simp add: saveProject_def writeFileSync_def Let_def)

lemma getProject_after_write:
  assumes "json_roundtrip J"
  shows "getProject J (d\<lparr>tasksDir := Some (write_entry (projectPath p) (stringify J data) es)\<rparr>) p = Inr (Some (Project data))"
  using assms
  by (simp add: getProject_def try_catch_def readFileSync_def map_of_write_entry JSON_parse_def json_roundtrip_def)

lemma getProject_other_write:
  assumes "q \<noteq> p" "tasksDir d = Some es"
  shows "getProject J (d\<lparr>tasksDir := Some (write_entry (projectPath p) c es)\<rparr>) q = getProject J d q"
  using assms
  by (simp add: getProject_def try_catch_def readFileSync_def map_of_write_entry projectPath_def)

lemma find_ref_Some:
  "find_ref P xs = Some i \<Longrightarrow> i < length xs \<and> P (xs ! i) \<and> (\<forall>k<i. \<not> P (xs ! k))"
proof (induction xs arbitrary: i)
  case Nil then show ?case by simp
next
  case (Cons x xs)
  show ?case
  proof (cases "P x")
    case True with Cons.prems show ?thesis by simp
  next
    case False
    with Cons.prems obtain i' where i': "find_ref P xs = Some i'" "i = Suc i'" by auto
    from Cons.IH[OF i'(1)] False i'(2) show ?thesis by (auto simp: less_Suc_eq_0_disj)
  qed
qed

lemma find_ref_None: "find_ref P xs = None \<longleftrightarrow> (\<forall>x\<in>set xs. \<not> P x)"
  by (induction xs) auto

lemma find_find_ref: "find P xs = map_option (nth xs) (find_ref P xs)"
  by (induction xs) (auto simp: option.map_comp comp_def)

lemma find_ref_map: "find_ref (\<lambda>t. f t = x) ts = find_ref (\<lambda>y. y = x) (map f ts)"
  by (induction ts) auto

lemma find_ref_cong_ids:
  "map f ts' = map f ts \<Longrightarrow> find_ref (\<lambda>t. f t = x) ts' = find_ref (\<lambda>t. f t = x) ts"
  by (metis find_ref_map)

subsection \<open>The sample platform\<close>

lemma dec_nat_enc: "dec_nat (enc_nat n @ r) = Some (n, r)"
  by (induction n) (simp_all add: enc_nat_def)

lemma dec_str_enc: "dec_str (enc_str s @ r) = Some (s, r)"
  by (simp add: dec_str_def enc_str_def dec_nat_enc)

lemma dec_many_enc:
  assumes "\<And>x r. dec (enc x @ r) = Some (x, r)"
  shows "dec_many dec (length xs) (concat (map enc xs) @ r) = Some (xs, r)"
  by (induction xs) (simp_all add: assms)

lemma dec_list_enc:
  assumes "\<And>x r. dec (enc x @ r) = Some (x, r)"
  shows "dec_list dec (enc_list enc xs @ r) = Some (xs, r)"
  by (simp add: dec_list_def enc_list_def dec_nat_enc dec_many_enc [of dec enc, OF assms])

lemma dec_status_enc: "dec_status (enc_status s @ r) = Some (s, r)"
  by (cases s) (simp_all add: enc_status_def)

lemma dec_project_status_enc: "dec_project_status (enc_project_status s @ r) = Some (s, r)"
  by (cases s) (simp_all add: enc_project_status_def)

lemma dec_task_enc: "dec_task (enc_task t @ r) = Some (t, r)"
  by (simp add: dec_task_def enc_task_def dec_str_enc dec_status_enc dec_list_enc [of dec_str enc_str, OF dec_str_enc])

lemma decode_project_stringify: "decode_project (sample_stringify data) = Some data"
  using dec_list_enc [of dec_task enc_task "tasks data" "[]", OF dec_task_enc]
  by (simp add: decode_project_def sample_stringify_def dec_str_enc dec_project_status_enc)

lemma sample_parse_stringify: "sample_parse (sample_stringify data) = Some (Project data)"
  by (simp add: sample_parse_def decode_project_stringify)

lemma sample_roundtrip: "json_roundtrip sample_platform"
  by (simp add: json_roundtrip_def sample_platform_def sample_parse_stringify)

lemma getProject_sample_disk [simp]:
  "getProject sample_platform (sample_disk ts) ''p'' = Inr (Some (Project (sample_project ts)))"
  by (simp add: getProject_def try_catch_def readFileSync_def projectPath_def JSON_parse_def
      sample_disk_def sample_platform_def sample_parse_stringify)

subsection \<open>Missing projects and tasks\<close>

lemma getProject_shapeless_disk:
  "getProject sample_platform \<lparr>tasksDir = Some [(''p.json'', ''{}'')], plansDir = Some []\<rparr> ''p''
     = Inr (Some Shapeless)"
  by (simp add: getProject_def try_catch_def readFileSync_def projectPath_def JSON_parse_def
      sample_platform_def sample_parse_def decode_project_def dec_str_def)

text \<open>
  Claim C5, amended.  Each of \<open>setBlocker\<close> (linkBlocker), \<open>updateTaskStatus\<close> (setStatus)
  and \<open>updateTaskNotes\<close> (setNotes) fails with a NotFound error whenever \<open>getProject\<close>
  returns \<open>null\<close> for the project (no file, or a text that does not parse), and whenever
  it returns a project record in which a task id that the call is given does not resolve
  to a task; the disk it leaves is the disk it was given.  Where \<open>getProject\<close> returns a
  value of another shape, each of the three throws a \<open>TypeError\<close> instead, and again the
  disk it leaves is the disk it was given.
\<close>

theorem not_found_leaves_disk:
  "(getProject J d p \<noteq> Inr (Some Shapeless) \<and> (\<not> resolves J d p t \<or> \<not> resolves J d p b) \<longrightarrow>
      (\<exists>msg. setBlocker J today d p t b = (Inl (NotFound msg), d))) \<and>
   (getProject J d p \<noteq> Inr (Some Shapeless) \<and> \<not> resolves J d p t \<longrightarrow>
      (\<exists>msg. updateTaskStatus J today d p t st = (Inl (NotFound msg), d))) \<and>
   (getProject J d p \<noteq> Inr (Some Shapeless) \<and> \<not> resolves J d p t \<longrightarrow>
      (\<exists>msg. updateTaskNotes J today d p t ns = (Inl (NotFound msg), d))) \<and>
   (getProject J d p = Inr (Some Shapeless) \<longrightarrow>
      setBlocker J today d p t b = (Inl TypeError, d) \<and>
      updateTaskStatus J today d p t st = (Inl TypeError, d) \<and>
      updateTaskNotes J today d p t ns = (Inl TypeError, d))"
  using getProject_total [of J d p]
  by (auto simp: resolves_def task_of_def find_find_ref setBlocker_def updateTaskStatus_def
      updateTaskNotes_def project_not_found_def split: sum.splits option.splits loaded.splits)

theorem not_found_leaves_disk_witness:
  "\<not> resolves sample_platform (sample_disk [sample_task ''1'' Pending [] []]) ''p'' ''9'' \<and>
   \<not> resolves sample_platform (sample_disk [sample_task ''1'' Pending [] []]) ''q'' ''1'' \<and>
   (\<exists>msg. setBlocker sample_platform ''2026-01-02'' (sample_disk [sample_task ''1'' Pending [] []]) ''p'' ''1'' ''9''
           = (Inl (NotFound msg), sample_disk [sample_task ''1'' Pending [] []])) \<and>
   (\<exists>msg. updateTaskStatus sample_platform ''2026-01-02'' (sample_disk [sample_task ''1'' Pending [] []]) ''p'' ''9'' Completed
           = (Inl (NotFound msg), sample_disk [sample_task ''1'' Pending [] []])) \<and>
   (\<exists>msg. updateTaskNotes sample_platform ''2026-01-02'' (sample_disk [sample_task ''1'' Pending [] []]) ''q'' ''1'' ''n''
           = (Inl (NotFound msg), sample_disk [sample_task ''1'' Pending [] []])) \<and>
   setBlocker sample_platform ''2026-01-02''
      \<lparr>tasksDir = Some [(''p.json'', ''{}'')], plansDir = Some []\<rparr> ''p'' ''1'' ''2''
     = (Inl TypeError, \<lparr>tasksDir = Some [(''p.json'', ''{}'')], plansDir = Some []\<rparr>) \<and>
   updateTaskNotes sample_platform ''2026-01-02''
      \<lparr>tasksDir = Some [(''p.json'', ''{}'')], plansDir = Some []\<rparr> ''p'' ''1'' ''n''
     = (Inl TypeError, \<lparr>tasksDir = Some [(''p.json'', ''{}'')], plansDir = Some []\<rparr>)"
proof -
  let ?d = "sample_disk [sample_task ''1'' Pending [] []]"
  let ?e = "\<lparr>tasksDir = Some [(''p.json'', ''{}'')], plansDir = Some []\<rparr>"
  have a: "\<not> resolves sample_platform ?d ''p'' ''9''"
    by (simp add: resolves_def task_of_def sample_project_def sample_task_def)
  have q: "getProject sample_platform ?d ''q'' = Inr None"
    by (simp add: getProject_def try_catch_def readFileSync_def projectPath_def sample_disk_def)
  then have b: "\<not> resolves sample_platform ?d ''q'' ''1''"
    by (simp add: resolves_def)
  have sp: "getProject sample_platform ?d ''p'' \<noteq> Inr (Some Shapeless)"
    and sq: "getProject sample_platform ?d ''q'' \<noteq> Inr (Some Shapeless)"
    using q by simp_all
  from a b sp sq getProject_shapeless_disk
    not_found_leaves_disk [of sample_platform ?d "''p''" "''1''" "''9''" "''2026-01-02''" Completed "''n''"]
    not_found_leaves_disk [of sample_platform ?d "''p''" "''9''" "''9''" "''2026-01-02''" Completed "''n''"]
    not_found_leaves_disk [of sample_platform ?d "''q''" "''1''" "''1''" "''2026-01-02''" Completed "''n''"]
    not_found_leaves_disk [of sample_platform ?e "''p''" "''1''" "''2''" "''2026-01-02''" Completed "''n''"]
  show ?thesis by blast
qed

text \<open>
  The claim as it is written fails on a stored \<open>{}\<close>: the record is there, no id
  resolves to a task of it, and the call does not fail with NotFound but with the
  \<open>TypeError\<close> of \<open>data.tasks.find\<close>.
\<close>

theorem not_found_counterexample:
  "\<not> resolves sample_platform \<lparr>tasksDir = Some [(''p.json'', ''{}'')], plansDir = Some []\<rparr> ''p'' ''1'' \<and>
   updateTaskStatus sample_platform ''2026-01-02''
      \<lparr>tasksDir = Some [(''p.json'', ''{}'')], plansDir = Some []\<rparr> ''p'' ''1'' Completed
     = (Inl TypeError, \<lparr>tasksDir = Some [(''p.json'', ''{}'')], plansDir = Some []\<rparr>)"
  by (simp add: resolves_def updateTaskStatus_def getProject_shapeless_disk)

subsection \<open>Linking a blocker\<close>

lemma write_entry_twice: "write_entry f c' (write_entry f c es) = write_entry f c' es"
  by (induction es) auto

lemma save_loaded:
  assumes rt: "json_roundtrip J" and load: "getProject J d p = Inr (Some (Project data))"
    and name: "project data = p"
  shows "\<exists>d'. saveProject J today d (data\<lparr>tasks := ts\<rparr>) = (Inr (data\<lparr>tasks := ts, updated := today\<rparr>), d') \<and>
              getProject J d' p = Inr (Some (Project (data\<lparr>tasks := ts, updated := today\<rparr>))) \<and>
              plansDir d' = plansDir d"
proof -
  from getProject_Some_dir [OF load] obtain es where es: "tasksDir d = Some es" by blast
  show ?thesis
    using getProject_after_write [OF rt, where d = d and p = p and es = es
        and data = "data\<lparr>tasks := ts, updated := today\<rparr>"] name
    by (simp add: saveProject_ok [OF es])
qed

lemma setBlocker_tasks_length [simp]: "length (setBlocker_tasks t b i j ts) = length ts"
  by (simp add: setBlocker_tasks_def Let_def)

lemma map_update_same: "(map f ts)[i := f (ts ! i)] = map f ts"
  by (metis list_update_id map_update)

lemma setBlocker_tasks_ids [simp]:
  assumes "i < length ts" "j < length ts"
  shows "map task_id (setBlocker_tasks t b i j ts) = map task_id ts"
  using assms
  by (auto simp: setBlocker_tasks_def Let_def map_update nth_list_update map_update_same)

lemma setBlocker_tasks_links:
  assumes "i < length ts" "j < length ts"
  shows "b \<in> set (blockedBy (setBlocker_tasks t b i j ts ! i))"
    and "t \<in> set (blocks (setBlocker_tasks t b i j ts ! j))"
    and "b \<notin> set (blockedBy (ts ! i)) \<Longrightarrow> status (setBlocker_tasks t b i j ts ! i) = Blocked"
  using assms by (auto simp: setBlocker_tasks_def Let_def nth_list_update)

lemma setBlocker_tasks_idem:
  assumes "i < length ts" "j < length ts"
  shows "setBlocker_tasks t b i j (setBlocker_tasks t b i j ts) = setBlocker_tasks t b i j ts"
  using setBlocker_tasks_links(1,2) [OF assms, where b = b and t = t]
  by (simp add: setBlocker_tasks_def [of t b i j "setBlocker_tasks t b i j ts"] Let_def)

lemma setBlocker_loaded:
  assumes rt: "json_roundtrip J" and load: "getProject J d p = Inr (Some (Project data))"
    and name: "project data = p"
    and i: "find_ref (\<lambda>u. task_id u = t) (tasks data) = Some i"
    and j: "find_ref (\<lambda>u. task_id u = b) (tasks data) = Some j"
  shows "\<exists>d'. setBlocker J today d p t b = (Inr (), d') \<and>
              (Inr (data\<lparr>tasks := setBlocker_tasks t b i j (tasks data), updated := today\<rparr>), d') =
                saveProject J today d (data\<lparr>tasks := setBlocker_tasks t b i j (tasks data)\<rparr>) \<and>
              getProject J d' p =
                Inr (Some (Project (data\<lparr>tasks := setBlocker_tasks t b i j (tasks data), updated := today\<rparr>)))"
  using save_loaded [OF rt load name, of today "setBlocker_tasks t b i j (tasks data)"] load i j
  by (auto simp: setBlocker_def)

lemma task_of_find_ref:
  "task_of data x = Some tk \<longleftrightarrow>
     (\<exists>i. find_ref (\<lambda>u. task_id u = x) (tasks data) = Some i \<and> tk = tasks data ! i)"
  by (auto simp: task_of_def find_find_ref)

lemma find_ref_setBlocker_tasks:
  assumes "i < length ts" "j < length ts"
  shows "find_ref (\<lambda>u. task_id u = x) (setBlocker_tasks t b i j ts) = find_ref (\<lambda>u. task_id u = x) ts"
  by (rule find_ref_cong_ids) (simp add: assms)

text \<open>
  Claim C3.  In a project stored under its own name in which \<open>t\<close> and \<open>b\<close> resolve to
  tasks, \<open>setBlocker\<close> (linkBlocker) for \<open>t\<close> and \<open>b\<close> succeeds, and in the project it
  leaves \<open>b\<close> is in the \<open>blockedBy\<close> of the task of \<open>t\<close> and \<open>t\<close> is in the \<open>blocks\<close> of
  the task of \<open>b\<close>; if \<open>b\<close> was not in that \<open>blockedBy\<close> before, the status of the task of
  \<open>t\<close> is now \<open>blocked\<close>, whatever it was (in the witness it was \<open>completed\<close>).
\<close>

theorem setBlocker_links:
  assumes rt: "json_roundtrip J" and load: "getProject J d p = Inr (Some (Project data))"
    and name: "project data = p"
    and t: "task_of data t = Some tk" and b: "task_of data b = Some bk"
  shows "\<exists>d' data' tk' bk'.
           setBlocker J today d p t b = (Inr (), d') \<and>
           getProject J d' p = Inr (Some (Project data')) \<and>
           task_of data' t = Some tk' \<and> task_of data' b = Some bk' \<and>
           b \<in> set (blockedBy tk') \<and> t \<in> set (blocks bk') \<and>
           (b \<notin> set (blockedBy tk) \<longrightarrow> status tk' = Blocked)"
proof -
  from t obtain i where i: "find_ref (\<lambda>u. task_id u = t) (tasks data) = Some i"
    and tk: "tk = tasks data ! i" by (auto simp: task_of_find_ref)
  from b obtain j where j: "find_ref (\<lambda>u. task_id u = b) (tasks data) = Some j"
    by (auto simp: task_of_find_ref)
  have il: "i < length (tasks data)" and jl: "j < length (tasks data)"
    using find_ref_Some [OF i] find_ref_Some [OF j] by simp_all
  let ?ts = "setBlocker_tasks t b i j (tasks data)"
  let ?data = "data\<lparr>tasks := ?ts, updated := today\<rparr>"
  from setBlocker_loaded [OF rt load name i j, of today]
  obtain d' where d': "setBlocker J today d p t b = (Inr (), d')"
    "getProject J d' p = Inr (Some (Project ?data))" by blast
  have "task_of ?data t = Some (?ts ! i)" "task_of ?data b = Some (?ts ! j)"
    using i j by (simp_all add: task_of_find_ref find_ref_setBlocker_tasks [OF il jl])
  with d' setBlocker_tasks_links [OF il jl, where b = b and t = t] tk show ?thesis by blast
qed

theorem setBlocker_links_witness:
  "task_of (sample_project [sample_task ''1'' Completed [] [], sample_task ''2'' Completed [] []]) ''2''
     = Some (sample_task ''2'' Completed [] []) \<and>
   (\<exists>d' data' tk' bk'.
      setBlocker sample_platform ''2026-01-02''
        (sample_disk [sample_task ''1'' Completed [] [], sample_task ''2'' Completed [] []]) ''p'' ''2'' ''1''
        = (Inr (), d') \<and>
      getProject sample_platform d' ''p'' = Inr (Some (Project data')) \<and>
      task_of data' ''2'' = Some tk' \<and> task_of data' ''1'' = Some bk' \<and>
      ''1'' \<in> set (blockedBy tk') \<and> ''2'' \<in> set (blocks bk') \<and> status tk' = Blocked)"
proof -
  let ?ts = "[sample_task ''1'' Completed [] [], sample_task ''2'' Completed [] []]"
  have t: "task_of (sample_project ?ts) ''2'' = Some (sample_task ''2'' Completed [] [])"
    and b: "task_of (sample_project ?ts) ''1'' = Some (sample_task ''1'' Completed [] [])"
    by (simp_all add: task_of_def sample_project_def sample_task_def)
  have n: "project (sample_project ?ts) = ''p''" by (simp add: sample_project_def)
  have f: "''1'' \<notin> set (blockedBy (sample_task ''2'' Completed [] []))"
    by (simp add: sample_task_def)
  from setBlocker_links [OF sample_roundtrip getProject_sample_disk n t b, of "''2026-01-02''"] f t
  show ?thesis by blast
qed

text \<open>
  Claim C6, amended.  A second \<open>setBlocker\<close> with the same arguments succeeds and
  changes no task and no other field of the project: it saves the record it loaded again,
  so that \<open>updated\<close> carries the date of the second call, and on the same date the disk
  after the second call is the disk after the first.
\<close>

theorem setBlocker_twice:
  assumes rt: "json_roundtrip J" and load: "getProject J d p = Inr (Some (Project data))"
    and name: "project data = p"
    and t: "task_of data t = Some tk" and b: "task_of data b = Some bk"
  shows "\<exists>d1 data1 d2.
           setBlocker J today d p t b = (Inr (), d1) \<and>
           getProject J d1 p = Inr (Some (Project data1)) \<and>
           setBlocker J today' d1 p t b = (Inr (), d2) \<and>
           getProject J d2 p = Inr (Some (Project (data1\<lparr>updated := today'\<rparr>))) \<and>
           saveProject J today' d1 data1 = (Inr (data1\<lparr>updated := today'\<rparr>), d2) \<and>
           (today' = today \<longrightarrow> d2 = d1)"
proof -
  from t obtain i where i: "find_ref (\<lambda>u. task_id u = t) (tasks data) = Some i"
    by (auto simp: task_of_find_ref)
  from b obtain j where j: "find_ref (\<lambda>u. task_id u = b) (tasks data) = Some j"
    by (auto simp: task_of_find_ref)
  have il: "i < length (tasks data)" and jl: "j < length (tasks data)"
    using find_ref_Some [OF i] find_ref_Some [OF j] by simp_all
  let ?ts = "setBlocker_tasks t b i j (tasks data)"
  let ?data1 = "data\<lparr>tasks := ?ts, updated := today\<rparr>"
  from getProject_Some_dir [OF load] obtain es where es: "tasksDir d = Some es" by blast
  from setBlocker_loaded [OF rt load name i j, of today]
  obtain d1 where d1: "setBlocker J today d p t b = (Inr (), d1)"
    "(Inr ?data1, d1) = saveProject J today d (data\<lparr>tasks := ?ts\<rparr>)"
    "getProject J d1 p = Inr (Some (Project ?data1))" by blast
  have n1: "project ?data1 = p" using name by simp
  have i1: "find_ref (\<lambda>u. task_id u = t) (tasks ?data1) = Some i"
    and j1: "find_ref (\<lambda>u. task_id u = b) (tasks ?data1) = Some j"
    using i j by (simp_all add: find_ref_setBlocker_tasks [OF il jl])
  have same: "?data1\<lparr>tasks := setBlocker_tasks t b i j (tasks ?data1)\<rparr> = ?data1"
    by (simp add: setBlocker_tasks_idem [OF il jl])
  from setBlocker_loaded [OF rt d1(3) n1 i1 j1, of today', unfolded same]
  obtain d2 where d2: "setBlocker J today' d1 p t b = (Inr (), d2)"
    "(Inr (?data1\<lparr>updated := today'\<rparr>), d2) = saveProject J today' d1 ?data1"
    "getProject J d2 p = Inr (Some (Project (?data1\<lparr>updated := today'\<rparr>)))"
    by blast
  have "d2 = d1" if same_day: "today' = today"
  proof -
    let ?f = "projectPath p" and ?c = "stringify J ?data1"
    have e1: "d1 = d\<lparr>tasksDir := Some (write_entry ?f ?c es)\<rparr>"
      using d1(2) name by (simp add: saveProject_ok [OF es])
    then have es1: "tasksDir d1 = Some (write_entry ?f ?c es)" by simp
    have "d2 = d1\<lparr>tasksDir := Some (write_entry ?f ?c (write_entry ?f ?c es))\<rparr>"
      using d2(2) name same_day by (simp add: saveProject_ok [OF es1])
    with e1 show ?thesis by (simp add: write_entry_twice)
  qed
  with d1 d2 show ?thesis by (metis (no_types, lifting))
qed

theorem setBlocker_twice_witness:
  "(\<exists>d1 data1 d2.
      setBlocker sample_platform ''2026-01-02''
         (sample_disk [sample_task ''1'' Pending [] [], sample_task ''2'' Pending [] []]) ''p'' ''2'' ''1''
         = (Inr (), d1) \<and>
      getProject sample_platform d1 ''p'' = Inr (Some (Project data1)) \<and>
      setBlocker sample_platform ''2026-01-03'' d1 ''p'' ''2'' ''1'' = (Inr (), d2) \<and>
      getProject sample_platform d2 ''p'' = Inr (Some (Project (data1\<lparr>updated := ''2026-01-03''\<rparr>)))) \<and>
   (\<exists>d1.
      setBlocker sample_platform ''2026-01-02''
         (sample_disk [sample_task ''1'' Pending [] [], sample_task ''2'' Pending [] []]) ''p'' ''2'' ''1''
         = (Inr (), d1) \<and>
      setBlocker sample_platform ''2026-01-02'' d1 ''p'' ''2'' ''1'' = (Inr (), d1))"
proof -
  let ?ts = "[sample_task ''1'' Pending [] [], sample_task ''2'' Pending [] []]"
  have t: "task_of (sample_project ?ts) ''2'' = Some (sample_task ''2'' Pending [] [])"
    and b: "task_of (sample_project ?ts) ''1'' = Some (sample_task ''1'' Pending [] [])"
    by (simp_all add: task_of_def sample_project_def sample_task_def)
  have n: "project (sample_project ?ts) = ''p''" by (simp add: sample_project_def)
  from setBlocker_twice [OF sample_roundtrip getProject_sample_disk n t b,
      of "''2026-01-02''" "''2026-01-03''"]
  have later: "\<exists>d1 data1 d2.
      setBlocker sample_platform ''2026-01-02'' (sample_disk ?ts) ''p'' ''2'' ''1'' = (Inr (), d1) \<and>
      getProject sample_platform d1 ''p'' = Inr (Some (Project data1)) \<and>
      setBlocker sample_platform ''2026-01-03'' d1 ''p'' ''2'' ''1'' = (Inr (), d2) \<and>
      getProject sample_platform d2 ''p'' = Inr (Some (Project (data1\<lparr>updated := ''2026-01-03''\<rparr>)))"
    by blast
  from setBlocker_twice [OF sample_roundtrip getProject_sample_disk n t b,
      of "''2026-01-02''" "''2026-01-02''"]
  have same: "\<exists>d1.
      setBlocker sample_platform ''2026-01-02'' (sample_disk ?ts) ''p'' ''2'' ''1'' = (Inr (), d1) \<and>
      setBlocker sample_platform ''2026-01-02'' d1 ''p'' ''2'' ''1'' = (Inr (), d1)"
    by auto
  from later same show ?thesis by blast
qed

text \<open>
  The claim as it is written fails when the date changes between the two calls: the
  second call stamps \<open>updated\<close> again.
\<close>

theorem setBlocker_twice_counterexample:
  "snd (setBlocker sample_platform ''2026-01-03''
          (snd (setBlocker sample_platform ''2026-01-02''
                  (sample_disk [sample_task ''1'' Pending [] [], sample_task ''2'' Pending [] []])
                  ''p'' ''2'' ''1''))
          ''p'' ''2'' ''1'')
   \<noteq> snd (setBlocker sample_platform ''2026-01-02''
            (sample_disk [sample_task ''1'' Pending [] [], sample_task ''2'' Pending [] []])
            ''p'' ''2'' ''1'')"
proof -
  let ?ts = "[sample_task ''1'' Pending [] [], sample_task ''2'' Pending [] []]"
  have i: "find_ref (\<lambda>u. task_id u = ''2'') (tasks (sample_project ?ts)) = Some 1"
    and j: "find_ref (\<lambda>u. task_id u = ''1'') (tasks (sample_project ?ts)) = Some 0"
    by (simp_all add: sample_project_def sample_task_def)
  have n: "project (sample_project ?ts) = ''p''" by (simp add: sample_project_def)
  let ?data1 = "(sample_project ?ts)\<lparr>tasks := setBlocker_tasks ''2'' ''1'' 1 0 ?ts, updated := ''2026-01-02''\<rparr>"
  from setBlocker_loaded [OF sample_roundtrip getProject_sample_disk n i j, of "''2026-01-02''"]
  obtain d1 where d1: "setBlocker sample_platform ''2026-01-02'' (sample_disk ?ts) ''p'' ''2'' ''1'' = (Inr (), d1)"
    "getProject sample_platform d1 ''p'' = Inr (Some (Project ?data1))"
    by (auto simp: sample_project_def)
  have n1: "project ?data1 = ''p''" by (simp add: sample_project_def)
  have i1: "find_ref (\<lambda>u. task_id u = ''2'') (tasks ?data1) = Some 1"
    and j1: "find_ref (\<lambda>u. task_id u = ''1'') (tasks ?data1) = Some 0"
    by (simp_all add: sample_task_def setBlocker_tasks_def)
  from setBlocker_loaded [OF sample_roundtrip d1(2) n1 i1 j1, of "''2026-01-03''"]
  obtain d2 where d2: "setBlocker sample_platform ''2026-01-03'' d1 ''p'' ''2'' ''1'' = (Inr (), d2)"
    "getProject sample_platform d2 ''p'' = Inr (Some (Project (?data1\<lparr>updated := ''2026-01-03''\<rparr>)))"
    by (auto simp: setBlocker_tasks_def sample_task_def)
  have "d2 \<noteq> d1"
  proof
    assume "d2 = d1"
    with d1(2) d2(2) have "?data1\<lparr>updated := ''2026-01-03''\<rparr> = ?data1" by simp
    then have "updated (?data1\<lparr>updated := ''2026-01-03''\<rparr>) = updated ?data1" by (rule arg_cong)
    then show False by simp
  qed
  with d1(1) d2(1) show ?thesis by simp
qed

subsection \<open>Completing a task: the cascade\<close>

lemma cascade_eq:
  "cascade x ts =
     (map (\<lambda>t. if unblocked_by x t then t\<lparr>blockedBy := [], status := Pending\<rparr>
                else t\<lparr>blockedBy := filter (\<lambda>b. b \<noteq> x) (blockedBy t)\<rparr>) ts,
      map task_id (filter (unblocked_by x) ts))"
proof (induction ts)
  case Nil
  show ?case by simp
next
  case (Cons t ts)
  have keep: "t\<lparr>blockedBy := filter (\<lambda>b. b \<noteq> x) (blockedBy t)\<rparr> = t" if "x \<notin> set (blockedBy t)"
  proof -
    from that have "filter (\<lambda>b. b \<noteq> x) (blockedBy t) = blockedBy t"
      by (auto simp: filter_id_conv)
    then show ?thesis by simp
  qed
  show ?case
    by (auto simp: Cons.IH unblocked_by_def Let_def keep)
qed

lemma filter_by_index:
  "filter P xs = map (nth xs) (filter (\<lambda>k. P (xs ! k)) [0..<length xs])"
proof -
  have "filter P (map (nth xs) [0..<length xs]) = map (nth xs) (filter (\<lambda>k. P (xs ! k)) [0..<length xs])"
    by (simp add: filter_map comp_def)
  then show ?thesis by (simp add: map_nth)
qed

lemma updateTaskStatus_tasks_length [simp]:
  "length (fst (updateTaskStatus_tasks x st i ts)) = length ts"
  by (simp add: updateTaskStatus_tasks_def cascade_eq Let_def)

lemma updateTaskStatus_tasks_ids [simp]:
  "map task_id (fst (updateTaskStatus_tasks x st i ts)) = map task_id ts"
  by (simp add: updateTaskStatus_tasks_def cascade_eq Let_def map_update map_update_same comp_def if_distrib
      cong: if_cong)

lemma updateTaskStatus_loaded:
  assumes rt: "json_roundtrip J" and load: "getProject J d p = Inr (Some (Project data))"
    and name: "project data = p"
    and i: "find_ref (\<lambda>u. task_id u = x) (tasks data) = Some i"
    and res: "updateTaskStatus_tasks x st i (tasks data) = (ts2, un)"
  shows "\<exists>d'. updateTaskStatus J today d p x st = (Inr (ts2 ! i, un), d') \<and>
              getProject J d' p = Inr (Some (Project (data\<lparr>tasks := ts2, updated := today\<rparr>)))"
  using save_loaded [OF rt load name, of today ts2] load i res
  by (auto simp: updateTaskStatus_def)

lemma complete_nth:
  assumes k: "k < length ts"
  shows "fst (updateTaskStatus_tasks x Completed i ts) ! k =
           (if k = i then (ts ! k)\<lparr>status := Completed,
                                   blockedBy := filter (\<lambda>b. b \<noteq> x) (blockedBy (ts ! k))\<rparr>
            else if unblocked_by x (ts ! k) then (ts ! k)\<lparr>blockedBy := [], status := Pending\<rparr>
            else (ts ! k)\<lparr>blockedBy := filter (\<lambda>b. b \<noteq> x) (blockedBy (ts ! k))\<rparr>)"
  using k by (simp add: updateTaskStatus_tasks_def cascade_eq Let_def nth_list_update unblocked_by_def)

lemma complete_unblocked:
  "snd (updateTaskStatus_tasks x Completed i ts) =
     map (\<lambda>k. task_id (ts ! k)) (filter (\<lambda>k. k \<noteq> i \<and> unblocked_by x (ts ! k)) [0..<length ts])"
proof -
  let ?ts1 = "ts[i := (ts ! i)\<lparr>status := Completed\<rparr>]"
  have "snd (updateTaskStatus_tasks x Completed i ts) = map task_id (filter (unblocked_by x) ?ts1)"
    by (simp add: updateTaskStatus_tasks_def cascade_eq Let_def)
  also have "\<dots> = map (\<lambda>k. task_id (?ts1 ! k)) (filter (\<lambda>k. unblocked_by x (?ts1 ! k)) [0..<length ts])"
    by (subst filter_by_index) (simp add: comp_def)
  also have "filter (\<lambda>k. unblocked_by x (?ts1 ! k)) [0..<length ts]
           = filter (\<lambda>k. k \<noteq> i \<and> unblocked_by x (ts ! k)) [0..<length ts]"
  proof (rule filter_cong [OF refl])
    fix k assume "k \<in> set [0..<length ts]"
    then have "k < length ts" by simp
    then show "unblocked_by x (?ts1 ! k) = (k \<noteq> i \<and> unblocked_by x (ts ! k))"
      by (cases "k = i") (simp_all add: unblocked_by_def)
  qed
  also have "map (\<lambda>k. task_id (?ts1 ! k)) (filter (\<lambda>k. k \<noteq> i \<and> unblocked_by x (ts ! k)) [0..<length ts])
           = map (\<lambda>k. task_id (ts ! k)) (filter (\<lambda>k. k \<noteq> i \<and> unblocked_by x (ts ! k)) [0..<length ts])"
    by (rule map_cong) (auto simp: nth_list_update)
  finally show ?thesis .
qed

text \<open>
  Claim C2.  In a project stored under its own name, \<open>updateTaskStatus\<close> (setStatus) to
  \<open>completed\<close> for an id \<open>x\<close> that resolves to the task at position \<open>i\<close> succeeds, and
  at every position \<open>k\<close> of the project:
  \<^item> \<open>x\<close> is removed from the \<open>blockedBy\<close> of the task, and nothing else of it changes but
    the status;
  \<^item> a task other than \<open>i\<close> becomes \<open>pending\<close> exactly when \<open>x\<close> was one of its blockers,
    no blocker remains and its status was exactly \<open>blocked\<close> (\<open>unblocked_by\<close>); otherwise
    it keeps its status, so a task left without blockers that was not \<open>blocked\<close> keeps its
    status, and a task with a blocker left stays \<open>blocked\<close>;
  \<^item> the task \<open>i\<close> itself has status \<open>completed\<close>: the code assigns the new status
    before the loop, so \<open>blocked\<close> is never the status the loop finds there;
  \<^item> a task other than \<open>i\<close> that does not list \<open>x\<close> is the task it was: the dependents of
    a dependent are not touched (single hop; in the witness below task 3 stays blocked by
    task 2 when task 1 completes);
  \<^item> \<open>unblocked\<close> is the list of the ids of the tasks that became \<open>pending\<close>, in the order
    of the tasks.
\<close>

theorem complete_cascade:
  assumes rt: "json_roundtrip J" and load: "getProject J d p = Inr (Some (Project data))"
    and name: "project data = p"
    and i: "find_ref (\<lambda>u. task_id u = x) (tasks data) = Some i"
  shows "\<exists>d' data' un.
           updateTaskStatus J today d p x Completed = (Inr (tasks data' ! i, un), d') \<and>
           getProject J d' p = Inr (Some (Project data')) \<and>
           length (tasks data') = length (tasks data) \<and>
           (\<forall>k<length (tasks data).
              tasks data' ! k =
                (if k = i
                 then (tasks data ! k)\<lparr>status := Completed,
                        blockedBy := filter (\<lambda>b. b \<noteq> x) (blockedBy (tasks data ! k))\<rparr>
                 else if unblocked_by x (tasks data ! k)
                 then (tasks data ! k)\<lparr>blockedBy := [], status := Pending\<rparr>
                 else (tasks data ! k)\<lparr>blockedBy := filter (\<lambda>b. b \<noteq> x) (blockedBy (tasks data ! k))\<rparr>)) \<and>
           (\<forall>k<length (tasks data).
              k \<noteq> i \<and> x \<notin> set (blockedBy (tasks data ! k)) \<longrightarrow> tasks data' ! k = tasks data ! k) \<and>
           un = map (\<lambda>k. task_id (tasks data ! k))
                  (filter (\<lambda>k. k \<noteq> i \<and> unblocked_by x (tasks data ! k)) [0..<length (tasks data)])"
proof -
  let ?ts = "tasks data"
  obtain ts2 un where res: "updateTaskStatus_tasks x Completed i ?ts = (ts2, un)"
    by (cases "updateTaskStatus_tasks x Completed i ?ts")
  let ?data' = "data\<lparr>tasks := ts2, updated := today\<rparr>"
  from updateTaskStatus_loaded [OF rt load name i res, of today]
  obtain d' where d': "updateTaskStatus J today d p x Completed = (Inr (ts2 ! i, un), d')"
    "getProject J d' p = Inr (Some (Project ?data'))" by blast
  have ts2: "ts2 = fst (updateTaskStatus_tasks x Completed i ?ts)"
    and un: "un = snd (updateTaskStatus_tasks x Completed i ?ts)" by (simp_all add: res)
  have len: "length ts2 = length ?ts" by (simp add: ts2)
  have nth: "ts2 ! k =
       (if k = i
        then (?ts ! k)\<lparr>status := Completed, blockedBy := filter (\<lambda>b. b \<noteq> x) (blockedBy (?ts ! k))\<rparr>
        else if unblocked_by x (?ts ! k) then (?ts ! k)\<lparr>blockedBy := [], status := Pending\<rparr>
        else (?ts ! k)\<lparr>blockedBy := filter (\<lambda>b. b \<noteq> x) (blockedBy (?ts ! k))\<rparr>)"
    if "k < length ?ts" for k
    unfolding ts2 by (rule complete_nth [OF that])
  have keep: "ts2 ! k = ?ts ! k" if "k < length ?ts" "k \<noteq> i" "x \<notin> set (blockedBy (?ts ! k))" for k
  proof -
    from that(3) have "filter (\<lambda>b. b \<noteq> x) (blockedBy (?ts ! k)) = blockedBy (?ts ! k)"
      by (auto simp: filter_id_conv)
    with that nth [OF that(1)] show ?thesis by (simp add: unblocked_by_def)
  qed
  have "un = map (\<lambda>k. task_id (?ts ! k)) (filter (\<lambda>k. k \<noteq> i \<and> unblocked_by x (?ts ! k)) [0..<length ?ts])"
    unfolding un by (rule complete_unblocked)
  with d' len nth keep show ?thesis
    by (intro exI [of _ d'] exI [of _ ?data'] exI [of _ un]) simp
qed

theorem complete_cascade_witness:
  "find_ref (\<lambda>u. task_id u = ''1'')
     (tasks (sample_project [sample_task ''1'' InProgress [] [''2''],
                             sample_task ''2'' Blocked [''1''] [''3''],
                             sample_task ''3'' Blocked [''2''] []])) = Some 0 \<and>
   (\<exists>d' data' un.
      updateTaskStatus sample_platform ''2026-01-02''
        (sample_disk [sample_task ''1'' InProgress [] [''2''],
                      sample_task ''2'' Blocked [''1''] [''3''],
                      sample_task ''3'' Blocked [''2''] []]) ''p'' ''1'' Completed
        = (Inr (tasks data' ! 0, un), d') \<and>
      getProject sample_platform d' ''p'' = Inr (Some (Project data')) \<and>
      tasks data' ! 0 = sample_task ''1'' Completed [] [''2''] \<and>
      tasks data' ! 1 = sample_task ''2'' Pending [] [''3''] \<and>
      tasks data' ! 2 = sample_task ''3'' Blocked [''2''] [] \<and>
      un = [''2''])"
proof -
  let ?ts = "[sample_task ''1'' InProgress [] [''2''], sample_task ''2'' Blocked [''1''] [''3''],
              sample_task ''3'' Blocked [''2''] []]"
  have i: "find_ref (\<lambda>u. task_id u = ''1'') (tasks (sample_project ?ts)) = Some 0"
    by (simp add: sample_project_def sample_task_def)
  have n: "project (sample_project ?ts) = ''p''" by (simp add: sample_project_def)
  have ts: "tasks (sample_project ?ts) = ?ts" by (simp add: sample_project_def)
  have u0: "[0..<3] = [0, 1, 2::nat]" by (simp add: upt_rec)
  from complete_cascade [OF sample_roundtrip getProject_sample_disk n i, of "''2026-01-02''"]
  obtain d' data' un where r:
    "updateTaskStatus sample_platform ''2026-01-02'' (sample_disk ?ts) ''p'' ''1'' Completed
       = (Inr (tasks data' ! 0, un), d')"
    "getProject sample_platform d' ''p'' = Inr (Some (Project data'))"
    "\<forall>k<length ?ts. tasks data' ! k =
        (if k = 0
         then (?ts ! k)\<lparr>status := Completed, blockedBy := filter (\<lambda>b. b \<noteq> ''1'') (blockedBy (?ts ! k))\<rparr>
         else if unblocked_by ''1'' (?ts ! k) then (?ts ! k)\<lparr>blockedBy := [], status := Pending\<rparr>
         else (?ts ! k)\<lparr>blockedBy := filter (\<lambda>b. b \<noteq> ''1'') (blockedBy (?ts ! k))\<rparr>)"
    "un = map (\<lambda>k. task_id (?ts ! k))
            (filter (\<lambda>k. k \<noteq> 0 \<and> unblocked_by ''1'' (?ts ! k)) [0..<length ?ts])"
    unfolding ts by blast
  from r(3) have "tasks data' ! 0 = sample_task ''1'' Completed [] [''2'']"
    "tasks data' ! 1 = sample_task ''2'' Pending [] [''3'']"
    "tasks data' ! 2 = sample_task ''3'' Blocked [''2''] []"
    by (simp_all add: sample_task_def unblocked_by_def)
  moreover from r(4) have "un = [''2'']"
    by (simp add: u0 sample_task_def unblocked_by_def)
  ultimately show ?thesis using i r(1,2) by blast
qed

text \<open>
  Claim C9.  In a project stored under its own name and with distinct task ids, for a
  task \<open>t\<close> that does not yet block itself: \<open>setBlocker\<close> (linkBlocker) of \<open>t\<close> with \<open>t\<close>
  succeeds, with no check against the self-reference; it appends \<open>t\<close> to the \<open>blockedBy\<close>
  of the task, \<open>t\<close> is in its \<open>blocks\<close>, and its status is \<open>blocked\<close>.  A following
  \<open>updateTaskStatus\<close> (setStatus) of \<open>t\<close> to \<open>completed\<close> succeeds, removes \<open>t\<close> from
  its own \<open>blockedBy\<close>, leaves the status \<open>completed\<close> and does not list \<open>t\<close> among the
  unblocked ids.
\<close>

theorem self_block:
  assumes rt: "json_roundtrip J" and load: "getProject J d p = Inr (Some (Project data))"
    and name: "project data = p" and dist: "distinct (map task_id (tasks data))"
    and t: "task_of data t = Some tk" and new: "t \<notin> set (blockedBy tk)"
  shows "\<exists>d1 data1 tk1.
           setBlocker J today d p t t = (Inr (), d1) \<and>
           getProject J d1 p = Inr (Some (Project data1)) \<and>
           task_of data1 t = Some tk1 \<and>
           blockedBy tk1 = blockedBy tk @ [t] \<and> t \<in> set (blocks tk1) \<and> status tk1 = Blocked \<and>
           (\<exists>d2 data2 tk2 un.
              updateTaskStatus J today' d1 p t Completed = (Inr (tk2, un), d2) \<and>
              getProject J d2 p = Inr (Some (Project data2)) \<and>
              task_of data2 t = Some tk2 \<and>
              t \<notin> set (blockedBy tk2) \<and> status tk2 = Completed \<and> t \<notin> set un)"
proof -
  let ?ts = "tasks data"
  from t obtain i where i: "find_ref (\<lambda>u. task_id u = t) ?ts = Some i"
    and tk: "tk = ?ts ! i" by (auto simp: task_of_find_ref)
  have il: "i < length ?ts" and ti: "task_id (?ts ! i) = t"
    using find_ref_Some [OF i] by simp_all
  let ?ts1 = "setBlocker_tasks t t i i ?ts"
  let ?data1 = "data\<lparr>tasks := ?ts1, updated := today\<rparr>"
  from setBlocker_loaded [OF rt load name i i, of today]
  obtain d1 where d1: "setBlocker J today d p t t = (Inr (), d1)"
    "getProject J d1 p = Inr (Some (Project ?data1))" by blast
  have i1: "find_ref (\<lambda>u. task_id u = t) (tasks ?data1) = Some i"
    using i by (simp add: find_ref_setBlocker_tasks [OF il il])
  then have t1: "task_of ?data1 t = Some (?ts1 ! i)" by (simp add: task_of_find_ref)
  have b1: "blockedBy (?ts1 ! i) = blockedBy tk @ [t]" and s1: "status (?ts1 ! i) = Blocked"
    using new il tk by (simp_all add: setBlocker_tasks_def Let_def)
  have l1: "t \<in> set (blocks (?ts1 ! i))"
    by (rule setBlocker_tasks_links(2) [OF il il])
  have n1: "project ?data1 = p" using name by simp
  obtain ts2 un where res: "updateTaskStatus_tasks t Completed i ?ts1 = (ts2, un)"
    by (cases "updateTaskStatus_tasks t Completed i ?ts1")
  let ?data2 = "?data1\<lparr>tasks := ts2, updated := today'\<rparr>"
  from updateTaskStatus_loaded [OF rt d1(2) n1 i1, of Completed ts2 un today'] res
  obtain d2 where d2: "updateTaskStatus J today' d1 p t Completed = (Inr (ts2 ! i, un), d2)"
    "getProject J d2 p = Inr (Some (Project ?data2))" by auto
  have ts2: "ts2 = fst (updateTaskStatus_tasks t Completed i ?ts1)"
    and un: "un = snd (updateTaskStatus_tasks t Completed i ?ts1)" by (simp_all add: res)
  have "map task_id ts2 = map task_id ?ts" by (simp add: ts2 il)
  then have "find_ref (\<lambda>u. task_id u = t) ts2 = Some i"
    using i find_ref_cong_ids [of task_id ts2 ?ts t] by simp
  then have t2: "task_of ?data2 t = Some (ts2 ! i)" by (simp add: task_of_find_ref)
  have at_i: "ts2 ! i = (?ts1 ! i)\<lparr>status := Completed,
                 blockedBy := filter (\<lambda>b. b \<noteq> t) (blockedBy (?ts1 ! i))\<rparr>"
    unfolding ts2 using complete_nth [of i ?ts1 t i] il by simp
  then have b2: "t \<notin> set (blockedBy (ts2 ! i))" and s2: "status (ts2 ! i) = Completed"
    by simp_all
  have "t \<notin> set un"
  proof
    assume "t \<in> set un"
    then obtain k where k: "k < length ?ts" "k \<noteq> i" "task_id (?ts1 ! k) = t"
      unfolding un complete_unblocked by auto
    have "map task_id ?ts1 ! k = map task_id ?ts ! k" by (simp add: il)
    with k(1,3) have "task_id (?ts ! k) = t" by simp
    with ti k(1,2) il dist show False
      by (metis distinct_conv_nth length_map nth_map)
  qed
  with d1 t1 b1 l1 s1 d2 t2 b2 s2 show ?thesis by blast
qed

theorem self_block_witness:
  "distinct (map task_id (tasks (sample_project [sample_task ''1'' Pending [] []]))) \<and>
   task_of (sample_project [sample_task ''1'' Pending [] []]) ''1'' = Some (sample_task ''1'' Pending [] []) \<and>
   ''1'' \<notin> set (blockedBy (sample_task ''1'' Pending [] [])) \<and>
   (\<exists>d1 data1 tk1.
      setBlocker sample_platform ''2026-01-02'' (sample_disk [sample_task ''1'' Pending [] []]) ''p'' ''1'' ''1''
        = (Inr (), d1) \<and>
      getProject sample_platform d1 ''p'' = Inr (Some (Project data1)) \<and>
      task_of data1 ''1'' = Some tk1 \<and>
      blockedBy tk1 = [''1''] \<and> ''1'' \<in> set (blocks tk1) \<and> status tk1 = Blocked \<and>
      (\<exists>d2 data2 tk2 un.
         updateTaskStatus sample_platform ''2026-01-02'' d1 ''p'' ''1'' Completed = (Inr (tk2, un), d2) \<and>
         getProject sample_platform d2 ''p'' = Inr (Some (Project data2)) \<and>
         task_of data2 ''1'' = Some tk2 \<and>
         ''1'' \<notin> set (blockedBy tk2) \<and> status tk2 = Completed \<and> ''1'' \<notin> set un))"
proof -
  let ?ts = "[sample_task ''1'' Pending [] []]"
  have dist: "distinct (map task_id (tasks (sample_project ?ts)))"
    by (simp add: sample_project_def)
  have t: "task_of (sample_project ?ts) ''1'' = Some (sample_task ''1'' Pending [] [])"
    by (simp add: task_of_def sample_project_def sample_task_def)
  have n: "project (sample_project ?ts) = ''p''" by (simp add: sample_project_def)
  have new: "''1'' \<notin> set (blockedBy (sample_task ''1'' Pending [] []))"
    by (simp add: sample_task_def)
  have e: "blockedBy (sample_task ''1'' Pending [] []) @ [''1''] = [''1'']"
    by (simp add: sample_task_def)
  from self_block [OF sample_roundtrip getProject_sample_disk n dist t new,
      of "''2026-01-02''" "''2026-01-02''"] dist t new
  show ?thesis unfolding e by blast
qed

subsection \<open>Numbers, and the ids that \<open>addTask\<close> assigns\<close>

lemma plain_digitI: "k < 10 \<Longrightarrow> plain_digit (digit_char k)"
  unfolding plain_digit_def by blast

lemma below_10: "k < 10 \<Longrightarrow> k \<in> {0, 1, 2, 3, 4, 5, 6, 7, 8, 9 :: nat}"
  by auto

lemma digit_char:
  assumes "k < 10"
  shows "digit_value (digit_char k) = k" and "\<not> is_space (digit_char k)"
    and "digit_char k \<noteq> CHR ''-''" and "digit_char k \<noteq> CHR ''+''"
    and "digit_char k \<noteq> CHR ''x''" and "digit_char k \<noteq> CHR ''X''"
  using below_10 [OF assms] by (auto simp: digit_char_def digit_value_def is_space_def)

lemma plain_digitD:
  assumes "plain_digit c"
  shows "digit_value c < 10" and "\<not> is_space c" and "c \<noteq> CHR ''-''" and "c \<noteq> CHR ''+''"
    and "c \<noteq> CHR ''x''" and "c \<noteq> CHR ''X''"
proof -
  from assms obtain k :: nat where k: "k < 10" "c = digit_char k"
    unfolding plain_digit_def by blast
  show "digit_value c < 10" unfolding k(2) digit_char(1) [OF k(1)] by (rule k(1))
  show "\<not> is_space c" "c \<noteq> CHR ''-''" "c \<noteq> CHR ''+''" "c \<noteq> CHR ''x''" "c \<noteq> CHR ''X''"
    unfolding k(2) by (rule digit_char [OF k(1)])+
qed

lemma decimal_digits: "\<forall>c\<in>set (decimal n). plain_digit c"
proof (induction n rule: decimal.induct)
  case (1 n)
  show ?case
  proof (cases "n < 10")
    case True
    then show ?thesis by (subst decimal.simps) (simp add: plain_digitI)
  next
    case False
    have "n mod 10 < 10" by simp
    from plain_digitI [OF this] False 1 show ?thesis by (subst decimal.simps) simp
  qed
qed

lemma decimal_nonempty: "decimal n \<noteq> []"
  by (subst decimal.simps) simp

lemma radix_value_snoc: "radix_value R (Z @ [c]) = radix_value R Z * R + digit_value c"
  by (simp add: radix_value_def)

lemma radix_value_decimal: "radix_value 10 (decimal n) = n"
proof (induction n rule: decimal.induct)
  case (1 n)
  show ?case
  proof (cases "n < 10")
    case True
    then show ?thesis
      by (subst decimal.simps) (simp add: radix_value_def digit_char(1))
  next
    case False
    have "n mod 10 < 10" by simp
    with False 1 show ?thesis
      by (subst decimal.simps) (simp add: radix_value_snoc digit_char(1))
  qed
qed

lemma parseInt_decimal: "parseInt (decimal n) = round_double (int n)"
proof -
  obtain c cs where s: "decimal n = c # cs" using decimal_nonempty [of n] by (cases "decimal n") auto
  have all: "\<forall>c\<in>set (c # cs). plain_digit c"
    using decimal_digits [of n] s by simp
  then have c: "\<not> is_space c" "c \<noteq> CHR ''-''" "c \<noteq> CHR ''+''"
    using plain_digitD by auto
  have nohex: "take 2 (c # cs) \<noteq> [CHR ''0'', y]" if "y = CHR ''x'' \<or> y = CHR ''X''" for y
  proof
    assume "take 2 (c # cs) = [CHR ''0'', y]"
    then have "y \<in> set (c # cs)" by (cases cs) auto
    with all have "plain_digit y" by blast
    with that plain_digitD(5,6) [of y] show False by blast
  qed
  have neg: "(take 1 (c # cs) = ''-'') = False"
    and sign: "(take 1 (c # cs) = ''+'') = False"
    using c(2,3) by simp_all
  have hex: "(take 2 (c # cs) = ''0x'' \<or> take 2 (c # cs) = ''0X'') = False"
    using nohex [of "CHR ''x''"] nohex [of "CHR ''X''"] by blast
  have tw: "takeWhile (\<lambda>c. digit_value c < 10) (c # cs) = c # cs"
    using all plain_digitD(1) by (intro takeWhile_eq_all_conv [THEN iffD2]) blast
  have dw: "dropWhile is_space (c # cs) = c # cs" using c(1) by simp
  have "parseInt (c # cs) = round_double (int (radix_value 10 (c # cs)))"
    by (simp only: parseInt_def dw Let_def neg sign simp_thms hex if_False tw list.distinct)
  then show ?thesis using radix_value_decimal [of n] s by simp
qed

lemma bit_length_le: "n < 2 ^ k \<Longrightarrow> bit_length n \<le> k"
proof (induction k arbitrary: n)
  case 0
  then show ?case by (simp add: bit_length.simps)
next
  case (Suc k)
  from Suc.prems have "n div 2 < 2 ^ k" by simp
  from Suc.IH [OF this] show ?case by (subst bit_length.simps) simp
qed

lemma round_double_small: "\<bar>n\<bar> < 2 ^ 53 \<Longrightarrow> round_double n = Fin n"
proof -
  assume "\<bar>n\<bar> < 2 ^ 53"
  then have "nat \<bar>n\<bar> < 2 ^ 53" by simp
  from bit_length_le [OF this] show ?thesis by (simp add: round_double_def)
qed

lemma decimal_inj: "decimal m = decimal n \<Longrightarrow> m = n"
  by (metis radix_value_decimal)

lemma decimal_1: "decimal (Suc 0) = ''1''"
  by (simp add: decimal.simps digit_char_def)

lemma maxId_of_Nil [simp]: "maxId_of [] = Fin 0"
  by (simp add: maxId_of_def)

lemma maxId_of_snoc:
  "maxId_of (ts @ [t]) = Math_max (maxId_of ts) (or0 (parseInt (task_id t)))"
  by (simp add: maxId_of_def)

lemma plus1_small: "0 \<le> n \<Longrightarrow> n + 1 < 2 ^ 53 \<Longrightarrow> plus1 (Fin n) = Fin (n + 1)"
  by (simp add: plus1_def round_double_small)

lemma String_number_small:
  "0 \<le> n \<Longrightarrow> n \<le> 2 ^ 53 \<Longrightarrow> String_number J (Fin n) = decimal (nat n)"
  by (simp add: String_number_def)

lemma numbered_maxId:
  "numbered ts \<Longrightarrow> length ts < 2 ^ 53 \<Longrightarrow> maxId_of ts = Fin (int (length ts))"
proof (induction ts rule: rev_induct)
  case Nil
  show ?case by simp
next
  case (snoc t ts)
  from snoc.prems(1) have nb: "numbered ts" and t: "task_id t = decimal (Suc (length ts))"
    by (simp_all add: numbered_def)
  from snoc.prems(2) have len: "length ts < 2 ^ 53" and len': "int (Suc (length ts)) < 2 ^ 53"
    by simp_all
  have "parseInt (task_id t) = Fin (int (Suc (length ts)))"
    unfolding t parseInt_decimal using len' by (intro round_double_small) simp
  with snoc.IH [OF nb len] show ?case
    by (simp add: maxId_of_snoc or0_def)
qed

lemma numbered_snoc:
  "numbered ts \<Longrightarrow> task_id t = decimal (Suc (length ts)) \<Longrightarrow> numbered (ts @ [t])"
  by (simp add: numbered_def)

lemma numbered_distinct: "numbered ts \<Longrightarrow> distinct (map task_id ts)"
  by (auto simp: numbered_def distinct_map inj_on_def dest: decimal_inj)

lemma addTask_loaded:
  assumes rt: "json_roundtrip J" and load: "getProject J d p = Inr (Some (Project data))"
    and name: "project data = p" and room: "length (tasks data) < 2 ^ 32 - 1"
  shows "\<exists>d'. addTask J today d p subj =
               (Inr \<lparr>task_id = String_number J (plus1 (maxId_of (tasks data))), subject = subj,
                     status = Pending, blockedBy = [], blocks = [], notes = []\<rparr>, d') \<and>
              getProject J d' p =
                Inr (Some (Project (data\<lparr>tasks := tasks data @
                     [\<lparr>task_id = String_number J (plus1 (maxId_of (tasks data))), subject = subj,
                       status = Pending, blockedBy = [], blocks = [], notes = []\<rparr>],
                     updated := today\<rparr>))) \<and>
              tasksDir d' \<noteq> None \<and> plansDir d' = plansDir d"
proof -
  let ?task = "\<lparr>task_id = String_number J (plus1 (maxId_of (tasks data))), subject = subj,
                 status = Pending, blockedBy = [], blocks = [], notes = []\<rparr>"
  from save_loaded [OF rt load name, of today "tasks data @ [?task]"]
  obtain d' where d': "saveProject J today d (data\<lparr>tasks := tasks data @ [?task]\<rparr>) =
        (Inr (data\<lparr>tasks := tasks data @ [?task], updated := today\<rparr>), d')"
      "getProject J d' p = Inr (Some (Project (data\<lparr>tasks := tasks data @ [?task], updated := today\<rparr>)))"
      "plansDir d' = plansDir d" by blast
  from getProject_Some_dir [OF d'(2)] have "tasksDir d' \<noteq> None" by auto
  moreover have "addTask J today d p subj = (Inr ?task, d')"
    using load room d'(1) by (simp add: addTask_def push_def Let_def)
  ultimately show ?thesis using d'(2,3) by blast
qed

lemma addTask_full:
  assumes load: "getProject J d p = Inr (Some (Project data))" and full: "2 ^ 32 - 1 \<le> length (tasks data)"
  shows "addTask J today d p subj = (Inl RangeError, d)"
  using load full by (simp add: addTask_def push_def Let_def)

lemma addTask_result:
  assumes "addTask J today d p subj = (Inr task, d')"
  shows "task = \<lparr>task_id = String_number J (plus1 (maxId_of (tasks_of J d p))), subject = subj,
                  status = Pending, blockedBy = [], blocks = [], notes = []\<rparr>"
  using assms getProject_total [of J d p]
  by (auto simp: addTask_def tasks_of_def push_def Let_def createProject_def saveProject_def
      split: sum.splits option.splits loaded.splits prod.splits if_splits)

lemma getProject_missing_dir: "tasksDir d = None \<Longrightarrow> getProject J d p = Inr None"
  by (simp add: getProject_def try_catch_def readFileSync_def)

lemma createProject_no_dir:
  "tasksDir d = None \<Longrightarrow> createProject J today d p = (Inl IOError, d)"
  by (simp add: createProject_def saveProject_def writeFileSync_def Let_def)

lemma createProject_no_plans:
  assumes rt: "json_roundtrip J" and es: "tasksDir d = Some es" and ps: "plansDir d = None"
  shows "\<exists>d1. createProject J today d p = (Inl IOError, d1) \<and>
               getProject J d1 p = Inr (Some (Project (\<lparr>project = p, project_status = Active,
                                                created = today, updated = today, tasks = []\<rparr>)))"
  using getProject_after_write [OF rt, where d = d and p = p and es = es
      and data = "\<lparr>project = p, project_status = Active, created = today, updated = today, tasks = []\<rparr>"]
    ps
  by (simp add: createProject_def saveProject_ok [OF es] writeFileSync_def)

lemma getProject_plansDir [simp]: "getProject J (d\<lparr>plansDir := x\<rparr>) p = getProject J d p"
  by (simp add: getProject_def)

lemma createProject_ok:
  assumes rt: "json_roundtrip J" and es: "tasksDir d = Some es" and ps: "plansDir d = Some fs"
  shows "\<exists>d1. createProject J today d p =
                 (Inr \<lparr>project = p, project_status = Active, created = today, updated = today,
                       tasks = []\<rparr>, d1) \<and>
               getProject J d1 p = Inr (Some (Project (\<lparr>project = p, project_status = Active,
                                                created = today, updated = today, tasks = []\<rparr>))) \<and>
               plansDir d1 \<noteq> None"
  using getProject_after_write [OF rt, where p = p and es = es and d = d
      and data = "\<lparr>project = p, project_status = Active, created = today, updated = today, tasks = []\<rparr>"]
    ps
  by (simp add: createProject_def saveProject_ok [OF es] writeFileSync_def)

lemma addTask_absent:
  assumes rt: "json_roundtrip J" and load: "getProject J d p = Inr None"
  shows "(\<exists>e d1. addTask J today d p subj = (Inl e, d1) \<and> fresh_project J d1 p) \<or>
         (\<exists>d' data'. addTask J today d p subj =
                (Inr \<lparr>task_id = ''1'', subject = subj, status = Pending, blockedBy = [],
                      blocks = [], notes = []\<rparr>, d') \<and>
              getProject J d' p = Inr (Some (Project data')) \<and> project data' = p \<and>
              tasks data' = [\<lparr>task_id = ''1'', subject = subj, status = Pending, blockedBy = [],
                               blocks = [], notes = []\<rparr>])"
proof (cases "tasksDir d")
  case None
  then have "addTask J today d p subj = (Inl IOError, d)"
    using load by (simp add: addTask_def createProject_no_dir)
  moreover have "fresh_project J d p" using load by (simp add: fresh_project_def)
  ultimately show ?thesis by blast
next
  case (Some es)
  show ?thesis
  proof (cases "plansDir d")
    case None
    from createProject_no_plans [OF rt Some None, of today p]
    obtain d1 where d1: "createProject J today d p = (Inl IOError, d1)"
      "getProject J d1 p = Inr (Some (Project (\<lparr>project = p, project_status = Active,
                                        created = today, updated = today, tasks = []\<rparr>)))" by blast
    have "addTask J today d p subj = (Inl IOError, d1)"
      using load d1(1) by (simp add: addTask_def)
    moreover have "fresh_project J d1 p" using d1(2) by (simp add: fresh_project_def)
    ultimately show ?thesis by blast
  next
    case (Some fs)
    let ?data = "\<lparr>project = p, project_status = Active, created = today, updated = today,
                    tasks = []\<rparr>"
    let ?task = "\<lparr>task_id = ''1'', subject = subj, status = Pending, blockedBy = [],
                    blocks = [], notes = []\<rparr>"
    from createProject_ok [OF rt \<open>tasksDir d = Some es\<close> Some, of today p]
    obtain d1 where d1: "createProject J today d p = (Inr ?data, d1)"
      "getProject J d1 p = Inr (Some (Project ?data))" by blast
    have n: "project ?data = p" by simp
    from save_loaded [OF rt d1(2) n, of today "[?task]"]
    obtain d' where d': "saveProject J today d1 (?data\<lparr>tasks := [?task]\<rparr>) =
          (Inr (?data\<lparr>tasks := [?task], updated := today\<rparr>), d')"
       "getProject J d' p = Inr (Some (Project (?data\<lparr>tasks := [?task], updated := today\<rparr>)))" by blast
    have one: "String_number J (plus1 (Fin 0)) = ''1''"
      by (simp add: plus1_small String_number_small decimal_1)
    have "addTask J today d p subj = (Inr ?task, d')"
      using load d1(1) d'(1) by (simp add: addTask_def push_def Let_def one)
    with d'(2) show ?thesis by auto
  qed
qed

lemma project_numbered_update:
  assumes rt: "json_roundtrip J" and load: "getProject J d p = Inr (Some (Project data))"
    and pn: "project_numbered J d p n" and ids: "map task_id ts = map task_id (tasks data)"
    and save: "saveProject J today d (data\<lparr>tasks := ts\<rparr>) = (r, d')"
  shows "project_numbered J d' p n"
proof -
  from pn load have name: "project data = p" and nb: "numbered (tasks data)"
    and len: "length (tasks data) = n" by (simp_all add: project_numbered_def)
  from ids have "length ts = length (tasks data)" by (metis length_map)
  with ids nb have "numbered ts" by (simp add: numbered_def)
  with save_loaded [OF rt load name, of today ts] save name len \<open>length ts = length (tasks data)\<close>
  show ?thesis by (auto simp: project_numbered_def)
qed

lemma setBlocker_numbered:
  assumes rt: "json_roundtrip J" and pn: "project_numbered J d p n"
  shows "project_numbered J (snd (setBlocker J today d p t b)) p n"
proof (cases "getProject J d p")
  case (Inl e) with pn show ?thesis by (simp add: project_numbered_def)
next
  case (Inr loaded)
  show ?thesis
  proof (cases loaded)
    case None
    with Inr pn show ?thesis by (simp add: setBlocker_def)
  next
    case (Some v)
    with Inr pn obtain data where load: "getProject J d p = Inr (Some (Project data))"
      by (cases v) (auto simp: project_numbered_def)
    show ?thesis
    proof (cases "find_ref (\<lambda>u. task_id u = t) (tasks data)")
      case None
      with load pn show ?thesis by (simp add: setBlocker_def)
    next
      case i: (Some i)
      show ?thesis
      proof (cases "find_ref (\<lambda>u. task_id u = b) (tasks data)")
        case None
        with load i pn show ?thesis by (simp add: setBlocker_def)
      next
        case j: (Some j)
        have il: "i < length (tasks data)" and jl: "j < length (tasks data)"
          using find_ref_Some [OF i] find_ref_Some [OF j] by simp_all
        obtain r d' where s: "saveProject J today d
             (data\<lparr>tasks := setBlocker_tasks t b i j (tasks data)\<rparr>) = (r, d')"
          by (cases "saveProject J today d (data\<lparr>tasks := setBlocker_tasks t b i j (tasks data)\<rparr>)")
        have "snd (setBlocker J today d p t b) = d'"
          using load i j s by (cases r) (simp_all add: setBlocker_def)
        with project_numbered_update [OF rt load pn _ s] il jl show ?thesis by simp
      qed
    qed
  qed
qed

lemma updateTaskStatus_numbered:
  assumes rt: "json_roundtrip J" and pn: "project_numbered J d p n"
  shows "project_numbered J (snd (updateTaskStatus J today d p t st)) p n"
proof (cases "getProject J d p")
  case (Inl e) with pn show ?thesis by (simp add: project_numbered_def)
next
  case (Inr loaded)
  show ?thesis
  proof (cases loaded)
    case None
    with Inr pn show ?thesis by (simp add: updateTaskStatus_def)
  next
    case (Some v)
    with Inr pn obtain data where load: "getProject J d p = Inr (Some (Project data))"
      by (cases v) (auto simp: project_numbered_def)
    show ?thesis
    proof (cases "find_ref (\<lambda>u. task_id u = t) (tasks data)")
      case None
      with load pn show ?thesis by (simp add: updateTaskStatus_def)
    next
      case i: (Some i)
      obtain ts2 un where res: "updateTaskStatus_tasks t st i (tasks data) = (ts2, un)"
        by (cases "updateTaskStatus_tasks t st i (tasks data)")
      obtain r d' where s: "saveProject J today d (data\<lparr>tasks := ts2\<rparr>) = (r, d')"
        by (cases "saveProject J today d (data\<lparr>tasks := ts2\<rparr>)")
      have ids: "map task_id ts2 = map task_id (tasks data)"
        using updateTaskStatus_tasks_ids [of t st i "tasks data"] res by simp
      have "snd (updateTaskStatus J today d p t st) = d'"
        using load i res s by (cases r) (simp_all add: updateTaskStatus_def)
      with project_numbered_update [OF rt load pn ids s] show ?thesis by simp
    qed
  qed
qed

lemma updateTaskNotes_numbered:
  assumes rt: "json_roundtrip J" and pn: "project_numbered J d p n"
  shows "project_numbered J (snd (updateTaskNotes J today d p t ns)) p n"
proof (cases "getProject J d p")
  case (Inl e) with pn show ?thesis by (simp add: project_numbered_def)
next
  case (Inr loaded)
  show ?thesis
  proof (cases loaded)
    case None
    with Inr pn show ?thesis by (simp add: updateTaskNotes_def)
  next
    case (Some v)
    with Inr pn obtain data where load: "getProject J d p = Inr (Some (Project data))"
      by (cases v) (auto simp: project_numbered_def)
    show ?thesis
    proof (cases "find_ref (\<lambda>u. task_id u = t) (tasks data)")
      case None
      with load pn show ?thesis by (simp add: updateTaskNotes_def)
    next
      case i: (Some i)
      let ?ts = "(tasks data)[i := (tasks data ! i)\<lparr>notes := ns\<rparr>]"
      obtain r d' where s: "saveProject J today d (data\<lparr>tasks := ?ts\<rparr>) = (r, d')"
        by (cases "saveProject J today d (data\<lparr>tasks := ?ts\<rparr>)")
      have ids: "map task_id ?ts = map task_id (tasks data)"
        by (simp add: map_update map_update_same)
      have "snd (updateTaskNotes J today d p t ns) = d'"
        using load i s by (cases r) (simp_all add: updateTaskNotes_def)
      with project_numbered_update [OF rt load pn ids s] show ?thesis by simp
    qed
  qed
qed

lemma tasks_of_loaded: "getProject J d p = Inr (Some (Project data)) \<Longrightarrow> tasks_of J d p = tasks data"
  by (simp add: tasks_of_def)

lemma fresh_project_numbered: "fresh_project J d p \<Longrightarrow> project_numbered J d p 0"
  by (auto simp: fresh_project_def project_numbered_def numbered_def split: sum.splits option.splits loaded.splits)

lemma addTask_numbered:
  assumes rt: "json_roundtrip J" and pn: "project_numbered J d p n" and n: "n \<le> 2 ^ 32 - 1"
  shows "case addTask J today d p subj of
           (Inl e, d') \<Rightarrow> project_numbered J d' p n
         | (Inr task, d') \<Rightarrow>
             task = \<lparr>task_id = decimal (Suc n), subject = subj, status = Pending, blockedBy = [],
                     blocks = [], notes = []\<rparr> \<and>
             project_numbered J d' p (Suc n) \<and> n < 2 ^ 32 - 1 \<and>
             tasks_of J d' p = tasks_of J d p @ [task]"
proof (cases "getProject J d p")
  case (Inl e) with pn show ?thesis by (simp add: project_numbered_def)
next
  case (Inr loaded)
  show ?thesis
  proof (cases loaded)
    case None
    with Inr have load: "getProject J d p = Inr None" by simp
    with pn have n0: "n = 0" by (simp add: project_numbered_def)
    from addTask_absent [OF rt load, of today subj] show ?thesis
    proof (elim disjE exE conjE)
      fix e d1 assume "addTask J today d p subj = (Inl e, d1)" "fresh_project J d1 p"
      then show ?thesis using n0 by (simp add: fresh_project_numbered)
    next
      fix d' data'
      assume a: "addTask J today d p subj =
          (Inr \<lparr>task_id = ''1'', subject = subj, status = Pending, blockedBy = [], blocks = [],
                notes = []\<rparr>, d')"
        and l: "getProject J d' p = Inr (Some (Project data'))" and nm: "project data' = p"
        and ts: "tasks data' = [\<lparr>task_id = ''1'', subject = subj, status = Pending,
                  blockedBy = [], blocks = [], notes = []\<rparr>]"
      have "project_numbered J d' p (Suc 0)"
        using l nm ts by (simp add: project_numbered_def numbered_def decimal_1)
      then show ?thesis
        using a n0 l ts load by (simp add: decimal_1 tasks_of_def)
    qed
  next
    case (Some v)
    with Inr pn obtain data where load: "getProject J d p = Inr (Some (Project data))"
      by (cases v) (auto simp: project_numbered_def)
    with pn have name: "project data = p" and nb: "numbered (tasks data)"
      and len: "length (tasks data) = n" by (simp_all add: project_numbered_def)
    show ?thesis
    proof (cases "n < 2 ^ 32 - 1")
      case False
      with len have "2 ^ 32 - 1 \<le> length (tasks data)" by simp
      from addTask_full [OF load this] pn show ?thesis by simp
    next
      case True
      then have small: "length (tasks data) < 2 ^ 53" using len by simp
      have "int n + 1 < 2 ^ 53" using True by simp
      then have id: "String_number J (plus1 (maxId_of (tasks data))) = decimal (Suc n)"
        using numbered_maxId [OF nb small] len
        by (simp add: plus1_small String_number_small nat_add_distrib)
      let ?task = "\<lparr>task_id = decimal (Suc n), subject = subj, status = Pending, blockedBy = [],
                     blocks = [], notes = []\<rparr>"
      from addTask_loaded [OF rt load name, of today subj] True len id
      obtain d' where d': "addTask J today d p subj = (Inr ?task, d')"
        "getProject J d' p = Inr (Some (Project (data\<lparr>tasks := tasks data @ [?task], updated := today\<rparr>)))"
        by auto
      have "numbered (tasks data @ [?task])" using nb len by (simp add: numbered_snoc)
      then have "project_numbered J d' p (Suc n)"
        using d'(2) name len by (simp add: project_numbered_def)
      then show ?thesis using d' True load by (simp add: tasks_of_def)
    qed
  qed
qed

lemma run_numbered:
  assumes rt: "json_roundtrip J"
  shows "project_numbered J d p n \<Longrightarrow> n \<le> 2 ^ 32 - 1 \<Longrightarrow> run J p cs d = (ids, d') \<Longrightarrow>
         ids = map (\<lambda>k. decimal (Suc k)) [n..<n + length ids] \<and>
         project_numbered J d' p (n + length ids) \<and> n + length ids \<le> 2 ^ 32 - 1"
proof (induction cs arbitrary: d n ids)
  case Nil
  then show ?case by simp
next
  case (Cons c cs)
  obtain today cl where c: "c = (today, cl)" by (cases c)
  show ?case
  proof (cases cl)
    case (AddTask subj)
    note add = addTask_numbered [OF rt Cons.prems(1,2), where today = today and subj = subj]
    obtain r d1 where a: "addTask J today d p subj = (r, d1)" by (cases "addTask J today d p subj")
    show ?thesis
    proof (cases r)
      case (Inl e)
      with a add have pn1: "project_numbered J d1 p n" by simp
      from Cons.prems(3) a Inl c AddTask have "run J p cs d1 = (ids, d')" by simp
      from Cons.IH [OF pn1 Cons.prems(2) this] show ?thesis .
    next
      case (Inr task)
      with a add have t: "task_id task = decimal (Suc n)"
        and pn1: "project_numbered J d1 p (Suc n)" and n1: "Suc n \<le> 2 ^ 32 - 1" by auto
      obtain ids1 where r1: "run J p cs d1 = (ids1, d')" and ids: "ids = task_id task # ids1"
        using Cons.prems(3) a Inr c AddTask by (auto split: prod.splits)
      from Cons.IH [OF pn1 n1 r1]
      have i1: "ids1 = map (\<lambda>k. decimal (Suc k)) [Suc n..<Suc n + length ids1]"
        and p1: "project_numbered J d' p (Suc n + length ids1)"
        and b1: "Suc n + length ids1 \<le> 2 ^ 32 - 1"
        by blast+
      have e: "[n..<n + length ids] = n # [Suc n..<Suc n + length ids1]"
        using ids by (simp add: upt_conv_Cons del: upt_Suc)
      have "ids = map (\<lambda>k. decimal (Suc k)) [n..<n + length ids]"
        unfolding e using ids t i1 by simp
      moreover have "n + length ids = Suc n + length ids1" using ids by simp
      ultimately show ?thesis using p1 b1 by simp
    qed
  next
    case (UpdateTaskStatus t st)
    from Cons.IH [OF updateTaskStatus_numbered [OF rt Cons.prems(1)] Cons.prems(2)]
      Cons.prems(3) c UpdateTaskStatus
    show ?thesis by simp
  next
    case (UpdateTaskNotes t ns)
    from Cons.IH [OF updateTaskNotes_numbered [OF rt Cons.prems(1)] Cons.prems(2)]
      Cons.prems(3) c UpdateTaskNotes
    show ?thesis by simp
  next
    case (SetBlocker t b)
    from Cons.IH [OF setBlocker_numbered [OF rt Cons.prems(1)] Cons.prems(2)]
      Cons.prems(3) c SetBlocker
    show ?thesis by simp
  qed
qed

lemma project_numbered_tasks:
  "project_numbered J d p n \<Longrightarrow> numbered (tasks_of J d p) \<and> length (tasks_of J d p) = n"
  by (auto simp: project_numbered_def tasks_of_def numbered_def split: sum.splits option.splits loaded.splits)

lemma addTask_succeeds:
  assumes rt: "json_roundtrip J" and pn: "project_numbered J d p n" and n: "n < 2 ^ 32 - 1"
    and dirs: "tasksDir d \<noteq> None" "plansDir d \<noteq> None"
  shows "\<exists>task d'. addTask J today d p subj = (Inr task, d')"
proof (cases "getProject J d p")
  case (Inl e) with pn show ?thesis by (simp add: project_numbered_def)
next
  case (Inr loaded)
  show ?thesis
  proof (cases loaded)
    case (Some v)
    with Inr pn obtain data where load: "getProject J d p = Inr (Some (Project data))"
      by (cases v) (auto simp: project_numbered_def)
    with pn have "project data = p" "length (tasks data) < 2 ^ 32 - 1"
      using n by (simp_all add: project_numbered_def)
    from addTask_loaded [OF rt load this, of today subj] show ?thesis by blast
  next
    case None
    with Inr have load: "getProject J d p = Inr None" by simp
    from dirs obtain es fs where es: "tasksDir d = Some es" and fs: "plansDir d = Some fs" by auto
    let ?data = "\<lparr>project = p, project_status = Active, created = today, updated = today,
                    tasks = []\<rparr>"
    from createProject_ok [OF rt es fs, of today p]
    obtain d1 where d1: "createProject J today d p = (Inr ?data, d1)"
      "getProject J d1 p = Inr (Some (Project ?data))" by blast
    from getProject_Some_dir [OF d1(2)] obtain es1 where es1: "tasksDir d1 = Some es1" by blast
    show ?thesis
      using load d1(1) by (simp add: addTask_def push_def Let_def saveProject_ok [OF es1])
  qed
qed

text \<open>
  Start from a project with no record or with no tasks, and make any calls of the four
  operations on it; let \<open>ids\<close> be the ids that the successful \<open>addTask\<close> calls assigned,
  in order.  Then \<open>ids\<close> is \<open>1\<close>, \<open>2\<close>, \<open>3\<close>, ... in decimal, the project holds as
  many tasks, and the next \<open>addTask\<close> continues the numbering.  No bound on the numbers is
  needed: the array is full long before \<open>2^53\<close>.
\<close>

lemma fresh_run_numbering:
  assumes rt: "json_roundtrip J" and start: "fresh_project J d0 p"
    and r: "run J p cs d0 = (ids, d)"
  shows "ids = map (\<lambda>k. decimal (Suc k)) [0..<length ids] \<and> distinct ids \<and>
         length (tasks_of J d p) = length ids \<and>
         maxId_of (tasks_of J d p) = Fin (int (length ids)) \<and>
         (\<forall>task d'. addTask J today d p subj = (Inr task, d') \<longrightarrow>
            task = \<lparr>task_id = decimal (Suc (length ids)), subject = subj, status = Pending,
                    blockedBy = [], blocks = [], notes = []\<rparr> \<and>
            tasks_of J d' p = tasks_of J d p @ [task]) \<and>
         (tasksDir d \<noteq> None \<and> plansDir d \<noteq> None \<and> length ids < 2 ^ 32 - 1 \<longrightarrow>
            (\<exists>task d'. addTask J today d p subj = (Inr task, d')))"
proof -
  from run_numbered [OF rt fresh_project_numbered [OF start] _ r]
  have ids: "ids = map (\<lambda>k. decimal (Suc k)) [0..<length ids]"
    and pn: "project_numbered J d p (length ids)" and bound: "length ids \<le> 2 ^ 32 - 1"
    by simp_all
  have "inj_on (\<lambda>k. decimal (Suc k)) (set [0..<length ids])"
    by (auto simp: inj_on_def dest: decimal_inj)
  then have "distinct (map (\<lambda>k. decimal (Suc k)) [0..<length ids])"
    by (simp add: distinct_map)
  with ids have dist: "distinct ids" by simp
  from project_numbered_tasks [OF pn]
  have nb: "numbered (tasks_of J d p)" and len: "length (tasks_of J d p) = length ids" by simp_all
  from bound len have "length (tasks_of J d p) < 2 ^ 53" by simp
  from numbered_maxId [OF nb this] len
  have mx: "maxId_of (tasks_of J d p) = Fin (int (length ids))" by simp
  have new: "task = \<lparr>task_id = decimal (Suc (length ids)), subject = subj, status = Pending,
                      blockedBy = [], blocks = [], notes = []\<rparr> \<and>
             tasks_of J d' p = tasks_of J d p @ [task]"
    if "addTask J today d p subj = (Inr task, d')" for task d'
    using addTask_numbered [OF rt pn bound, where today = today and subj = subj] that by simp
  have ok: "\<exists>task d'. addTask J today d p subj = (Inr task, d')"
    if "tasksDir d \<noteq> None" "plansDir d \<noteq> None" "length ids < 2 ^ 32 - 1"
    using addTask_succeeds [OF rt pn that(3,1,2)] .
  from ids dist len mx new ok show ?thesis by blast
qed

subsection \<open>Fresh ids on arbitrary stored projects\<close>

lemma or0_not_NaN [simp]: "or0 x \<noteq> NaN"
  by (cases x) (simp_all add: or0_def)

lemma Math_max_PosInf [simp]: "y \<noteq> NaN \<Longrightarrow> Math_max PosInf y = PosInf"
  by (cases y) simp_all

lemma Math_max_not_NaN: "x \<noteq> NaN \<Longrightarrow> y \<noteq> NaN \<Longrightarrow> Math_max x y \<noteq> NaN"
  by (cases x; cases y) simp_all

lemma foldl_max_PosInf:
  "foldl (\<lambda>mx t. Math_max mx (or0 (f t))) PosInf ts = PosInf"
  by (induction ts) simp_all

lemma foldl_max_ge:
  "foldl (\<lambda>mx t. Math_max mx (or0 (f t))) acc ts = Fin m \<Longrightarrow> acc \<noteq> NaN \<Longrightarrow>
   (\<forall>a. acc = Fin a \<longrightarrow> a \<le> m) \<and> (\<forall>t\<in>set ts. \<forall>v. f t = Fin v \<longrightarrow> v \<le> m)"
proof (induction ts arbitrary: acc)
  case Nil
  then show ?case by simp
next
  case (Cons t ts)
  let ?acc = "Math_max acc (or0 (f t))"
  from Cons.prems(1) have r: "foldl (\<lambda>mx t. Math_max mx (or0 (f t))) ?acc ts = Fin m" by simp
  have nn: "?acc \<noteq> NaN" using Cons.prems(2) by (simp add: Math_max_not_NaN)
  from Cons.IH [OF r nn]
  have ih1: "\<And>a. ?acc = Fin a \<Longrightarrow> a \<le> m"
    and ih2: "\<forall>t\<in>set ts. \<forall>v. f t = Fin v \<longrightarrow> v \<le> m" by blast+
  have ninf: "?acc \<noteq> PosInf"
    using r foldl_max_PosInf [of f ts] by auto
  have a: "a \<le> m" if "acc = Fin a" for a
  proof (cases "or0 (f t)")
    case NaN then show ?thesis by simp
  next
    case NegInf with that ih1 [of a] show ?thesis by simp
  next
    case (Fin b) with that ih1 [of "max a b"] show ?thesis by simp
  next
    case PosInf with that ninf show ?thesis by simp
  qed
  have b: "v \<le> m" if "f t = Fin v" for v
  proof -
    from that have o: "or0 (f t) = Fin v" by (simp add: or0_def)
    show ?thesis
    proof (cases acc)
      case NaN with Cons.prems(2) show ?thesis by simp
    next
      case NegInf with o ih1 [of v] show ?thesis by simp
    next
      case (Fin a) with o ih1 [of "max a v"] show ?thesis by simp
    next
      case PosInf with o ninf show ?thesis by simp
    qed
  qed
  from a b ih2 show ?case by auto
qed

lemma maxId_of_ge:
  "maxId_of ts = Fin m \<Longrightarrow> t \<in> set ts \<Longrightarrow> parseInt (task_id t) = Fin v \<Longrightarrow> v \<le> m"
  using foldl_max_ge [of "\<lambda>t. parseInt (task_id t)" "Fin 0" ts m]
  by (auto simp: maxId_of_def)

lemma foldl_max_safe:
  "\<forall>t\<in>set ts. safe_id (task_id t) \<Longrightarrow> 0 \<le> a \<Longrightarrow> a < 2 ^ 53 \<Longrightarrow>
   \<exists>m. foldl (\<lambda>mx t. Math_max mx (or0 (parseInt (task_id t)))) (Fin a) ts = Fin m \<and>
        0 \<le> m \<and> m < 2 ^ 53"
proof (induction ts arbitrary: a)
  case Nil
  then show ?case by simp
next
  case (Cons t ts)
  from Cons.prems(1) have safe: "safe_id (task_id t)" and rest: "\<forall>t\<in>set ts. safe_id (task_id t)"
    by simp_all
  have "\<exists>b. Math_max (Fin a) (or0 (parseInt (task_id t))) = Fin b \<and> 0 \<le> b \<and> b < 2 ^ 53"
    using safe Cons.prems(2,3)
    by (cases "parseInt (task_id t)") (auto simp: safe_id_def or0_def)
  then obtain b where b: "Math_max (Fin a) (or0 (parseInt (task_id t))) = Fin b"
    "0 \<le> b" "b < 2 ^ 53" by blast
  from Cons.IH [OF rest b(2,3)] b(1) show ?case by simp
qed

lemma bit_length_2p53: "bit_length 9007199254740992 = 54"
  by (simp add: bit_length.simps)

lemma round_double_2p53: "round_double 9007199254740992 = Fin 9007199254740992"
  by (simp add: round_double_def bit_length_2p53 Let_def)

lemma round_double_2p53_1: "round_double 9007199254740993 = Fin 9007199254740992"
proof -
  have "bit_length 9007199254740993 = 54" by (simp add: bit_length.simps)
  then show ?thesis by (simp add: round_double_def Let_def)
qed

lemma round_double_upto: "0 \<le> n \<Longrightarrow> n \<le> 2 ^ 53 \<Longrightarrow> round_double n = Fin n"
  using round_double_small [of n] round_double_2p53 by (cases "n = 2 ^ 53") simp_all

text \<open>
  Claim C10, amended.  Whatever ids the stored tasks carry (not numeric, padded, twice the
  same), as long as \<open>parseInt\<close> reads none of them as a number of \<open>2^53\<close> or more, the
  id of the task that \<open>addTask\<close> returns is the id of no task that the project held.
\<close>

theorem addTask_fresh_id:
  assumes safe: "\<forall>t\<in>set (tasks_of J d p). safe_id (task_id t)"
    and res: "addTask J today d p subj = (Inr task, d')"
  shows "task_id task \<notin> task_id ` set (tasks_of J d p)"
proof
  let ?ts = "tasks_of J d p"
  assume "task_id task \<in> task_id ` set ?ts"
  then obtain t where t: "t \<in> set ?ts" "task_id t = task_id task" by auto
  from foldl_max_safe [OF safe, of 0]
  obtain m where m: "maxId_of ?ts = Fin m" "0 \<le> m" "m < 2 ^ 53"
    by (auto simp: maxId_of_def)
  have p1: "plus1 (maxId_of ?ts) = Fin (m + 1)"
    using m by (simp add: plus1_def round_double_upto)
  have "task_id task = String_number J (plus1 (maxId_of ?ts))"
    using addTask_result [OF res] by simp
  also have "\<dots> = decimal (nat (m + 1))"
    unfolding p1 using m by (simp add: String_number_small)
  finally have "parseInt (task_id t) = round_double (int (nat (m + 1)))"
    using t(2) by (simp add: parseInt_decimal)
  then have "parseInt (task_id t) = Fin (m + 1)"
    using m by (simp add: round_double_upto)
  from maxId_of_ge [OF m(1) t(1) this] show False by simp
qed

lemma decimal_2p53: "decimal 9007199254740992 = ''9007199254740992''"
  by (simp add: decimal.simps digit_char_def)

text \<open>
  The claim as it is written fails at the stored id \<open>9007199254740992\<close>, which is
  \<open>2^53\<close>: \<open>maxId + 1\<close> is not a double and rounds back to \<open>2^53\<close>, so the new task
  gets the id of the stored one.
\<close>

theorem addTask_fresh_id_counterexample:
  "fst (addTask sample_platform ''2026-01-02''
          (sample_disk [sample_task ''9007199254740992'' Pending [] []]) ''p'' ''again'')
     = Inr \<lparr>task_id = ''9007199254740992'', subject = ''again'', status = Pending, blockedBy = [],
            blocks = [], notes = []\<rparr> \<and>
   tasks_of sample_platform (sample_disk [sample_task ''9007199254740992'' Pending [] []]) ''p''
     = [\<lparr>task_id = ''9007199254740992'', subject = ''work'', status = Pending, blockedBy = [],
         blocks = [], notes = []\<rparr>]"
proof -
  let ?ts = "[sample_task ''9007199254740992'' Pending [] []]"
  have n: "project (sample_project ?ts) = ''p''" by (simp add: sample_project_def)
  have room: "length (tasks (sample_project ?ts)) < 2 ^ 32 - 1" by (simp add: sample_project_def)
  have p: "parseInt ''9007199254740992'' = Fin 9007199254740992"
    using parseInt_decimal [of 9007199254740992] by (simp add: decimal_2p53 round_double_2p53)
  have "maxId_of (tasks (sample_project ?ts)) = Fin 9007199254740992"
    by (simp add: maxId_of_def sample_project_def sample_task_def p or0_def)
  then have "String_number sample_platform (plus1 (maxId_of (tasks (sample_project ?ts))))
      = ''9007199254740992''"
    by (simp add: plus1_def round_double_2p53_1 String_number_def decimal_2p53)
  with addTask_loaded [OF sample_roundtrip getProject_sample_disk n room,
      of "''2026-01-02''" "''again''"]
  show ?thesis
    by (auto simp: tasks_of_def sample_project_def sample_task_def)
qed

theorem addTask_fresh_id_witness:
  "safe_id ''7'' \<and> safe_id ''abc'' \<and>
   (\<exists>task d'.
      addTask sample_platform ''2026-01-02''
        (sample_disk [sample_task ''7'' Pending [] [], sample_task ''abc'' Pending [] []]) ''p'' ''next''
        = (Inr task, d') \<and>
      task_id task \<notin> task_id ` set (tasks_of sample_platform
        (sample_disk [sample_task ''7'' Pending [] [], sample_task ''abc'' Pending [] []]) ''p''))"
proof -
  let ?ts = "[sample_task ''7'' Pending [] [], sample_task ''abc'' Pending [] []]"
  let ?d = "sample_disk ?ts"
  have n: "project (sample_project ?ts) = ''p''" by (simp add: sample_project_def)
  have room: "length (tasks (sample_project ?ts)) < 2 ^ 32 - 1" by (simp add: sample_project_def)
  have p7: "parseInt ''7'' = Fin 7"
    by (simp add: parseInt_def is_space_def digit_value_def radix_value_def Let_def
        round_double_small)
  have pa: "parseInt ''abc'' = NaN"
    by (simp add: parseInt_def is_space_def digit_value_def radix_value_def Let_def)
  have safe: "\<forall>t\<in>set (tasks_of sample_platform ?d ''p''). safe_id (task_id t)"
    by (simp add: tasks_of_def sample_project_def sample_task_def safe_id_def p7 pa)
  from addTask_loaded [OF sample_roundtrip getProject_sample_disk n room,
      of "''2026-01-02''" "''next''"]
  obtain task d' where a: "addTask sample_platform ''2026-01-02'' ?d ''p'' ''next'' = (Inr task, d')"
    by blast
  have "safe_id ''7''" "safe_id ''abc''" by (simp_all add: safe_id_def p7 pa)
  with addTask_fresh_id [OF safe a] a show ?thesis by blast
qed

subsection \<open>Saving, loading and listing\<close>

text \<open>
  Claim C7.  On a platform whose JSON round-trips, for every project record: where the
  tasks directory exists \<open>saveProject\<close> succeeds, and \<open>getProject\<close> by the name of the
  record then yields the record that was saved, equal in every field, with \<open>updated\<close>
  the date of the save.  Saving what was loaded yields the same record again, with the
  date of the later save.
\<close>

theorem save_then_load:
  assumes rt: "json_roundtrip J" and dir: "tasksDir d \<noteq> None"
  shows "\<exists>d'. saveProject J today d data = (Inr (data\<lparr>updated := today\<rparr>), d') \<and>
              getProject J d' (project data) = Inr (Some (Project (data\<lparr>updated := today\<rparr>))) \<and>
              (\<exists>d''. saveProject J today' d' (data\<lparr>updated := today\<rparr>)
                       = (Inr (data\<lparr>updated := today'\<rparr>), d'') \<and>
                     getProject J d'' (project data) = Inr (Some (Project (data\<lparr>updated := today'\<rparr>))))"
proof -
  from dir obtain es where es: "tasksDir d = Some es" by auto
  let ?f = "projectPath (project data)"
  let ?d' = "d\<lparr>tasksDir := Some (write_entry ?f (stringify J (data\<lparr>updated := today\<rparr>)) es)\<rparr>"
  have s1: "saveProject J today d data = (Inr (data\<lparr>updated := today\<rparr>), ?d')"
    by (simp add: saveProject_ok [OF es])
  have l1: "getProject J ?d' (project data) = Inr (Some (Project (data\<lparr>updated := today\<rparr>)))"
    by (rule getProject_after_write [OF rt])
  have es': "tasksDir ?d' = Some (write_entry ?f (stringify J (data\<lparr>updated := today\<rparr>)) es)"
    by simp
  let ?d'' = "?d'\<lparr>tasksDir := Some (write_entry ?f (stringify J (data\<lparr>updated := today'\<rparr>))
                  (write_entry ?f (stringify J (data\<lparr>updated := today\<rparr>)) es))\<rparr>"
  have s2: "saveProject J today' ?d' (data\<lparr>updated := today\<rparr>) = (Inr (data\<lparr>updated := today'\<rparr>), ?d'')"
    by (simp add: saveProject_ok [OF es'])
  have l2: "getProject J ?d'' (project data) = Inr (Some (Project (data\<lparr>updated := today'\<rparr>)))"
    by (rule getProject_after_write [OF rt])
  from s1 l1 s2 l2 show ?thesis by blast
qed

theorem save_then_load_witness:
  "tasksDir (sample_disk []) \<noteq> None \<and>
   (\<exists>d'. saveProject sample_platform ''2026-02-03'' (sample_disk [])
            (sample_project [sample_task ''1'' Blocked [''1''] [''1'']])
          = (Inr ((sample_project [sample_task ''1'' Blocked [''1''] [''1'']])\<lparr>updated := ''2026-02-03''\<rparr>), d') \<and>
        getProject sample_platform d' ''p''
          = Inr (Some (Project ((sample_project [sample_task ''1'' Blocked [''1''] [''1'']])\<lparr>updated := ''2026-02-03''\<rparr>))))"
proof -
  have dir: "tasksDir (sample_disk []) \<noteq> None" by (simp add: sample_disk_def)
  have n: "project (sample_project [sample_task ''1'' Blocked [''1''] [''1'']]) = ''p''"
    by (simp add: sample_project_def)
  from save_then_load [OF sample_roundtrip dir, of "''2026-02-03''"
      "sample_project [sample_task ''1'' Blocked [''1''] [''1'']]" "''2026-02-04''"] dir
  show ?thesis unfolding n by blast
qed

lemma listProjects_total: "\<exists>ps. listProjects d = Inr ps"
  by (simp add: listProjects_def try_catch_def split: sum.splits)

lemma map_throwing_getProject:
  "map_throwing (getProject J d) ps = Inr (map (\<lambda>q. projr (getProject J d q)) ps)"
proof (induction ps)
  case Nil
  show ?case by simp
next
  case (Cons q ps)
  from getProject_total [of J d q] obtain r where "getProject J d q = Inr r" by blast
  with Cons show ?case by simp
qed

text \<open>
  Claim C8.  The reads return and do not throw: \<open>listProjects\<close> always returns a list,
  the empty one when the tasks directory is missing or unreadable; \<open>getProject\<close> always
  returns, \<open>null\<close> when the file cannot be read and when its text does not parse;
  \<open>getActiveProjects\<close> returns, in the order of \<open>listProjects\<close>, the active projects among
  the names that load, leaving out without a word those that do not, and the empty list
  when the tasks directory is missing.
\<close>

theorem reads_never_throw:
  "(\<exists>ps. listProjects d = Inr ps) \<and>
   (tasksDir d = None \<longrightarrow> listProjects d = Inr []) \<and>
   (\<exists>r. getProject J d p = Inr r) \<and>
   (\<forall>e. readFileSync (tasksDir d) (projectPath p) = Inl e \<longrightarrow> getProject J d p = Inr None) \<and>
   (\<forall>content. readFileSync (tasksDir d) (projectPath p) = Inr content \<and> parse J content = None \<longrightarrow>
      getProject J d p = Inr None) \<and>
   (\<forall>ps. listProjects d = Inr ps \<longrightarrow>
      getActiveProjects J d =
        Inr (concat (map (\<lambda>q. case getProject J d q of
                                  Inr (Some (Project data)) \<Rightarrow> if project_status data = Active then [data] else []
                                | _ \<Rightarrow> []) ps))) \<and>
   (tasksDir d = None \<longrightarrow> getActiveProjects J d = Inr [])"
proof -
  have lp: "\<exists>ps. listProjects d = Inr ps" by (rule listProjects_total)
  have lp0: "listProjects d = Inr []" if "tasksDir d = None"
    using that by (simp add: listProjects_def try_catch_def readdirSync_def)
  have gp: "\<exists>r. getProject J d p = Inr r" by (rule getProject_total)
  have gp1: "getProject J d p = Inr None" if "readFileSync (tasksDir d) (projectPath p) = Inl e" for e
    using that by (simp add: getProject_def try_catch_def)
  have gp2: "getProject J d p = Inr None"
    if "readFileSync (tasksDir d) (projectPath p) = Inr content \<and> parse J content = None" for content
    using that by (simp add: getProject_def try_catch_def JSON_parse_def)
  have ga: "getActiveProjects J d =
        Inr (concat (map (\<lambda>q. case getProject J d q of
                                  Inr (Some (Project data)) \<Rightarrow> if project_status data = Active then [data] else []
                                | _ \<Rightarrow> []) ps))"
    if l: "listProjects d = Inr ps" for ps
  proof -
    have "List.map_filter
            (\<lambda>r. case r of
                    Some (Project data) \<Rightarrow> if project_status data = Active then Some data else None
                  | _ \<Rightarrow> None)
            (map (\<lambda>q. projr (getProject J d q)) qs)
          = concat (map (\<lambda>q. case getProject J d q of
                                  Inr (Some (Project data)) \<Rightarrow> if project_status data = Active then [data] else []
                                | _ \<Rightarrow> []) qs)" for qs
    proof (induction qs)
      case Nil
      show ?case by (simp add: List.map_filter_simps)
    next
      case (Cons q qs)
      from getProject_total [of J d q] obtain r where "getProject J d q = Inr r" by blast
      with Cons show ?case
        by (auto simp: List.map_filter_simps split: option.splits loaded.splits)
    qed
    then show ?thesis
      by (simp add: getActiveProjects_def l map_throwing_getProject)
  qed
  have ga0: "getActiveProjects J d = Inr []" if "tasksDir d = None"
    using ga [OF lp0 [OF that]] by simp
  from lp lp0 gp gp1 gp2 ga ga0 show ?thesis by blast
qed

theorem reads_never_throw_witness:
  "listProjects \<lparr>tasksDir = None, plansDir = None\<rparr> = Inr [] \<and>
   getActiveProjects sample_platform \<lparr>tasksDir = None, plansDir = None\<rparr> = Inr [] \<and>
   getProject sample_platform \<lparr>tasksDir = None, plansDir = None\<rparr> ''p'' = Inr None \<and>
   listProjects \<lparr>tasksDir = Some [(''p.json'', sample_stringify (sample_project [])),
                                    (''bad.json'', ''garbage''), (''notes.txt'', ''x'')],
                  plansDir = Some []\<rparr> = Inr [''p'', ''bad''] \<and>
   getProject sample_platform
     \<lparr>tasksDir = Some [(''p.json'', sample_stringify (sample_project [])),
                       (''bad.json'', ''garbage''), (''notes.txt'', ''x'')],
      plansDir = Some []\<rparr> ''bad'' = Inr None \<and>
   getActiveProjects sample_platform
     \<lparr>tasksDir = Some [(''p.json'', sample_stringify (sample_project [])),
                       (''bad.json'', ''garbage''), (''notes.txt'', ''x'')],
      plansDir = Some []\<rparr> = Inr [sample_project []]"
proof -
  let ?m = "\<lparr>tasksDir = None, plansDir = None\<rparr>"
  let ?d = "\<lparr>tasksDir = Some [(''p.json'', sample_stringify (sample_project [])),
                              (''bad.json'', ''garbage''), (''notes.txt'', ''x'')],
             plansDir = Some []\<rparr>"
  have m: "tasksDir ?m = None" by simp
  have rm: "readFileSync (tasksDir ?m) (projectPath ''p'') = Inl IOError"
    by (simp add: readFileSync_def)
  have lp: "listProjects ?d = Inr [''p'', ''bad'']"
    by (simp add: listProjects_def try_catch_def readdirSync_def endsWith_def)
  have rb: "readFileSync (tasksDir ?d) (projectPath ''bad'') = Inr ''garbage'' \<and>
            parse sample_platform ''garbage'' = None"
    by (simp add: readFileSync_def projectPath_def sample_platform_def sample_parse_def
        decode_project_def dec_str_def)
  have gp: "getProject sample_platform ?d ''p'' = Inr (Some (Project (sample_project [])))"
    by (simp add: getProject_def try_catch_def readFileSync_def projectPath_def JSON_parse_def
        sample_platform_def sample_parse_stringify)
  have act: "project_status (sample_project []) = Active" by (simp add: sample_project_def)
  note t1 = reads_never_throw [of ?m sample_platform "''p''"]
  note t2 = reads_never_throw [of ?d sample_platform "''bad''"]
  from t1 m rm have a: "listProjects ?m = Inr []" "getActiveProjects sample_platform ?m = Inr []"
    "getProject sample_platform ?m ''p'' = Inr None" by blast+
  from t2 rb have b: "getProject sample_platform ?d ''bad'' = Inr None" by blast
  from t2 lp have "getActiveProjects sample_platform ?d =
        Inr (concat (map (\<lambda>q. case getProject sample_platform ?d q of
                                  Inr (Some (Project data)) \<Rightarrow> if project_status data = Active then [data] else []
                                | _ \<Rightarrow> []) [''p'', ''bad'']))" by blast
  then have c: "getActiveProjects sample_platform ?d = Inr [sample_project []]"
    by (simp add: gp b act)
  from a lp b c show ?thesis by blast
qed

subsection \<open>The two edge sets\<close>

lemma project_numbered_load:
  assumes "project_numbered J d p n" and "tasks_of J d p \<noteq> []"
  shows "\<exists>data. getProject J d p = Inr (Some (Project data)) \<and> project data = p \<and> tasks data = tasks_of J d p"
  using assms
  by (auto simp: project_numbered_def tasks_of_def split: sum.splits option.splits loaded.splits)

text \<open>
  Claim C1 says that in every project reached by the operations from an empty one,
  \<open>b\<close> is in the \<open>blockedBy\<close> of \<open>t\<close> exactly when \<open>t\<close> is in the \<open>blocks\<close> of \<open>b\<close>.
  \<open>setBlocker\<close> adds the edge on both sides, but the loop of \<open>updateTaskStatus\<close> removes
  it from \<open>blockedBy\<close> only.  After two \<open>addTask\<close>, \<open>setBlocker\<close> of 2 by 1 and the
  completion of 1, task 1 still has 2 in its \<open>blocks\<close> while task 2 has an empty
  \<open>blockedBy\<close>.
\<close>

theorem blocks_left_behind:
  "tasks_of sample_platform
     (snd (run sample_platform ''p''
             [(''2026-01-01'', AddTask ''a''),
              (''2026-01-01'', AddTask ''b''),
              (''2026-01-01'', SetBlocker ''2'' ''1''),
              (''2026-01-02'', UpdateTaskStatus ''1'' Completed)]
             \<lparr>tasksDir = Some [], plansDir = Some []\<rparr>))
     ''p''
   = [\<lparr>task_id = ''1'', subject = ''a'', status = Completed, blockedBy = [], blocks = [''2''],
       notes = []\<rparr>,
      \<lparr>task_id = ''2'', subject = ''b'', status = Pending, blockedBy = [], blocks = [],
       notes = []\<rparr>]"
proof -
  let ?J = sample_platform
  let ?d0 = "\<lparr>tasksDir = Some [], plansDir = Some []\<rparr>"
  let ?t1 = "\<lparr>task_id = ''1'', subject = ''a'', status = Pending, blockedBy = [], blocks = [],
              notes = []\<rparr>"
  let ?t2 = "\<lparr>task_id = ''2'', subject = ''b'', status = Pending, blockedBy = [], blocks = [],
              notes = []\<rparr>"
  note rt = sample_roundtrip
  have f: "fresh_project ?J ?d0 ''p''"
    by (simp add: fresh_project_def getProject_def try_catch_def readFileSync_def)
  have t0: "tasks_of ?J ?d0 ''p'' = []"
    by (simp add: tasks_of_def getProject_def try_catch_def readFileSync_def)
  have d2: "decimal (Suc (Suc 0)) = ''2''" by (simp add: decimal.simps digit_char_def)
  note pn0 = fresh_project_numbered [OF f]
  \<comment> \<open>the first task\<close>
  from addTask_succeeds [OF rt pn0, of "''2026-01-01''" "''a''"]
  obtain task1 d1 where a1: "addTask ?J ''2026-01-01'' ?d0 ''p'' ''a'' = (Inr task1, d1)" by auto
  from addTask_numbered [OF rt pn0, where today = "''2026-01-01''" and subj = "''a''"] a1 t0
  have task1: "task1 = ?t1" and pn1: "project_numbered ?J d1 ''p'' (Suc 0)"
    and ts1: "tasks_of ?J d1 ''p'' = [?t1]" by (simp_all add: decimal_1)
  from project_numbered_load [OF pn1] ts1
  obtain data1 where l1: "getProject ?J d1 ''p'' = Inr (Some (Project data1))" "project data1 = ''p''"
    "tasks data1 = [?t1]" by auto
  \<comment> \<open>the second task\<close>
  have room1: "length (tasks data1) < 2 ^ 32 - 1" using l1(3) by simp
  from addTask_loaded [OF rt l1(1,2) room1, of "''2026-01-01''" "''b''"]
  obtain task2 d2 where a2: "addTask ?J ''2026-01-01'' d1 ''p'' ''b'' = (Inr task2, d2)" by blast
  from addTask_numbered [OF rt pn1, where today = "''2026-01-01''" and subj = "''b''"] a2 ts1
  have task2: "task2 = ?t2" and pn2: "project_numbered ?J d2 ''p'' (Suc (Suc 0))"
    and ts2: "tasks_of ?J d2 ''p'' = [?t1, ?t2]" by (simp_all add: d2)
  from project_numbered_load [OF pn2] ts2
  obtain data2 where l2: "getProject ?J d2 ''p'' = Inr (Some (Project data2))" "project data2 = ''p''"
    "tasks data2 = [?t1, ?t2]" by auto
  \<comment> \<open>task 2 is blocked by task 1\<close>
  have i: "find_ref (\<lambda>u. task_id u = ''2'') (tasks data2) = Some 1"
    and j: "find_ref (\<lambda>u. task_id u = ''1'') (tasks data2) = Some 0"
    by (simp_all add: l2(3))
  let ?b1 = "?t1\<lparr>blocks := [''2'']\<rparr>"
  let ?b2 = "?t2\<lparr>blockedBy := [''1''], status := Blocked\<rparr>"
  have sb: "setBlocker_tasks ''2'' ''1'' 1 0 (tasks data2) = [?b1, ?b2]"
    by (simp add: setBlocker_tasks_def l2(3))
  from setBlocker_loaded [OF rt l2(1,2) i j, of "''2026-01-01''"]
  obtain d3 where s3: "setBlocker ?J ''2026-01-01'' d2 ''p'' ''2'' ''1'' = (Inr (), d3)"
    and l3: "getProject ?J d3 ''p'' = Inr (Some (Project (data2\<lparr>tasks := [?b1, ?b2], updated := ''2026-01-01''\<rparr>)))"
    unfolding sb by blast
  \<comment> \<open>task 1 completes\<close>
  let ?data3 = "data2\<lparr>tasks := [?b1, ?b2], updated := ''2026-01-01''\<rparr>"
  have n3: "project ?data3 = ''p''" using l2(2) by simp
  have i3: "find_ref (\<lambda>u. task_id u = ''1'') (tasks ?data3) = Some 0" by simp
  let ?c1 = "?b1\<lparr>status := Completed\<rparr>"
  let ?c2 = "?t2\<lparr>blockedBy := [], status := Pending\<rparr>"
  have us: "updateTaskStatus_tasks ''1'' Completed 0 (tasks ?data3) = ([?c1, ?c2], [''2''])"
    by (simp add: updateTaskStatus_tasks_def)
  from updateTaskStatus_loaded [OF rt l3 n3 i3 us, of "''2026-01-02''"]
  obtain d4 where s4: "updateTaskStatus ?J ''2026-01-02'' d3 ''p'' ''1'' Completed
        = (Inr ([?c1, ?c2] ! 0, [''2'']), d4)"
    and l4: "getProject ?J d4 ''p'' = Inr (Some (Project (?data3\<lparr>tasks := [?c1, ?c2], updated := ''2026-01-02''\<rparr>)))"
    by blast
  have "snd (run ?J ''p''
             [(''2026-01-01'', AddTask ''a''), (''2026-01-01'', AddTask ''b''),
              (''2026-01-01'', SetBlocker ''2'' ''1''),
              (''2026-01-02'', UpdateTaskStatus ''1'' Completed)] ?d0) = d4"
    by (simp add: a1 a2 s3 s4)
  then show ?thesis by (simp add: tasks_of_def l4)
qed

lemma nth_update_field:
  assumes "k < length ts"
  shows "task_id (ts[i := (ts ! i)\<lparr>status := st\<rparr>] ! k) = task_id (ts ! k)"
    and "blocks (ts[i := (ts ! i)\<lparr>status := st\<rparr>] ! k) = blocks (ts ! k)"
    and "blockedBy (ts[i := (ts ! i)\<lparr>status := st\<rparr>] ! k) = blockedBy (ts ! k)"
    and "task_id (ts[i := (ts ! i)\<lparr>notes := ns\<rparr>] ! k) = task_id (ts ! k)"
    and "blocks (ts[i := (ts ! i)\<lparr>notes := ns\<rparr>] ! k) = blocks (ts ! k)"
    and "blockedBy (ts[i := (ts ! i)\<lparr>notes := ns\<rparr>] ! k) = blockedBy (ts ! k)"
  using assms by (cases "k = i"; simp)+

lemma edges_recorded_mono:
  assumes inv: "edges_recorded ts" and len: "length ts' = length ts"
    and ids: "\<And>k. k < length ts \<Longrightarrow> task_id (ts' ! k) = task_id (ts ! k)"
    and bl: "\<And>k. k < length ts \<Longrightarrow> set (blocks (ts ! k)) \<subseteq> set (blocks (ts' ! k))"
    and bb: "\<And>k b. k < length ts \<Longrightarrow> b \<in> set (blockedBy (ts' ! k)) \<Longrightarrow>
               b \<in> set (blockedBy (ts ! k)) \<or>
               (\<exists>m<length ts. task_id (ts' ! m) = b \<and> task_id (ts' ! k) \<in> set (blocks (ts' ! m)))"
  shows "edges_recorded ts'"
  unfolding edges_recorded_def
proof (intro allI impI ballI)
  fix k b assume k: "k < length ts'" and b: "b \<in> set (blockedBy (ts' ! k))"
  from k len have k': "k < length ts" by simp
  from bb [OF k' b]
  show "\<exists>m<length ts'. task_id (ts' ! m) = b \<and> task_id (ts' ! k) \<in> set (blocks (ts' ! m))"
  proof
    assume "b \<in> set (blockedBy (ts ! k))"
    with inv k' obtain m where m: "m < length ts" "task_id (ts ! m) = b"
      "task_id (ts ! k) \<in> set (blocks (ts ! m))"
      unfolding edges_recorded_def by blast
    with ids [OF m(1)] ids [OF k'] bl [OF m(1)] len show ?thesis by auto
  next
    assume "\<exists>m<length ts. task_id (ts' ! m) = b \<and> task_id (ts' ! k) \<in> set (blocks (ts' ! m))"
    with len show ?thesis by simp
  qed
qed

lemma edges_recorded_setBlocker:
  assumes inv: "edges_recorded ts" and i: "i < length ts" and j: "j < length ts"
    and ti: "task_id (ts ! i) = t" and tj: "task_id (ts ! j) = b"
  shows "edges_recorded (setBlocker_tasks t b i j ts)"
proof (rule edges_recorded_mono [OF inv])
  let ?ts' = "setBlocker_tasks t b i j ts"
  show "length ?ts' = length ts" by simp
  have ids: "map task_id ?ts' = map task_id ts" by (rule setBlocker_tasks_ids [OF i j])
  show id: "task_id (?ts' ! k) = task_id (ts ! k)" if "k < length ts" for k
    using that ids by (metis length_map nth_map setBlocker_tasks_length)
  show "set (blocks (ts ! k)) \<subseteq> set (blocks (?ts' ! k))" if "k < length ts" for k
    using that i j by (auto simp: setBlocker_tasks_def Let_def nth_list_update)
  show "c \<in> set (blockedBy (ts ! k)) \<or>
        (\<exists>m<length ts. task_id (?ts' ! m) = c \<and> task_id (?ts' ! k) \<in> set (blocks (?ts' ! m)))"
    if k: "k < length ts" and c: "c \<in> set (blockedBy (?ts' ! k))" for k c
  proof (cases "c \<in> set (blockedBy (ts ! k))")
    case True then show ?thesis by simp
  next
    case False
    with c k i j have "k = i" "c = b"
      by (auto simp: setBlocker_tasks_def Let_def nth_list_update split: if_splits)
    moreover have "task_id (?ts' ! j) = b" using id [OF j] tj by simp
    moreover have "task_id (?ts' ! i) = t" using id [OF i] ti by simp
    moreover have "t \<in> set (blocks (?ts' ! j))" by (rule setBlocker_tasks_links(2) [OF i j])
    ultimately show ?thesis using j by auto
  qed
qed

lemma edges_recorded_updateTaskStatus:
  assumes inv: "edges_recorded ts"
  shows "edges_recorded (fst (updateTaskStatus_tasks x st i ts))"
proof (rule edges_recorded_mono [OF inv])
  let ?ts' = "fst (updateTaskStatus_tasks x st i ts)"
  show "length ?ts' = length ts" by simp
  show "task_id (?ts' ! k) = task_id (ts ! k)" if "k < length ts" for k
    using that updateTaskStatus_tasks_ids [of x st i ts]
    by (metis length_map nth_map updateTaskStatus_tasks_length)
  show "set (blocks (ts ! k)) \<subseteq> set (blocks (?ts' ! k))" if "k < length ts" for k
    using that by (auto simp: updateTaskStatus_tasks_def cascade_eq Let_def nth_update_field)
  show "c \<in> set (blockedBy (ts ! k)) \<or>
        (\<exists>m<length ts. task_id (?ts' ! m) = c \<and> task_id (?ts' ! k) \<in> set (blocks (?ts' ! m)))"
    if "k < length ts" and "c \<in> set (blockedBy (?ts' ! k))" for k c
    using that
    by (auto simp: updateTaskStatus_tasks_def cascade_eq Let_def nth_update_field split: if_splits)
qed

lemma edges_recorded_notes:
  assumes inv: "edges_recorded ts"
  shows "edges_recorded (ts[i := (ts ! i)\<lparr>notes := ns\<rparr>])"
  by (rule edges_recorded_mono [OF inv]) (auto simp: nth_update_field)

lemma edges_recorded_snoc:
  assumes inv: "edges_recorded ts" and new: "blockedBy t = []"
  shows "edges_recorded (ts @ [t])"
  unfolding edges_recorded_def
proof (intro allI impI ballI)
  fix k b assume k: "k < length (ts @ [t])" and b: "b \<in> set (blockedBy ((ts @ [t]) ! k))"
  from b new have "k \<noteq> length ts" by auto
  with k have k': "k < length ts" by simp
  with b have "b \<in> set (blockedBy (ts ! k))" by (simp add: nth_append)
  with inv k' obtain m where "m < length ts" "task_id (ts ! m) = b"
      "task_id (ts ! k) \<in> set (blocks (ts ! m))"
    unfolding edges_recorded_def by blast
  with k' show "\<exists>m<length (ts @ [t]). task_id ((ts @ [t]) ! m) = b \<and>
                  task_id ((ts @ [t]) ! k) \<in> set (blocks ((ts @ [t]) ! m))"
    by (intro exI [of _ m]) (simp add: nth_append)
qed

lemma tasks_of_after_save:
  assumes rt: "json_roundtrip J" and load: "getProject J d p = Inr (Some (Project data))"
    and name: "project data = p" and save: "saveProject J today d (data\<lparr>tasks := ts\<rparr>) = (r, d')"
  shows "tasks_of J d' p = ts"
  using save_loaded [OF rt load name, of today ts] save by (auto simp: tasks_of_def)

lemma setBlocker_edges:
  assumes rt: "json_roundtrip J" and pn: "project_numbered J d p n"
    and inv: "edges_recorded (tasks_of J d p)"
  shows "edges_recorded (tasks_of J (snd (setBlocker J today d p t b)) p)"
proof (cases "getProject J d p")
  case (Inl e) with pn show ?thesis by (simp add: project_numbered_def)
next
  case (Inr loaded)
  show ?thesis
  proof (cases loaded)
    case None
    with Inr inv show ?thesis by (simp add: setBlocker_def)
  next
    case (Some v)
    with Inr pn obtain data where load: "getProject J d p = Inr (Some (Project data))"
      by (cases v) (auto simp: project_numbered_def)
    with pn have name: "project data = p" by (simp add: project_numbered_def)
    from inv load have inv': "edges_recorded (tasks data)" by (simp add: tasks_of_def)
    show ?thesis
    proof (cases "find_ref (\<lambda>u. task_id u = t) (tasks data)")
      case None
      with load inv show ?thesis by (simp add: setBlocker_def)
    next
      case i: (Some i)
      show ?thesis
      proof (cases "find_ref (\<lambda>u. task_id u = b) (tasks data)")
        case None
        with load i inv show ?thesis by (simp add: setBlocker_def)
      next
        case j: (Some j)
        note fi = find_ref_Some [OF i] and fj = find_ref_Some [OF j]
        obtain r d' where s: "saveProject J today d
             (data\<lparr>tasks := setBlocker_tasks t b i j (tasks data)\<rparr>) = (r, d')"
          by (cases "saveProject J today d (data\<lparr>tasks := setBlocker_tasks t b i j (tasks data)\<rparr>)")
        have "snd (setBlocker J today d p t b) = d'"
          using load i j s by (cases r) (simp_all add: setBlocker_def)
        moreover have "edges_recorded (setBlocker_tasks t b i j (tasks data))"
          using fi fj by (intro edges_recorded_setBlocker [OF inv']) simp_all
        ultimately show ?thesis using tasks_of_after_save [OF rt load name s] by simp
      qed
    qed
  qed
qed

lemma updateTaskStatus_edges:
  assumes rt: "json_roundtrip J" and pn: "project_numbered J d p n"
    and inv: "edges_recorded (tasks_of J d p)"
  shows "edges_recorded (tasks_of J (snd (updateTaskStatus J today d p t st)) p)"
proof (cases "getProject J d p")
  case (Inl e) with pn show ?thesis by (simp add: project_numbered_def)
next
  case (Inr loaded)
  show ?thesis
  proof (cases loaded)
    case None
    with Inr inv show ?thesis by (simp add: updateTaskStatus_def)
  next
    case (Some v)
    with Inr pn obtain data where load: "getProject J d p = Inr (Some (Project data))"
      by (cases v) (auto simp: project_numbered_def)
    with pn have name: "project data = p" by (simp add: project_numbered_def)
    from inv load have inv': "edges_recorded (tasks data)" by (simp add: tasks_of_def)
    show ?thesis
    proof (cases "find_ref (\<lambda>u. task_id u = t) (tasks data)")
      case None
      with load inv show ?thesis by (simp add: updateTaskStatus_def)
    next
      case i: (Some i)
      obtain ts2 un where res: "updateTaskStatus_tasks t st i (tasks data) = (ts2, un)"
        by (cases "updateTaskStatus_tasks t st i (tasks data)")
      obtain r d' where s: "saveProject J today d (data\<lparr>tasks := ts2\<rparr>) = (r, d')"
        by (cases "saveProject J today d (data\<lparr>tasks := ts2\<rparr>)")
      have "snd (updateTaskStatus J today d p t st) = d'"
        using load i res s by (cases r) (simp_all add: updateTaskStatus_def)
      moreover have "edges_recorded ts2"
        using edges_recorded_updateTaskStatus [OF inv', of t st i] res by simp
      ultimately show ?thesis using tasks_of_after_save [OF rt load name s] by simp
    qed
  qed
qed

lemma updateTaskNotes_edges:
  assumes rt: "json_roundtrip J" and pn: "project_numbered J d p n"
    and inv: "edges_recorded (tasks_of J d p)"
  shows "edges_recorded (tasks_of J (snd (updateTaskNotes J today d p t ns)) p)"
proof (cases "getProject J d p")
  case (Inl e) with pn show ?thesis by (simp add: project_numbered_def)
next
  case (Inr loaded)
  show ?thesis
  proof (cases loaded)
    case None
    with Inr inv show ?thesis by (simp add: updateTaskNotes_def)
  next
    case (Some v)
    with Inr pn obtain data where load: "getProject J d p = Inr (Some (Project data))"
      by (cases v) (auto simp: project_numbered_def)
    with pn have name: "project data = p" by (simp add: project_numbered_def)
    from inv load have inv': "edges_recorded (tasks data)" by (simp add: tasks_of_def)
    show ?thesis
    proof (cases "find_ref (\<lambda>u. task_id u = t) (tasks data)")
      case None
      with load inv show ?thesis by (simp add: updateTaskNotes_def)
    next
      case i: (Some i)
      let ?ts = "(tasks data)[i := (tasks data ! i)\<lparr>notes := ns\<rparr>]"
      obtain r d' where s: "saveProject J today d (data\<lparr>tasks := ?ts\<rparr>) = (r, d')"
        by (cases "saveProject J today d (data\<lparr>tasks := ?ts\<rparr>)")
      have "snd (updateTaskNotes J today d p t ns) = d'"
        using load i s by (cases r) (simp_all add: updateTaskNotes_def)
      with edges_recorded_notes [OF inv', of i ns] tasks_of_after_save [OF rt load name s]
      show ?thesis by simp
    qed
  qed
qed

lemma fresh_project_tasks: "fresh_project J d p \<Longrightarrow> tasks_of J d p = []"
  by (auto simp: fresh_project_def tasks_of_def split: sum.splits option.splits loaded.splits)

lemma addTask_edges:
  assumes rt: "json_roundtrip J" and pn: "project_numbered J d p n" and n: "n \<le> 2 ^ 32 - 1"
    and inv: "edges_recorded (tasks_of J d p)"
  shows "edges_recorded (tasks_of J (snd (addTask J today d p subj)) p)"
proof -
  obtain r d' where a: "addTask J today d p subj = (r, d')" by (cases "addTask J today d p subj")
  show ?thesis
  proof (cases r)
    case (Inr task)
    with addTask_numbered [OF rt pn n, where today = today and subj = subj] a
    have "blockedBy task = []" and "tasks_of J d' p = tasks_of J d p @ [task]" by simp_all
    with edges_recorded_snoc [OF inv, of task] a show ?thesis by simp
  next
    case (Inl e)
    have "tasks_of J d' p = tasks_of J d p"
    proof (cases "getProject J d p")
      case (Inl e') with pn show ?thesis by (simp add: project_numbered_def)
    next
      case (Inr loaded)
      show ?thesis
      proof (cases loaded)
        case (Some v)
        with Inr pn obtain data where load: "getProject J d p = Inr (Some (Project data))"
          by (cases v) (auto simp: project_numbered_def)
        with pn have name: "project data = p" by (simp add: project_numbered_def)
        show ?thesis
        proof (cases "length (tasks data) < 2 ^ 32 - 1")
          case True
          from addTask_loaded [OF rt load name True, of today subj] a Inl show ?thesis by auto
        next
          case False
          then have "2 ^ 32 - 1 \<le> length (tasks data)" by simp
          from addTask_full [OF load this, where today = today and subj = subj] a
          show ?thesis by simp
        qed
      next
        case None
        with Inr have load: "getProject J d p = Inr None" by simp
        then have "tasks_of J d p = []" by (simp add: tasks_of_def)
        moreover from addTask_absent [OF rt load, of today subj] a Inl
        have "fresh_project J d' p" by auto
        ultimately show ?thesis by (simp add: fresh_project_tasks)
      qed
    qed
    with inv a show ?thesis by simp
  qed
qed

lemma run_edges:
  assumes rt: "json_roundtrip J"
  shows "project_numbered J d p n \<Longrightarrow> n \<le> 2 ^ 32 - 1 \<Longrightarrow> edges_recorded (tasks_of J d p) \<Longrightarrow>
         edges_recorded (tasks_of J (snd (run J p cs d)) p)"
proof (induction cs arbitrary: d n)
  case Nil
  then show ?case by simp
next
  case (Cons c cs)
  obtain today cl where c: "c = (today, cl)" by (cases c)
  show ?case
  proof (cases cl)
    case (AddTask subj)
    note add = addTask_numbered [OF rt Cons.prems(1,2), where today = today and subj = subj]
    note inv = addTask_edges [OF rt Cons.prems, of today subj]
    obtain r d1 where a: "addTask J today d p subj = (r, d1)" by (cases "addTask J today d p subj")
    show ?thesis
    proof (cases r)
      case (Inl e)
      with a add have pn1: "project_numbered J d1 p n" by simp
      from Cons.IH [OF pn1 Cons.prems(2)] inv a Inl c AddTask show ?thesis by simp
    next
      case (Inr task)
      with a add have pn1: "project_numbered J d1 p (Suc n)" and n1: "Suc n \<le> 2 ^ 32 - 1"
        by auto
      from Cons.IH [OF pn1 n1] inv a Inr c AddTask show ?thesis
        by (auto split: prod.splits)
    qed
  next
    case (UpdateTaskStatus t st)
    from Cons.IH [OF updateTaskStatus_numbered [OF rt Cons.prems(1)] Cons.prems(2)
        updateTaskStatus_edges [OF rt Cons.prems(1,3)]] c UpdateTaskStatus
    show ?thesis by simp
  next
    case (UpdateTaskNotes t ns)
    from Cons.IH [OF updateTaskNotes_numbered [OF rt Cons.prems(1)] Cons.prems(2)
        updateTaskNotes_edges [OF rt Cons.prems(1,3)]] c UpdateTaskNotes
    show ?thesis by simp
  next
    case (SetBlocker t b)
    from Cons.IH [OF setBlocker_numbered [OF rt Cons.prems(1)] Cons.prems(2)
        setBlocker_edges [OF rt Cons.prems(1,3)]] c SetBlocker
    show ?thesis by simp
  qed
qed

text \<open>
  The other half of the equivalence does hold in every project reached from an empty
  one: a blocker of a task is a task of the project that has the blocked task in its
  \<open>blocks\<close>.
\<close>

theorem blockedBy_recorded_in_blocks:
  assumes rt: "json_roundtrip J" and start: "fresh_project J d0 p"
    and r: "run J p cs d0 = (ids, d)"
    and t: "tk \<in> set (tasks_of J d p)" and b: "b \<in> set (blockedBy tk)"
  shows "\<exists>bk\<in>set (tasks_of J d p). task_id bk = b \<and> task_id tk \<in> set (blocks bk)"
proof -
  have "edges_recorded (tasks_of J d0 p)"
    by (simp add: fresh_project_tasks [OF start] edges_recorded_def)
  from run_edges [OF rt fresh_project_numbered [OF start] _ this, of cs] r
  have inv: "edges_recorded (tasks_of J d p)" by simp
  from t obtain k where k: "k < length (tasks_of J d p)" "tk = tasks_of J d p ! k"
    by (auto simp: in_set_conv_nth)
  with inv b obtain m where "m < length (tasks_of J d p)" "task_id (tasks_of J d p ! m) = b"
    "task_id tk \<in> set (blocks (tasks_of J d p ! m))"
    unfolding edges_recorded_def by blast
  then show ?thesis by (auto intro: nth_mem)
qed

subsection \<open>The id formula on stored projects\<close>

lemma foldl_max_value:
  "\<forall>t\<in>set ts. safe_id (task_id t) \<Longrightarrow> 0 \<le> a \<Longrightarrow>
   foldl (\<lambda>mx t. Math_max mx (or0 (parseInt (task_id t)))) (Fin a) ts
     = Fin (Max (insert a (id_value ` task_id ` set ts)))"
proof (induction ts arbitrary: a)
  case Nil
  show ?case by simp
next
  case (Cons t ts)
  from Cons.prems(1) have safe: "safe_id (task_id t)" and rest: "\<forall>t\<in>set ts. safe_id (task_id t)"
    by simp_all
  have step: "Math_max (Fin a) (or0 (parseInt (task_id t))) = Fin (max a (id_value (task_id t)))"
    using safe Cons.prems(2)
    by (cases "parseInt (task_id t)") (simp_all add: safe_id_def or0_def id_value_def)
  have "0 \<le> max a (id_value (task_id t))" using Cons.prems(2) by simp
  from Cons.IH [OF rest this] step
  have "foldl (\<lambda>mx t. Math_max mx (or0 (parseInt (task_id t)))) (Fin a) (t # ts)
      = Fin (Max (insert (max a (id_value (task_id t))) (id_value ` task_id ` set ts)))"
    by simp
  also have "Max (insert (max a (id_value (task_id t))) (id_value ` task_id ` set ts))
      = Max (insert a (id_value ` task_id ` set (t # ts)))"
  proof (cases "ts = []")
    case True
    then show ?thesis by (simp add: max.commute)
  next
    case False
    then have ne: "id_value ` task_id ` set ts \<noteq> {}" by simp
    have fin: "finite (id_value ` task_id ` set ts)" by simp
    show ?thesis by (simp add: Max_insert [OF fin ne] max.assoc)
  qed
  finally show ?case .
qed

lemma next_id_small:
  "0 \<le> M \<Longrightarrow> M < 2 ^ 53 \<Longrightarrow> String_number J (plus1 (Fin M)) = decimal (nat (1 + M))"
  by (simp add: plus1_def round_double_upto String_number_small add.commute)

text \<open>
  On any stored project whose ids are safe, the id that \<open>addTask\<close> assigns is the decimal
  numeral of 1 + the largest parsed id, where an id that does not parse counts 0, as
  does the absence of tasks.
\<close>

lemma addTask_id_formula:
  assumes safe: "\<forall>t\<in>set (tasks_of J d p). safe_id (task_id t)"
    and res: "addTask J today d p subj = (Inr task, d')"
  shows "task = \<lparr>task_id = decimal (nat (1 + Max (insert 0 (id_value ` task_id ` set (tasks_of J d p))))),
                  subject = subj, status = Pending, blockedBy = [], blocks = [], notes = []\<rparr>"
proof -
  let ?ts = "tasks_of J d p"
  let ?m = "Max (insert 0 (id_value ` task_id ` set ?ts))"
  have mx: "maxId_of ?ts = Fin ?m"
    using foldl_max_value [OF safe, of 0] by (simp add: maxId_of_def)
  from foldl_max_safe [OF safe, of 0] obtain m where "maxId_of ?ts = Fin m" "0 \<le> m" "m < 2 ^ 53"
    by (auto simp: maxId_of_def)
  with mx have m: "0 \<le> ?m" "?m < 2 ^ 53" by simp_all
  have "String_number J (plus1 (maxId_of ?ts)) = decimal (nat (1 + ?m))"
    unfolding mx by (rule next_id_small [OF m])
  with addTask_result [OF res] show ?thesis by (simp only:)
qed

subsection \<open>Sequences of calls on stored projects\<close>

lemma largest_id_ids: "map task_id ts' = map task_id ts \<Longrightarrow> largest_id ts' = largest_id ts"
proof -
  assume "map task_id ts' = map task_id ts"
  then have "set (map task_id ts') = set (map task_id ts)" by simp
  then have "task_id ` set ts' = task_id ` set ts" by simp
  then show ?thesis by (simp add: largest_id_def)
qed

lemma safe_ids_ids:
  assumes "map task_id ts' = map task_id ts" and "\<forall>t\<in>set ts. safe_id (task_id t)"
  shows "\<forall>t\<in>set ts'. safe_id (task_id t)"
proof -
  from assms(1) have "set (map task_id ts') = set (map task_id ts)" by simp
  then have "task_id ` set ts' = task_id ` set ts" by simp
  with assms(2) show ?thesis by (metis imageE imageI)
qed

lemma largest_id_nonneg: "0 \<le> largest_id ts"
  by (simp add: largest_id_def)

lemma largest_id_snoc: "largest_id (ts @ [t]) = max (largest_id ts) (id_value (task_id t))"
proof (cases "ts = []")
  case True
  then show ?thesis by (simp add: largest_id_def max.commute)
next
  case False
  have eq: "insert 0 (id_value ` task_id ` set (ts @ [t]))
          = insert (id_value (task_id t)) (insert 0 (id_value ` task_id ` set ts))" by auto
  show ?thesis unfolding largest_id_def eq by (subst Max_insert) (simp_all add: max.commute)
qed

lemma id_value_decimal: "int n < 2 ^ 53 \<Longrightarrow> id_value (decimal n) = int n"
  by (simp add: id_value_def parseInt_decimal round_double_small)

lemma safe_id_decimal: "int n < 2 ^ 53 \<Longrightarrow> safe_id (decimal n)"
  by (simp add: safe_id_def parseInt_decimal round_double_small)

lemma project_counted_update:
  assumes rt: "json_roundtrip J" and load: "getProject J d p = Inr (Some (Project data))"
    and pc: "project_counted J d p n" and ids: "map task_id ts = map task_id (tasks data)"
    and save: "saveProject J today d (data\<lparr>tasks := ts\<rparr>) = (r, d')"
  shows "project_counted J d' p n"
proof -
  from pc load have name: "project data = p" and safe: "\<forall>t\<in>set (tasks data). safe_id (task_id t)"
    and mx: "largest_id (tasks data) = int n" by (simp_all add: project_counted_def)
  from save_loaded [OF rt load name, of today ts] save
  have "getProject J d' p = Inr (Some (Project (data\<lparr>tasks := ts, updated := today\<rparr>)))" by auto
  with name safe_ids_ids [OF ids safe] largest_id_ids [OF ids] mx
  show ?thesis by (simp add: project_counted_def)
qed

lemma project_counted_cases:
  assumes "project_counted J d p n"
  obtains (absent) "getProject J d p = Inr None" "n = 0"
  | (loaded) data where "getProject J d p = Inr (Some (Project data))" "project data = p"
      "\<forall>t\<in>set (tasks data). safe_id (task_id t)" "largest_id (tasks data) = int n"
  using assms
  by (auto simp: project_counted_def split: sum.splits option.splits loaded.splits)

lemma setBlocker_counted:
  assumes rt: "json_roundtrip J" and pc: "project_counted J d p n"
  shows "project_counted J (snd (setBlocker J today d p t b)) p n"
  using pc
proof (cases rule: project_counted_cases)
  case absent
  with pc show ?thesis by (simp add: setBlocker_def)
next
  case (loaded data)
  note load = loaded(1)
  show ?thesis
  proof (cases "find_ref (\<lambda>u. task_id u = t) (tasks data)")
    case None
    with load pc show ?thesis by (simp add: setBlocker_def)
  next
    case i: (Some i)
    show ?thesis
    proof (cases "find_ref (\<lambda>u. task_id u = b) (tasks data)")
      case None
      with load i pc show ?thesis by (simp add: setBlocker_def)
    next
      case j: (Some j)
      have il: "i < length (tasks data)" and jl: "j < length (tasks data)"
        using find_ref_Some [OF i] find_ref_Some [OF j] by simp_all
      obtain r d' where s: "saveProject J today d
           (data\<lparr>tasks := setBlocker_tasks t b i j (tasks data)\<rparr>) = (r, d')"
        by (cases "saveProject J today d (data\<lparr>tasks := setBlocker_tasks t b i j (tasks data)\<rparr>)")
      have "snd (setBlocker J today d p t b) = d'"
        using load i j s by (cases r) (simp_all add: setBlocker_def)
      with project_counted_update [OF rt load pc _ s] il jl show ?thesis by simp
    qed
  qed
qed

lemma updateTaskStatus_counted:
  assumes rt: "json_roundtrip J" and pc: "project_counted J d p n"
  shows "project_counted J (snd (updateTaskStatus J today d p t st)) p n"
  using pc
proof (cases rule: project_counted_cases)
  case absent
  with pc show ?thesis by (simp add: updateTaskStatus_def)
next
  case (loaded data)
  note load = loaded(1)
  show ?thesis
  proof (cases "find_ref (\<lambda>u. task_id u = t) (tasks data)")
    case None
    with load pc show ?thesis by (simp add: updateTaskStatus_def)
  next
    case i: (Some i)
    obtain ts2 un where res: "updateTaskStatus_tasks t st i (tasks data) = (ts2, un)"
      by (cases "updateTaskStatus_tasks t st i (tasks data)")
    obtain r d' where s: "saveProject J today d (data\<lparr>tasks := ts2\<rparr>) = (r, d')"
      by (cases "saveProject J today d (data\<lparr>tasks := ts2\<rparr>)")
    have ids: "map task_id ts2 = map task_id (tasks data)"
      using updateTaskStatus_tasks_ids [of t st i "tasks data"] res by simp
    have "snd (updateTaskStatus J today d p t st) = d'"
      using load i res s by (cases r) (simp_all add: updateTaskStatus_def)
    with project_counted_update [OF rt load pc ids s] show ?thesis by simp
  qed
qed

lemma updateTaskNotes_counted:
  assumes rt: "json_roundtrip J" and pc: "project_counted J d p n"
  shows "project_counted J (snd (updateTaskNotes J today d p t ns)) p n"
  using pc
proof (cases rule: project_counted_cases)
  case absent
  with pc show ?thesis by (simp add: updateTaskNotes_def)
next
  case (loaded data)
  note load = loaded(1)
  show ?thesis
  proof (cases "find_ref (\<lambda>u. task_id u = t) (tasks data)")
    case None
    with load pc show ?thesis by (simp add: updateTaskNotes_def)
  next
    case i: (Some i)
    let ?ts = "(tasks data)[i := (tasks data ! i)\<lparr>notes := ns\<rparr>]"
    obtain r d' where s: "saveProject J today d (data\<lparr>tasks := ?ts\<rparr>) = (r, d')"
      by (cases "saveProject J today d (data\<lparr>tasks := ?ts\<rparr>)")
    have ids: "map task_id ?ts = map task_id (tasks data)"
      by (simp add: map_update map_update_same)
    have "snd (updateTaskNotes J today d p t ns) = d'"
      using load i s by (cases r) (simp_all add: updateTaskNotes_def)
    with project_counted_update [OF rt load pc ids s] show ?thesis by simp
  qed
qed

lemma fresh_project_counted: "fresh_project J d p \<Longrightarrow> project_counted J d p 0"
  by (auto simp: fresh_project_def project_counted_def largest_id_def
      split: sum.splits option.splits loaded.splits)

lemma addTask_counted_error:
  assumes rt: "json_roundtrip J" and pc: "project_counted J d p n"
    and a: "addTask J today d p subj = (Inl e, d')"
  shows "project_counted J d' p n"
  using pc
proof (cases rule: project_counted_cases)
  case absent
  from addTask_absent [OF rt absent(1), of today subj] a have "fresh_project J d' p" by auto
  with absent(2) show ?thesis by (simp add: fresh_project_counted)
next
  case (loaded data)
  show ?thesis
  proof (cases "length (tasks data) < 2 ^ 32 - 1")
    case True
    from addTask_loaded [OF rt loaded(1,2) True, of today subj] a show ?thesis by auto
  next
    case False
    then have "2 ^ 32 - 1 \<le> length (tasks data)" by simp
    from addTask_full [OF loaded(1) this, where today = today and subj = subj] a pc
    show ?thesis by simp
  qed
qed

lemma addTask_counted:
  assumes rt: "json_roundtrip J" and pc: "project_counted J d p n"
    and n: "int n + 1 < 2 ^ 53"
    and a: "addTask J today d p subj = (Inr task, d')"
  shows "task = \<lparr>task_id = decimal (Suc n), subject = subj, status = Pending, blockedBy = [],
                  blocks = [], notes = []\<rparr>"
    and "project_counted J d' p (Suc n)"
    and "tasks_of J d' p = tasks_of J d p @ [task]"
proof -
  let ?task = "\<lparr>task_id = decimal (Suc n), subject = subj, status = Pending, blockedBy = [],
                 blocks = [], notes = []\<rparr>"
  have "task = ?task \<and> project_counted J d' p (Suc n) \<and> tasks_of J d' p = tasks_of J d p @ [task]"
    using pc
  proof (cases rule: project_counted_cases)
    case absent
    from addTask_absent [OF rt absent(1), of today subj] a
    obtain data' where t: "task = \<lparr>task_id = ''1'', subject = subj, status = Pending,
          blockedBy = [], blocks = [], notes = []\<rparr>"
      and l: "getProject J d' p = Inr (Some (Project data'))" and nm: "project data' = p"
      and ts: "tasks data' = [task]" by auto
    have "project_counted J d' p (Suc 0)"
      using l nm ts t id_value_decimal [of 1] safe_id_decimal [of 1]
      by (simp add: project_counted_def largest_id_def decimal_1)
    with t l ts absent show ?thesis by (simp add: decimal_1 tasks_of_def)
  next
    case (loaded data)
    have room: "length (tasks data) < 2 ^ 32 - 1"
    proof (rule ccontr)
      assume "\<not> length (tasks data) < 2 ^ 32 - 1"
      then have "2 ^ 32 - 1 \<le> length (tasks data)" by simp
      from addTask_full [OF loaded(1) this, where today = today and subj = subj] a
      show False by simp
    qed
    have id: "String_number J (plus1 (maxId_of (tasks data))) = decimal (Suc n)"
    proof -
      have "maxId_of (tasks data) = Fin (int n)"
        using foldl_max_value [OF loaded(3), of 0] loaded(4)
        by (simp add: maxId_of_def largest_id_def)
      moreover have "nat (1 + int n) = Suc n" by simp
      ultimately show ?thesis using next_id_small [of "int n" J] n by simp
    qed
    from addTask_loaded [OF rt loaded(1,2) room, of today subj] a id
    have t: "task = ?task"
      and l: "getProject J d' p = Inr (Some (Project (data\<lparr>tasks := tasks data @ [?task], updated := today\<rparr>)))"
      by auto
    have "int (Suc n) < 2 ^ 53" using n by simp
    then have "safe_id (decimal (Suc n))" and "id_value (decimal (Suc n)) = int (Suc n)"
      by (rule safe_id_decimal, rule id_value_decimal)
    then have "project_counted J d' p (Suc n)"
      using l loaded(2,3,4) by (simp add: project_counted_def largest_id_snoc)
    with t l loaded(1) show ?thesis by (simp add: tasks_of_def)
  qed
  then show "task = ?task" and "project_counted J d' p (Suc n)"
    and "tasks_of J d' p = tasks_of J d p @ [task]" by simp_all
qed

lemma run_counted:
  assumes rt: "json_roundtrip J"
  shows "project_counted J d p n \<Longrightarrow> run J p cs d = (ids, d') \<Longrightarrow>
         int n + int (length ids) < 2 ^ 53 \<Longrightarrow>
         ids = map (\<lambda>k. decimal (n + Suc k)) [0..<length ids] \<and>
         project_counted J d' p (n + length ids)"
proof (induction cs arbitrary: d n ids)
  case Nil
  then show ?case by simp
next
  case (Cons c cs)
  obtain today cl where c: "c = (today, cl)" by (cases c)
  show ?case
  proof (cases cl)
    case (AddTask subj)
    obtain r d1 where a: "addTask J today d p subj = (r, d1)" by (cases "addTask J today d p subj")
    show ?thesis
    proof (cases r)
      case (Inl e)
      from addTask_counted_error [OF rt Cons.prems(1)] a Inl
      have pc1: "project_counted J d1 p n" by simp
      from Cons.prems(2) a Inl c AddTask have "run J p cs d1 = (ids, d')" by simp
      from Cons.IH [OF pc1 this Cons.prems(3)] show ?thesis .
    next
      case (Inr task)
      obtain ids1 where r1: "run J p cs d1 = (ids1, d')" and ids: "ids = task_id task # ids1"
        using Cons.prems(2) a Inr c AddTask by (auto split: prod.splits)
      from Cons.prems(3) ids have n1: "int n + 1 < 2 ^ 53"
        and n2: "int (Suc n) + int (length ids1) < 2 ^ 53" by simp_all
      from a Inr have a': "addTask J today d p subj = (Inr task, d1)" by simp
      from addTask_counted(1,2) [OF rt Cons.prems(1) n1 a']
      have t: "task_id task = decimal (Suc n)" and pc1: "project_counted J d1 p (Suc n)"
        by simp_all
      from Cons.IH [OF pc1 r1 n2]
      have i1: "ids1 = map (\<lambda>k. decimal (Suc n + Suc k)) [0..<length ids1]"
        and p1: "project_counted J d' p (Suc n + length ids1)" by blast+
      have "map (\<lambda>k. decimal (n + Suc k)) [0..<length ids]
          = decimal (Suc n) # map (\<lambda>k. decimal (Suc n + Suc k)) [0..<length ids1]"
        unfolding ids by (simp add: upt_conv_Cons map_Suc_upt [symmetric] del: upt_Suc)
      with ids t i1 p1 show ?thesis by simp
    qed
  next
    case (UpdateTaskStatus t st)
    from Cons.IH [OF updateTaskStatus_counted [OF rt Cons.prems(1)] _ Cons.prems(3)]
      Cons.prems(2) c UpdateTaskStatus
    show ?thesis by simp
  next
    case (UpdateTaskNotes t ns)
    from Cons.IH [OF updateTaskNotes_counted [OF rt Cons.prems(1)] _ Cons.prems(3)]
      Cons.prems(2) c UpdateTaskNotes
    show ?thesis by simp
  next
    case (SetBlocker t b)
    from Cons.IH [OF setBlocker_counted [OF rt Cons.prems(1)] _ Cons.prems(3)]
      Cons.prems(2) c SetBlocker
    show ?thesis by simp
  qed
qed

lemma largest_id_ge: "t \<in> set ts \<Longrightarrow> id_value (task_id t) \<le> largest_id ts"
  by (simp add: largest_id_def)

lemma project_counted_tasks:
  assumes "project_counted J d p n"
  shows "largest_id (tasks_of J d p) = int n" and "\<forall>t\<in>set (tasks_of J d p). safe_id (task_id t)"
  using assms
  by (auto simp: project_counted_def tasks_of_def largest_id_def
      split: sum.splits option.splits loaded.splits)

lemma addTask_appends:
  assumes rt: "json_roundtrip J" and pc: "project_counted J d p n"
    and a: "addTask J today d p subj = (Inr task, d')"
  shows "tasks_of J d' p = tasks_of J d p @ [task]"
  using pc
proof (cases rule: project_counted_cases)
  case absent
  from addTask_absent [OF rt absent(1), of today subj] a
  obtain data' where "getProject J d' p = Inr (Some (Project data'))" "tasks data' = [task]"
    by auto
  with absent(1) show ?thesis by (simp add: tasks_of_def)
next
  case (loaded data)
  have room: "length (tasks data) < 2 ^ 32 - 1"
  proof (rule ccontr)
    assume "\<not> length (tasks data) < 2 ^ 32 - 1"
    then have "2 ^ 32 - 1 \<le> length (tasks data)" by simp
    from addTask_full [OF loaded(1) this, where today = today and subj = subj] a
    show False by simp
  qed
  from addTask_loaded [OF rt loaded(1,2) room, of today subj] a loaded(1)
  show ?thesis by (auto simp: tasks_of_def)
qed

lemma addTask_counted_succeeds:
  assumes rt: "json_roundtrip J" and pc: "project_counted J d p n"
    and dirs: "tasksDir d \<noteq> None" "plansDir d \<noteq> None"
    and room: "length (tasks_of J d p) < 2 ^ 32 - 1"
  shows "\<exists>task d'. addTask J today d p subj = (Inr task, d')"
  using pc
proof (cases rule: project_counted_cases)
  case absent
  then have "fresh_project J d p" by (simp add: fresh_project_def)
  from addTask_succeeds [OF rt fresh_project_numbered [OF this] _ dirs] show ?thesis by simp
next
  case (loaded data)
  with room have "length (tasks data) < 2 ^ 32 - 1" by (simp add: tasks_of_def)
  from addTask_loaded [OF rt loaded(1,2) this, of today subj] show ?thesis by blast
qed

lemma counted_ids_values:
  "int n + int m < 2 ^ 53 \<Longrightarrow>
   map id_value (map (\<lambda>k. decimal (n + Suc k)) [0..<m]) = map (\<lambda>k. int n + 1 + int k) [0..<m]"
  by (auto simp: id_value_decimal)

lemma counted_ids_distinct: "distinct (map (\<lambda>k. decimal (n + Suc k)) [0..<m])"
proof -
  have "inj_on (\<lambda>k. decimal (n + Suc k)) (set [0..<m])"
    by (auto simp: inj_on_def dest: decimal_inj)
  then show ?thesis by (simp add: distinct_map)
qed

lemma counted_ids_new:
  assumes n: "int n + int m < 2 ^ 53" and mx: "largest_id ts = int n"
  shows "set (map (\<lambda>k. decimal (n + Suc k)) [0..<m]) \<inter> task_id ` set ts = {}"
proof (rule ccontr)
  assume "set (map (\<lambda>k. decimal (n + Suc k)) [0..<m]) \<inter> task_id ` set ts \<noteq> {}"
  then obtain k t where k: "k < m" and t: "t \<in> set ts" "decimal (n + Suc k) = task_id t"
    by auto
  from n k have "int (n + Suc k) < 2 ^ 53" by simp
  from id_value_decimal [OF this] t(2) have "id_value (task_id t) = int (n + Suc k)" by simp
  with largest_id_ge [OF t(1)] mx show False by simp
qed

lemma updateTaskNotes_loaded:
  assumes rt: "json_roundtrip J" and load: "getProject J d p = Inr (Some (Project data))"
    and name: "project data = p"
    and i: "find_ref (\<lambda>u. task_id u = x) (tasks data) = Some i"
  shows "\<exists>d'. updateTaskNotes J today d p x ns = (Inr (), d') \<and>
              getProject J d' p =
                Inr (Some (Project (data\<lparr>tasks := (tasks data)[i := (tasks data ! i)\<lparr>notes := ns\<rparr>],
                                         updated := today\<rparr>)))"
  using save_loaded [OF rt load name, of today "(tasks data)[i := (tasks data ! i)\<lparr>notes := ns\<rparr>]"]
    load i
  by (auto simp: updateTaskNotes_def)

lemma decimal_8: "decimal 8 = ''8''"
  by (simp add: decimal.simps digit_char_def)

lemma decimal_9: "decimal 9 = ''9''"
  by (simp add: decimal.simps digit_char_def)

lemma decimal_2: "decimal 2 = ''2''"
  by (simp add: decimal.simps digit_char_def)

lemma decimal_2p53_less: "decimal 9007199254740991 = ''9007199254740991''"
  by (simp add: decimal.simps digit_char_def)

lemma decimal_2p53_more: "decimal 9007199254740993 = ''9007199254740993''"
  by (simp add: decimal.simps digit_char_def)

lemma parseInt_2p53_less: "parseInt ''9007199254740991'' = Fin 9007199254740991"
  using parseInt_decimal [of 9007199254740991]
  by (simp add: decimal_2p53_less round_double_small)

lemma parseInt_2p53: "parseInt ''9007199254740992'' = Fin 9007199254740992"
  using parseInt_decimal [of 9007199254740992] by (simp add: decimal_2p53 round_double_2p53)

lemma parseInt_7: "parseInt ''7'' = Fin 7"
  by (simp add: parseInt_def is_space_def digit_value_def radix_value_def Let_def
      round_double_small)

lemma parseInt_abc: "parseInt ''abc'' = NaN"
  by (simp add: parseInt_def is_space_def digit_value_def radix_value_def Let_def)

text \<open>
  Claim C4, amended.  \<open>addTask\<close> (createTask) appends a task whose status is \<open>pending\<close>,
  whose \<open>blockedBy\<close>, \<open>blocks\<close> and \<open>notes\<close> are empty, and whose id is the decimal
  string of 1 + the maximum over the existing tasks of their id parsed as an integer
  (taking 0 when there are no tasks, and for an id that does not parse), in every project
  none of whose ids parses to \<open>2^53\<close> or more.  Consequently, over every sequence of
  \<open>addTask\<close> calls within one project, interleaved arbitrarily with status updates, notes
  updates and \<open>setBlocker\<close>, the assigned ids are strictly increasing positive integers
  and none is used twice, as long as they stay below \<open>2^53\<close>; in a project that starts
  without tasks they always do.  In detail, on a platform whose JSON round-trips:
  \<^item> where every stored id is safe (parses to less than \<open>2^53\<close>, or does not parse), a task
    that \<open>addTask\<close> returns has the numeral of 1 + \<open>largest_id\<close> for id, status
    \<open>pending\<close>, and empty \<open>blockedBy\<close>, \<open>blocks\<close> and \<open>notes\<close>;
  \<^item> where moreover the project is stored under its own name (or has no record), with
    \<open>n\<close> for largest id, the project then holds the tasks it held followed by this one,
    and \<open>addTask\<close> does return a task when both directories exist and the array is not
    full;
  \<^item> from such a project, the ids that any sequence of calls assigns are the numerals of
    \<open>n + 1\<close>, \<open>n + 2\<close>, ..., their parsed values are these numbers, no two are equal
    and none is the id of a task that the project held, as long as the last is below
    \<open>2^53\<close>;
  \<^item> from a project with no record or no tasks they are 1, 2, 3, ... without condition,
    and the next \<open>addTask\<close> continues the numbering.
\<close>

theorem addTask_numbering:
  assumes rt: "json_roundtrip J"
  shows "((\<forall>t\<in>set (tasks_of J d p). safe_id (task_id t)) \<and>
          addTask J today d p subj = (Inr task, d') \<longrightarrow>
            task = \<lparr>task_id = decimal (nat (1 + largest_id (tasks_of J d p))), subject = subj,
                    status = Pending, blockedBy = [], blocks = [], notes = []\<rparr>) \<and>
         (project_counted J d p n \<and> addTask J today d p subj = (Inr task, d') \<longrightarrow>
            tasks_of J d' p = tasks_of J d p @ [task]) \<and>
         (project_counted J d p n \<and> tasksDir d \<noteq> None \<and> plansDir d \<noteq> None \<and>
          length (tasks_of J d p) < 2 ^ 32 - 1 \<longrightarrow>
            (\<exists>task d'. addTask J today d p subj = (Inr task, d'))) \<and>
         (project_counted J d p n \<and> run J p cs d = (ids, d1) \<and>
          int n + int (length ids) < 2 ^ 53 \<longrightarrow>
            ids = map (\<lambda>k. decimal (n + Suc k)) [0..<length ids] \<and>
            map id_value ids = map (\<lambda>k. int n + 1 + int k) [0..<length ids] \<and>
            distinct ids \<and> set ids \<inter> task_id ` set (tasks_of J d p) = {} \<and>
            project_counted J d1 p (n + length ids)) \<and>
         (fresh_project J d p \<and> run J p cs d = (ids, d1) \<longrightarrow>
            ids = map (\<lambda>k. decimal (Suc k)) [0..<length ids] \<and> distinct ids \<and>
            length (tasks_of J d1 p) = length ids \<and>
            maxId_of (tasks_of J d1 p) = Fin (int (length ids)) \<and>
            (\<forall>task d'. addTask J today d1 p subj = (Inr task, d') \<longrightarrow>
               task = \<lparr>task_id = decimal (Suc (length ids)), subject = subj, status = Pending,
                       blockedBy = [], blocks = [], notes = []\<rparr> \<and>
               tasks_of J d' p = tasks_of J d1 p @ [task]) \<and>
            (tasksDir d1 \<noteq> None \<and> plansDir d1 \<noteq> None \<and> length ids < 2 ^ 32 - 1 \<longrightarrow>
               (\<exists>task d'. addTask J today d1 p subj = (Inr task, d'))))"
proof -
  have formula: "task = \<lparr>task_id = decimal (nat (1 + largest_id (tasks_of J d p))), subject = subj,
                    status = Pending, blockedBy = [], blocks = [], notes = []\<rparr>"
    if "\<forall>t\<in>set (tasks_of J d p). safe_id (task_id t)"
      and "addTask J today d p subj = (Inr task, d')"
    using addTask_id_formula [OF that] by (simp only: largest_id_def)
  have appended: "tasks_of J d' p = tasks_of J d p @ [task]"
    if "project_counted J d p n" and "addTask J today d p subj = (Inr task, d')"
    using addTask_appends [OF rt that] .
  have succeeds: "\<exists>task d'. addTask J today d p subj = (Inr task, d')"
    if "project_counted J d p n" and "tasksDir d \<noteq> None" and "plansDir d \<noteq> None"
      and "length (tasks_of J d p) < 2 ^ 32 - 1"
    using addTask_counted_succeeds [OF rt that] .
  have sequence: "ids = map (\<lambda>k. decimal (n + Suc k)) [0..<length ids] \<and>
            map id_value ids = map (\<lambda>k. int n + 1 + int k) [0..<length ids] \<and>
            distinct ids \<and> set ids \<inter> task_id ` set (tasks_of J d p) = {} \<and>
            project_counted J d1 p (n + length ids)"
    if pc: "project_counted J d p n" and r: "run J p cs d = (ids, d1)"
      and n: "int n + int (length ids) < 2 ^ 53"
  proof -
    from run_counted [OF rt pc r n]
    have ids: "ids = map (\<lambda>k. decimal (n + Suc k)) [0..<length ids]"
      and pc1: "project_counted J d1 p (n + length ids)" by simp_all
    have vals: "map id_value ids = map (\<lambda>k. int n + 1 + int k) [0..<length ids]"
      by (subst ids) (rule counted_ids_values [OF n])
    have dist: "distinct ids"
      by (subst ids) (rule counted_ids_distinct)
    have new: "set ids \<inter> task_id ` set (tasks_of J d p) = {}"
      by (subst ids) (rule counted_ids_new [OF n project_counted_tasks(1) [OF pc]])
    from ids vals dist new pc1 show ?thesis by blast
  qed
  note fresh = fresh_run_numbering [OF rt, where ?d0.0 = d and p = p and cs = cs and ids = ids
      and d = d1 and today = today and subj = subj]
  from formula appended succeeds sequence fresh show ?thesis by blast
qed

text \<open>
  The theorem at a stored project with the ids \<open>7\<close> and \<open>abc\<close>, where two \<open>addTask\<close>
  calls with a status update and a notes update between them assign 8 and 9, and at an
  empty store, where they assign 1 and 2.
\<close>

theorem addTask_numbering_witness:
  "safe_id ''7'' \<and> safe_id ''abc'' \<and>
   largest_id [sample_task ''7'' Pending [] [], sample_task ''abc'' Pending [] []] = 7 \<and>
   fst (addTask sample_platform ''2026-01-02''
          (sample_disk [sample_task ''7'' Pending [] [], sample_task ''abc'' Pending [] []])
          ''p'' ''a'')
     = Inr \<lparr>task_id = ''8'', subject = ''a'', status = Pending, blockedBy = [], blocks = [],
            notes = []\<rparr> \<and>
   tasks_of sample_platform
     (snd (addTask sample_platform ''2026-01-02''
             (sample_disk [sample_task ''7'' Pending [] [], sample_task ''abc'' Pending [] []])
             ''p'' ''a''))
     ''p''
     = [sample_task ''7'' Pending [] [], sample_task ''abc'' Pending [] [],
        \<lparr>task_id = ''8'', subject = ''a'', status = Pending, blockedBy = [], blocks = [],
           notes = []\<rparr>] \<and>
   fst (run sample_platform ''p''
          [(''2026-01-02'', AddTask ''a''),
           (''2026-01-03'', UpdateTaskStatus ''7'' InProgress),
           (''2026-01-03'', UpdateTaskNotes ''abc'' ''later''),
           (''2026-01-04'', AddTask ''b'')]
          (sample_disk [sample_task ''7'' Pending [] [], sample_task ''abc'' Pending [] []]))
     = [''8'', ''9''] \<and>
   fst (run sample_platform ''p''
          [(''2026-01-02'', AddTask ''a''),
           (''2026-01-03'', UpdateTaskNotes ''1'' ''later''),
           (''2026-01-04'', AddTask ''b'')]
          \<lparr>tasksDir = Some [], plansDir = Some []\<rparr>)
     = [''1'', ''2'']"
proof -
  let ?J = sample_platform
  note rt = sample_roundtrip
  let ?ts = "[sample_task ''7'' Pending [] [], sample_task ''abc'' Pending [] []]"
  let ?d = "sample_disk ?ts"
  let ?cs = "[(''2026-01-02'', AddTask ''a''),
              (''2026-01-03'', UpdateTaskStatus ''7'' InProgress),
              (''2026-01-03'', UpdateTaskNotes ''abc'' ''later''),
              (''2026-01-04'', AddTask ''b'')]"
  have s7: "safe_id ''7''" and sa: "safe_id ''abc''"
    by (simp_all add: safe_id_def parseInt_7 parseInt_abc)
  have mx: "largest_id ?ts = 7"
    by (simp add: largest_id_def sample_task_def id_value_def parseInt_7 parseInt_abc)
  have name: "project (sample_project ?ts) = ''p''" by (simp add: sample_project_def)
  have ts: "tasks (sample_project ?ts) = ?ts" by (simp add: sample_project_def)
  have t0: "tasks_of ?J ?d ''p'' = ?ts" by (simp add: tasks_of_def ts)
  have safe: "\<forall>t\<in>set (tasks_of ?J ?d ''p''). safe_id (task_id t)"
    unfolding t0 using s7 sa by (simp add: sample_task_def)
  have pc: "project_counted ?J ?d ''p'' 7"
    using s7 sa mx by (simp add: project_counted_def name ts) (simp add: sample_task_def)
  \<comment> \<open>the first call\<close>
  have room0: "length (tasks (sample_project ?ts)) < 2 ^ 32 - 1" by (simp add: ts)
  from addTask_loaded [OF rt getProject_sample_disk name room0, of "''2026-01-02''" "''a''"]
  obtain task1 d1 where a1: "addTask ?J ''2026-01-02'' ?d ''p'' ''a'' = (Inr task1, d1)"
    and l1: "getProject ?J d1 ''p'' =
          Inr (Some (Project (sample_project ?ts\<lparr>tasks := tasks (sample_project ?ts) @ [task1],
                                                  updated := ''2026-01-02''\<rparr>)))"
    by blast
  let ?data1 = "sample_project ?ts\<lparr>tasks := tasks (sample_project ?ts) @ [task1],
                                     updated := ''2026-01-02''\<rparr>"
  have n1: "project ?data1 = ''p''" by (simp add: name)
  have ts1: "tasks ?data1 = ?ts @ [task1]" by (simp add: ts)
  \<comment> \<open>the status of 7\<close>
  have i2: "find_ref (\<lambda>u. task_id u = ''7'') (tasks ?data1) = Some 0"
    by (simp add: sample_project_def sample_task_def)
  obtain ts2 un where u: "updateTaskStatus_tasks ''7'' InProgress 0 (?ts @ [task1]) = (ts2, un)"
    by (cases "updateTaskStatus_tasks ''7'' InProgress 0 (?ts @ [task1])")
  have u2: "updateTaskStatus_tasks ''7'' InProgress 0 (tasks ?data1) = (ts2, un)"
    unfolding ts1 by (rule u)
  have "map task_id (fst (updateTaskStatus_tasks ''7'' InProgress 0 (?ts @ [task1])))
      = map task_id (?ts @ [task1])"
    by (rule updateTaskStatus_tasks_ids)
  then have ids2: "map task_id ts2 = map task_id (?ts @ [task1])"
    unfolding u by (simp only: fst_conv)
  from updateTaskStatus_loaded [OF rt l1 n1 i2 u2, of "''2026-01-03''"]
  obtain d2 where s2: "updateTaskStatus ?J ''2026-01-03'' d1 ''p'' ''7'' InProgress
        = (Inr (ts2 ! 0, un), d2)"
    and l2: "getProject ?J d2 ''p'' = Inr (Some (Project (?data1\<lparr>tasks := ts2, updated := ''2026-01-03''\<rparr>)))"
    by blast
  let ?data2 = "?data1\<lparr>tasks := ts2, updated := ''2026-01-03''\<rparr>"
  have n2: "project ?data2 = ''p''" by (simp add: name)
  \<comment> \<open>the notes of abc\<close>
  have "find_ref (\<lambda>u. task_id u = ''abc'') ts2 = find_ref (\<lambda>u. task_id u = ''abc'') (?ts @ [task1])"
    by (rule find_ref_cong_ids [OF ids2])
  then have i3: "find_ref (\<lambda>u. task_id u = ''abc'') (tasks ?data2) = Some 1"
    by (simp add: sample_task_def)
  from updateTaskNotes_loaded [OF rt l2 n2 i3, of "''2026-01-03''" "''later''"]
  obtain d3 where s3: "updateTaskNotes ?J ''2026-01-03'' d2 ''p'' ''abc'' ''later'' = (Inr (), d3)"
    and l3: "getProject ?J d3 ''p'' =
          Inr (Some (Project (?data2\<lparr>tasks := (tasks ?data2)[1 := (tasks ?data2 ! 1)\<lparr>notes := ''later''\<rparr>],
                                       updated := ''2026-01-03''\<rparr>)))"
    by blast
  let ?data3 = "?data2\<lparr>tasks := (tasks ?data2)[1 := (tasks ?data2 ! 1)\<lparr>notes := ''later''\<rparr>],
                          updated := ''2026-01-03''\<rparr>"
  have n3: "project ?data3 = ''p''" by (simp add: name)
  have "length ts2 = length (?ts @ [task1])" using ids2 by (metis length_map)
  then have room3: "length (tasks ?data3) < 2 ^ 32 - 1" by simp
  \<comment> \<open>the second new task\<close>
  from addTask_loaded [OF rt l3 n3 room3, of "''2026-01-04''" "''b''"]
  obtain task4 d4 where a4: "addTask ?J ''2026-01-04'' d3 ''p'' ''b'' = (Inr task4, d4)" by blast
  have r: "run ?J ''p'' ?cs ?d = ([task_id task1, task_id task4], d4)"
    by (simp add: a1 s2 s3 a4)
  have bound: "int 7 + int (length [task_id task1, task_id task4]) < 2 ^ 53" by simp
  note inst = addTask_numbering [OF rt, where d = "?d" and p = "''p''" and n = 7
      and today = "''2026-01-02''" and subj = "''a''" and task = task1 and ?d' = d1
      and cs = "?cs" and ids = "[task_id task1, task_id task4]" and ?d1.0 = d4]
  from inst safe a1
  have "task1 = \<lparr>task_id = decimal (nat (1 + largest_id (tasks_of ?J ?d ''p''))), subject = ''a'',
                  status = Pending, blockedBy = [], blocks = [], notes = []\<rparr>"
    by blast
  then have first: "task1 = \<lparr>task_id = ''8'', subject = ''a'', status = Pending, blockedBy = [],
                          blocks = [], notes = []\<rparr>"
    unfolding t0 mx by (simp add: decimal_8)
  from inst pc a1 have "tasks_of ?J d1 ''p'' = tasks_of ?J ?d ''p'' @ [task1]" by blast
  then have app: "tasks_of ?J d1 ''p'' =
      [sample_task ''7'' Pending [] [], sample_task ''abc'' Pending [] [],
       \<lparr>task_id = ''8'', subject = ''a'', status = Pending, blockedBy = [], blocks = [],
          notes = []\<rparr>]"
    unfolding t0 first by simp
  from inst pc r bound
  have "[task_id task1, task_id task4] = map (\<lambda>k. decimal (7 + Suc k)) [0..<length [task_id task1, task_id task4]]"
    by blast
  then have seq: "[task_id task1, task_id task4] = [''8'', ''9'']"
    by (simp add: decimal_8 decimal_9)
  \<comment> \<open>a project that starts without a record\<close>
  let ?e = "\<lparr>tasksDir = Some [], plansDir = Some []\<rparr>"
  let ?es = "[(''2026-01-02'', AddTask ''a''),
              (''2026-01-03'', UpdateTaskNotes ''1'' ''later''),
              (''2026-01-04'', AddTask ''b'')]"
  let ?t1 = "\<lparr>task_id = ''1'', subject = ''a'', status = Pending, blockedBy = [], blocks = [],
              notes = []\<rparr>"
  have f: "fresh_project ?J ?e ''p''"
    by (simp add: fresh_project_def getProject_def try_catch_def readFileSync_def)
  have e0: "getProject ?J ?e ''p'' = Inr None"
    by (simp add: getProject_def try_catch_def readFileSync_def)
  note pn0 = fresh_project_numbered [OF f]
  from addTask_succeeds [OF rt pn0, of "''2026-01-02''" "''a''"]
  obtain k1 e1 where b1: "addTask ?J ''2026-01-02'' ?e ''p'' ''a'' = (Inr k1, e1)" by auto
  from addTask_absent [OF rt e0, of "''2026-01-02''" "''a''"] b1
  obtain data1 where m1: "getProject ?J e1 ''p'' = Inr (Some (Project data1))"
    "project data1 = ''p''" "tasks data1 = [?t1]" by auto
  have j2: "find_ref (\<lambda>u. task_id u = ''1'') (tasks data1) = Some 0" by (simp add: m1(3))
  from updateTaskNotes_loaded [OF rt m1(1,2) j2, of "''2026-01-03''" "''later''"]
  obtain e2 where b2: "updateTaskNotes ?J ''2026-01-03'' e1 ''p'' ''1'' ''later'' = (Inr (), e2)"
    and m2: "getProject ?J e2 ''p'' =
          Inr (Some (Project (data1\<lparr>tasks := (tasks data1)[0 := (tasks data1 ! 0)\<lparr>notes := ''later''\<rparr>],
                                      updated := ''2026-01-03''\<rparr>)))"
    by blast
  let ?data2' = "data1\<lparr>tasks := (tasks data1)[0 := (tasks data1 ! 0)\<lparr>notes := ''later''\<rparr>],
                         updated := ''2026-01-03''\<rparr>"
  have o2: "project ?data2' = ''p''" by (simp add: m1(2))
  have room2: "length (tasks ?data2') < 2 ^ 32 - 1" by (simp add: m1(3))
  from addTask_loaded [OF rt m2 o2 room2, of "''2026-01-04''" "''b''"]
  obtain k3 e3 where b3: "addTask ?J ''2026-01-04'' e2 ''p'' ''b'' = (Inr k3, e3)" by blast
  have r': "run ?J ''p'' ?es ?e = ([task_id k1, task_id k3], e3)"
    by (simp add: b1 b2 b3)
  from addTask_numbering [OF rt, where d = "?e" and p = "''p''" and cs = "?es"
      and ids = "[task_id k1, task_id k3]" and ?d1.0 = e3] f r'
  have "[task_id k1, task_id k3] = map (\<lambda>k. decimal (Suc k)) [0..<length [task_id k1, task_id k3]]"
    by blast
  then have seq': "[task_id k1, task_id k3] = [''1'', ''2'']"
    using decimal_2 by (simp add: decimal_1 numeral_2_eq_2)
  from s7 sa mx first app seq seq' show ?thesis
    by (simp only: a1 r r' fst_conv snd_conv)
qed

text \<open>
  The claim as it is written fails at the stored id \<open>9007199254740991\<close>, which is
  \<open>2^53 - 1\<close>: the first \<open>addTask\<close> assigns \<open>2^53\<close>, and for the second \<open>maxId + 1\<close>
  is not a double and rounds back to \<open>2^53\<close>.  So two calls in a row assign the same id,
  and the second id is not the numeral of 1 + the largest id, which is \<open>2^53 + 1\<close>.
\<close>

theorem addTask_numbering_counterexample:
  "fst (run sample_platform ''p''
          [(''2026-01-02'', AddTask ''a''), (''2026-01-02'', AddTask ''b'')]
          (sample_disk [sample_task ''9007199254740991'' Pending [] []]))
     = [''9007199254740992'', ''9007199254740992''] \<and>
   decimal (nat (1 + largest_id [sample_task ''9007199254740991'' Pending [] [],
                                  \<lparr>task_id = ''9007199254740992'', subject = ''a'', status = Pending,
                                     blockedBy = [], blocks = [], notes = []\<rparr>]))
     = ''9007199254740993''"
proof -
  let ?J = sample_platform
  note rt = sample_roundtrip
  let ?ts = "[sample_task ''9007199254740991'' Pending [] []]"
  let ?d = "sample_disk ?ts"
  let ?k1 = "\<lparr>task_id = ''9007199254740992'', subject = ''a'', status = Pending,
              blockedBy = [], blocks = [], notes = []\<rparr>"
  let ?k2 = "\<lparr>task_id = ''9007199254740992'', subject = ''b'', status = Pending,
              blockedBy = [], blocks = [], notes = []\<rparr>"
  have name: "project (sample_project ?ts) = ''p''" by (simp add: sample_project_def)
  have ts: "tasks (sample_project ?ts) = ?ts" by (simp add: sample_project_def)
  have room0: "length (tasks (sample_project ?ts)) < 2 ^ 32 - 1" by (simp add: ts)
  have m0: "maxId_of ?ts = Fin 9007199254740991"
    by (simp add: maxId_of_def sample_task_def parseInt_2p53_less or0_def)
  have id1: "String_number ?J (plus1 (maxId_of (tasks (sample_project ?ts)))) = ''9007199254740992''"
    unfolding ts m0 by (simp add: plus1_def round_double_2p53 String_number_def decimal_2p53)
  from addTask_loaded [OF rt getProject_sample_disk name room0, of "''2026-01-02''" "''a''"]
  obtain d1 where a1: "addTask ?J ''2026-01-02'' ?d ''p'' ''a'' = (Inr ?k1, d1)"
    and l1: "getProject ?J d1 ''p'' =
          Inr (Some (Project (sample_project ?ts\<lparr>tasks := tasks (sample_project ?ts) @ [?k1],
                                                  updated := ''2026-01-02''\<rparr>)))"
    unfolding id1 by blast
  let ?data1 = "sample_project ?ts\<lparr>tasks := tasks (sample_project ?ts) @ [?k1],
                                     updated := ''2026-01-02''\<rparr>"
  have n1: "project ?data1 = ''p''" by (simp add: name)
  have ts1: "tasks ?data1 = ?ts @ [?k1]" by (simp add: ts)
  have room1: "length (tasks ?data1) < 2 ^ 32 - 1" by (simp add: ts)
  have m1: "maxId_of (?ts @ [?k1]) = Fin 9007199254740992"
    unfolding maxId_of_snoc m0 by (simp add: parseInt_2p53 or0_def)
  have id2: "String_number ?J (plus1 (maxId_of (tasks ?data1))) = ''9007199254740992''"
    unfolding ts1 m1 by (simp add: plus1_def round_double_2p53_1 String_number_def decimal_2p53)
  from addTask_loaded [OF rt l1 n1 room1, of "''2026-01-02''" "''b''"]
  obtain d2 where a2: "addTask ?J ''2026-01-02'' d1 ''p'' ''b'' = (Inr ?k2, d2)"
    unfolding id2 by blast
  have r: "fst (run ?J ''p'' [(''2026-01-02'', AddTask ''a''), (''2026-01-02'', AddTask ''b'')] ?d)
      = [''9007199254740992'', ''9007199254740992'']"
    by (simp add: a1 a2)
  have "largest_id [sample_task ''9007199254740991'' Pending [] [], ?k1] = 9007199254740992"
    by (simp add: largest_id_def sample_task_def id_value_def parseInt_2p53_less parseInt_2p53)
  then have "decimal (nat (1 + largest_id [sample_task ''9007199254740991'' Pending [] [], ?k1]))
      = ''9007199254740993''"
    by (simp add: decimal_2p53_more)
  with r show ?thesis by simp
qed

end
